(* ===== verification/Meta_Prelude.thy ===== *)
theory Meta_Prelude
  imports Main "HOL-Library.Word" "HOL-Library.Char_ord" "HOL-Library.List_Lexorder"
    "HOL-Library.Sublist"
begin

text \<open>
  What every component of the development shares: the machine types of the source
  (\<open>u64\<close>, bytes and strings), results with an error and a state threaded through,
  the retry loop of the transactional clients, and ordered key-value stores with the
  lemmas that carry the proofs about them. A Rust \<open>String\<close> or \<open>Vec<u8>\<close> is a list of
  bytes, and a byte is a \<open>char\<close>; the order on such lists is the lexicographic order on
  bytes, which is the order Rust gives to \<open>String\<close> and sled to its keys.
\<close>

named_theorems store_simps \<open>what the operations of an ordered store do to lookups\<close>
named_theorems result_simps \<open>evaluation of results and of the early return\<close>

type_synonym u64 = "64 word"
type_synonym bytes = "char list"


section \<open>Results, early returns and retry loops\<close>

text \<open>
  A fallible call that also changes the state returns an error or a value, and the state
  after the call. \<open>try_st\<close> is Rust's \<open>?\<close> after such a call: an error is returned at once,
  with the state the call left; \<open>try_res\<close> is the \<open>?\<close> after a call that has no state.
\<close>

type_synonym ('e, 'a, 's) st_result = "('e + 'a) \<times> 's"

definition try_st ::
  "('e, 'a, 's) st_result \<Rightarrow> ('a \<Rightarrow> 's \<Rightarrow> ('e, 'b, 's) st_result) \<Rightarrow> ('e, 'b, 's) st_result" where
  "try_st r k = (case r of (Inl e, s) \<Rightarrow> (Inl e, s) | (Inr a, s) \<Rightarrow> k a s)"

definition try_res :: "('e + 'a) \<Rightarrow> ('a \<Rightarrow> 'e + 'b) \<Rightarrow> 'e + 'b" where
  "try_res r k = (case r of Inl e \<Rightarrow> Inl e | Inr a \<Rightarrow> k a)"

definition lift_res :: "('e + 'a) \<Rightarrow> 's \<Rightarrow> ('e, 'a, 's) st_result" where
  "lift_res r s = (r, s)"

lemma try_st_simps [simp, result_simps]:
  "try_st (Inl e, s) k = (Inl e, s)"
  "try_st (Inr a, s) k = k a s"
  by (simp_all add: try_st_def)

lemma try_res_simps [simp, result_simps]:
  "try_res (Inl e) k = Inl e"
  "try_res (Inr a) k = k a"
  by (simp_all add: try_res_def)

lemma lift_res_simp [simp, result_simps]: "lift_res r s = (r, s)"
  by (simp add: lift_res_def)

lemma try_res_Inr_iff: "try_res r k = Inr b \<longleftrightarrow> (\<exists>a. r = Inr a \<and> k a = Inr b)"
  by (cases r) auto

lemma try_st_Inr_iff:
  "try_st r k = (Inr b, t) \<longleftrightarrow> (\<exists>a s. r = (Inr a, s) \<and> k a s = (Inr b, t))"
  by (cases r; cases "fst r") auto

text \<open>A loop that pushes one converted item after another and stops at the first error.\<close>

fun collect_res :: "('a \<Rightarrow> 'e + 'b) \<Rightarrow> 'a list \<Rightarrow> 'e + 'b list" where
  "collect_res f [] = Inr []"
| "collect_res f (x # xs) = try_res (f x) (\<lambda>y. try_res (collect_res f xs) (\<lambda>ys. Inr (y # ys)))"

lemma collect_res_Inr:
  "(\<And>x. x \<in> set xs \<Longrightarrow> f x = Inr (g x)) \<Longrightarrow> collect_res f xs = Inr (map g xs)"
  by (induction xs) simp_all

lemma collect_res_map: "collect_res f (map g xs) = collect_res (\<lambda>x. f (g x)) xs"
  by (induction xs) simp_all

lemma try_res_cong [fundef_cong]:
  "r = r' \<Longrightarrow> (\<And>a. r' = Inr a \<Longrightarrow> k a = k' a) \<Longrightarrow> try_res r k = try_res r' k'"
  by (cases r') simp_all

lemma collect_res_cong [fundef_cong]:
  "xs = ys \<Longrightarrow> (\<And>x. x \<in> set ys \<Longrightarrow> f x = g x) \<Longrightarrow> collect_res f xs = collect_res g ys"
  by (induction ys arbitrary: xs) simp_all

lemma collect_res_try:
  "collect_res (\<lambda>x. try_res (f x) (\<lambda>y. Inr (g y))) xs = try_res (collect_res f xs) (\<lambda>ys. Inr (map g ys))"
proof (induction xs)
  case (Cons x xs)
  then show ?case by (cases "f x"; cases "collect_res f xs") simp_all
qed simp

lemma collect_res_Inr_iff:
  "collect_res f xs = Inr ys \<longleftrightarrow> length ys = length xs \<and> (\<forall>i < length xs. f (xs ! i) = Inr (ys ! i))"
proof (induction xs arbitrary: ys)
  case Nil
  then show ?case by auto
next
  case (Cons x xs)
  then show ?case by (cases ys) (auto simp: try_res_Inr_iff nth_Cons less_Suc_eq_0_disj split: nat.splits)
qed

text \<open>
  \<open>loop { ... }\<close> of the source: the body returns an error, the loop's value, or nothing, in
  which case the loop goes round again. The loop is run with fuel, and running out of it is
  the value \<open>None\<close>: not returning.
\<close>

fun retry :: "nat \<Rightarrow> ('s \<Rightarrow> ('e, 'a option, 's) st_result) \<Rightarrow> 's \<Rightarrow> ('e + 'a) option \<times> 's" where
  "retry 0 body s = (None, s)"
| "retry (Suc n) body s =
     (case body s of
        (Inl e, s') \<Rightarrow> (Some (Inl e), s')
      | (Inr (Some a), s') \<Rightarrow> (Some (Inr a), s')
      | (Inr None, s') \<Rightarrow> retry n body s')"

lemma retry_mono:
  "retry n body s = (Some r, t) \<Longrightarrow> retry (Suc n) body s = (Some r, t)"
proof (induction n arbitrary: s)
  case 0
  then show ?case by simp
next
  case (Suc n)
  then show ?case
    by (cases "body s"; cases "fst (body s)") (auto split: option.splits sum.splits prod.splits)
qed

lemma retry_done:
  "0 < n \<Longrightarrow> body s = (Inr (Some a), t) \<Longrightarrow> retry n body s = (Some (Inr a), t)"
  by (cases n) auto

lemma retry_error:
  "0 < n \<Longrightarrow> body s = (Inl e, t) \<Longrightarrow> retry n body s = (Some (Inl e), t)"
  by (cases n) auto

text \<open>An invariant of the body is an invariant of the loop.\<close>

lemma retry_invariant:
  assumes "\<And>s. P s \<Longrightarrow> P (snd (body s))" and "P s"
  shows "P (snd (retry n body s))"
  using assms(2)
proof (induction n arbitrary: s)
  case 0
  then show ?case by simp
next
  case (Suc n)
  from assms(1)[OF Suc.prems] have step: "P (snd (body s))" .
  then show ?case
    using Suc.IH by (auto split: prod.splits sum.splits option.splits)
qed


section \<open>Words\<close>

lemma u64_plus_one_nonzero: "(x :: u64) \<noteq> - 1 \<Longrightarrow> x + 1 \<noteq> 0"
  by (metis add_eq_0_iff2)

lemma unat_u64_plus_one: "(x :: u64) \<noteq> - 1 \<Longrightarrow> unat (x + 1) = Suc (unat x)"
  by (metis u64_plus_one_nonzero unatSuc add.commute)

lemma u64_less_plus_one: "(x :: u64) \<noteq> - 1 \<Longrightarrow> x < x + 1"
  by (simp add: word_less_nat_alt unat_u64_plus_one)

lemma u64_le_plus_one: "(x :: u64) \<noteq> - 1 \<Longrightarrow> y \<le> x \<Longrightarrow> y < x + 1"
  using u64_less_plus_one by (metis order.strict_trans1)

lemma u64_not_max_iff: "(x :: u64) \<noteq> - 1 \<longleftrightarrow> unat x < 2 ^ 64 - 1"
proof -
  have m: "unat (- 1 :: u64) = 2 ^ 64 - 1"
    by (simp add: unsigned_minus_1_eq_mask mask_eq_exp_minus_1)
  have "unat x \<le> unat (- 1 :: u64)"
    by (simp add: word_le_nat_alt [symmetric])
  then show ?thesis
    using m by (metis nat_less_le word_unat_eq_iff)
qed

end
