(* ===== verification/Meta_Types.thy ===== *)
theory Meta_Types
  imports Meta_Prelude
begin

text \<open>
  The data of the meta service (\<open>common/meta/types\<close>): values with a sequence number,
  conditional writes (\<open>MatchSeq\<close>, \<open>Operation\<close>), changes, transactions, the commands a raft
  log carries and the states they produce, and the error values. The records and datatypes
  follow the Rust structs and enums field by field; the serialized text of an error is not
  kept apart from the names and the context it is built from. A panic of the source is a
  value of the error type too, \<open>Panic\<close>, so that no call silently succeeds where the code stops.
\<close>

section \<open>Values with a sequence number\<close>

record KVMeta =
  expire_at :: "u64 option"

record 'a SeqV =
  sv_seq :: u64
  sv_meta :: "KVMeta option"
  sv_data :: 'a

record PbSeqV =
  pb_seq :: u64
  pb_data :: bytes

definition SeqV_new :: "u64 \<Rightarrow> 'a \<Rightarrow> 'a SeqV" where
  "SeqV_new s d = \<lparr>sv_seq = s, sv_meta = None, sv_data = d\<rparr>"

definition with_meta :: "u64 \<Rightarrow> KVMeta option \<Rightarrow> 'a \<Rightarrow> 'a SeqV" where
  "with_meta s m d = \<lparr>sv_seq = s, sv_meta = m, sv_data = d\<rparr>"

text \<open>\<open>Default\<close> of \<open>SeqV<Vec<u8>>\<close>.\<close>

definition SeqV_default :: "bytes SeqV" where
  "SeqV_default = \<lparr>sv_seq = 0, sv_meta = None, sv_data = []\<rparr>"

text \<open>A record with no expiration expires at \<open>u64::MAX\<close>.\<close>

definition get_expire_at :: "'a SeqV \<Rightarrow> u64" where
  "get_expire_at v = (case sv_meta v of
      None \<Rightarrow> - 1
    | Some m \<Rightarrow> (case expire_at m of None \<Rightarrow> - 1 | Some exp_at \<Rightarrow> exp_at))"

definition set_seq :: "u64 \<Rightarrow> 'a SeqV \<Rightarrow> 'a SeqV" where
  "set_seq s v = v\<lparr>sv_seq := s\<rparr>"

definition set_meta :: "KVMeta option \<Rightarrow> 'a SeqV \<Rightarrow> 'a SeqV" where
  "set_meta m v = v\<lparr>sv_meta := m\<rparr>"

definition set_value :: "'a \<Rightarrow> 'a SeqV \<Rightarrow> 'a SeqV" where
  "set_value d v = v\<lparr>sv_data := d\<rparr>"

definition PbSeqV_from :: "bytes SeqV \<Rightarrow> PbSeqV" where
  "PbSeqV_from v = \<lparr>pb_seq = sv_seq v, pb_data = sv_data v\<rparr>"

text \<open>\<open>into_seqv\<close> converts the data with a fallible conversion and keeps the rest.\<close>

definition into_seqv :: "('v \<Rightarrow> 'e + 't) \<Rightarrow> 'v SeqV \<Rightarrow> 'e + 't SeqV" where
  "into_seqv try_into v =
     try_res (try_into (sv_data v))
       (\<lambda>d. Inr \<lparr>sv_seq = sv_seq v, sv_meta = sv_meta v, sv_data = d\<rparr>)"


section \<open>Conditional writes\<close>

datatype MatchSeq = Any | Exact u64 | GE u64

datatype ConflictSeq = NotMatch MatchSeq u64

definition MatchSeq_from :: "u64 option \<Rightarrow> MatchSeq" where
  "MatchSeq_from so = (case so of None \<Rightarrow> Any | Some s \<Rightarrow> Exact s)"

fun match_seq :: "MatchSeq \<Rightarrow> u64 \<Rightarrow> ConflictSeq + unit" where
  "match_seq Any s = Inr ()"
| "match_seq (Exact n) s = (if s = n then Inr () else Inl (NotMatch (Exact n) s))"
| "match_seq (GE n) s = (if s \<ge> n then Inr () else Inl (NotMatch (GE n) s))"

text \<open>An absent record has sequence number 0.\<close>

definition match_seq_opt :: "MatchSeq \<Rightarrow> 'a SeqV option \<Rightarrow> ConflictSeq + unit" where
  "match_seq_opt ms sv = match_seq ms (case sv of None \<Rightarrow> 0 | Some v \<Rightarrow> sv_seq v)"

definition match_seq_val :: "MatchSeq \<Rightarrow> 'a SeqV \<Rightarrow> ConflictSeq + unit" where
  "match_seq_val ms v = match_seq ms (sv_seq v)"

definition is_ok :: "('e + 'a) \<Rightarrow> bool" where
  "is_ok r = (case r of Inl _ \<Rightarrow> False | Inr _ \<Rightarrow> True)"

lemma is_ok_simps [simp]: "\<not> is_ok (Inl e)" "is_ok (Inr a)"
  by (simp_all add: is_ok_def)

datatype 'a Operation = Update 'a | Delete | AsIs

definition Operation_from :: "'a option \<Rightarrow> 'a Operation" where
  "Operation_from v = (case v of None \<Rightarrow> Delete | Some x \<Rightarrow> Update x)"

record UpsertKVAction =
  up_key :: string
  up_seq :: MatchSeq
  up_value :: "bytes Operation"
  up_value_meta :: "KVMeta option"

definition UpsertKVAction_new ::
  "string \<Rightarrow> MatchSeq \<Rightarrow> bytes Operation \<Rightarrow> KVMeta option \<Rightarrow> UpsertKVAction" where
  "UpsertKVAction_new k s v m =
     \<lparr>up_key = k, up_seq = s, up_value = v, up_value_meta = m\<rparr>"


section \<open>Changes\<close>

record 'a Change =
  ch_ident :: "u64 option"
  ch_prev :: "'a SeqV option"
  ch_result :: "'a SeqV option"

datatype 'a OkOrExist = AddOk "'a SeqV" | AddExists "'a SeqV"

record 'a AddResult =
  ar_id :: "u64 option"
  ar_res :: "'a OkOrExist"

datatype MetaResultError =
    InvalidAddResult string string
  | InvalidType string string

definition Change_new :: "'a SeqV option \<Rightarrow> 'a SeqV option \<Rightarrow> 'a Change" where
  "Change_new p r = \<lparr>ch_ident = None, ch_prev = p, ch_result = r\<rparr>"

definition Change_changed :: "'a Change \<Rightarrow> bool" where
  "Change_changed c \<longleftrightarrow> ch_prev c \<noteq> ch_result c"

definition into_add_result :: "'a Change \<Rightarrow> MetaResultError + 'a AddResult" where
  "into_add_result c =
     (case ch_prev c of
        Some p \<Rightarrow>
          (if ch_result c \<noteq> None then Inr \<lparr>ar_id = ch_ident c, ar_res = AddExists p\<rparr>
           else Inl (InvalidAddResult ''Some'' ''None''))
      | None \<Rightarrow>
          (case ch_result c of
             Some r \<Rightarrow> Inr \<lparr>ar_id = ch_ident c, ar_res = AddOk r\<rparr>
           | None \<Rightarrow> Inl (InvalidAddResult ''None'' ''None'')))"


section \<open>Transactions\<close>

datatype ConditionResult = CEq | CGt | CGe | CLt | CLe | CNe

text \<open>The numbers of the protobuf enumeration; any other number is no condition.\<close>

definition ConditionResult_from_i32 :: "int \<Rightarrow> ConditionResult option" where
  "ConditionResult_from_i32 n =
     (if n = 0 then Some CEq else if n = 1 then Some CGt else if n = 2 then Some CGe
      else if n = 3 then Some CLt else if n = 4 then Some CLe else if n = 5 then Some CNe
      else None)"

fun ConditionResult_as_i32 :: "ConditionResult \<Rightarrow> int" where
  "ConditionResult_as_i32 CEq = 0"
| "ConditionResult_as_i32 CGt = 1"
| "ConditionResult_as_i32 CGe = 2"
| "ConditionResult_as_i32 CLt = 3"
| "ConditionResult_as_i32 CLe = 4"
| "ConditionResult_as_i32 CNe = 5"

lemma ConditionResult_i32 [simp]:
  "ConditionResult_from_i32 (ConditionResult_as_i32 c) = Some c"
  by (cases c) (simp_all add: ConditionResult_from_i32_def)

datatype Target = Target_Value bytes | Target_Seq u64

record TxnCondition =
  tc_key :: string
  tc_target :: "Target option"
  tc_expected :: int

record TxnPutRequest =
  put_key :: string
  put_value :: bytes
  put_prev_value :: bool

record TxnDeleteRequest =
  del_key :: string
  del_prev_value :: bool

datatype TxnOp_Request =
    Req_Get string
  | Req_Put TxnPutRequest
  | Req_Delete TxnDeleteRequest

text \<open>A \<open>TxnOp\<close> holds an optional request; the protobuf decoder leaves it out if it is unknown.\<close>

type_synonym TxnOp = "TxnOp_Request option"

record TxnRequest =
  txn_condition :: "TxnCondition list"
  txn_if_then :: "TxnOp list"
  txn_else_then :: "TxnOp list"

record TxnGetResponse =
  getr_key :: string
  getr_value :: "PbSeqV option"

record TxnPutResponse =
  putr_key :: string
  putr_prev_value :: "PbSeqV option"

record TxnDeleteResponse =
  delr_key :: string
  delr_success :: bool
  delr_prev_value :: "PbSeqV option"

datatype TxnOpResponse =
    Resp_Get TxnGetResponse
  | Resp_Put TxnPutResponse
  | Resp_Delete TxnDeleteResponse

record TxnReply =
  tr_success :: bool
  tr_responses :: "TxnOpResponse list"
  tr_error :: string


section \<open>Errors\<close>

datatype AppError =
    TableVersionMismatched u64 MatchSeq u64 string
  | TableAlreadyExists string string
  | DatabaseAlreadyExists string string
  | UnknownDatabase string string
  | UnknownDatabaseId u64 string
  | UnknownTable string string
  | UnknownTableId u64 string
  | ShareAlreadyExists string string
  | UnknownShare string string
  | UnknownShareId u64 string

datatype MetaStorageError =
    BytesError string
  | SerdeError string
  | SledError string
  | Damaged string
  | SnapshotError string
  | TransactionConflict
  | StorageAppError AppError
  | StoragePanic string

datatype MetaError =
    MetaNetworkError string
  | MetaRaftError string
  | MetaStorageErr MetaStorageError
  | MetaResultErr MetaResultError
  | MetaStoreAlreadyExists u64
  | MetaStoreNotFound
  | EncodeError string
  | AppErr AppError
  | Panic string

text \<open>
  \<open>From<MetaStorageError> for MetaError\<close>: an application error keeps its class. A panic is not
  an error value of the source, and stays a panic.
\<close>

fun MetaError_from_storage :: "MetaStorageError \<Rightarrow> MetaError" where
  "MetaError_from_storage (StorageAppError e) = AppErr e"
| "MetaError_from_storage (StoragePanic m) = Panic m"
| "MetaError_from_storage e = MetaStorageErr e"

text \<open>
  The reply of a transaction as a result. A non-empty \<open>error\<close> field is a serialized error,
  which \<open>serde_json\<close> decodes (\<open>de_err\<close>); text it cannot decode panics.
\<close>

definition TxnReply_into ::
  "(string \<Rightarrow> MetaError option) \<Rightarrow> TxnReply \<Rightarrow> MetaError + (bool \<times> TxnOpResponse list)" where
  "TxnReply_into de_err msg =
     (if tr_error msg = [] then Inr (tr_success msg, tr_responses msg)
      else case de_err (tr_error msg) of
             Some e \<Rightarrow> Inl e
           | None \<Rightarrow> Inl (Panic ''fail to deserialize''))"


section \<open>Commands, log entries and applied states\<close>

record Endpoint =
  ep_addr :: string
  ep_port :: "32 word"

record Node =
  node_name :: string
  node_endpoint :: Endpoint

datatype Cmd =
    IncrSeq string
  | AddNode u64 Node
  | RemoveNode u64
  | AddMetaSrvAddr string string
  | RemoveMetaSrvAddr string
  | UpsertKV string MatchSeq "bytes Operation" "KVMeta option"
  | Transaction TxnRequest

record RaftTxId =
  client :: string
  serial :: u64

record LogEntry =
  txid :: "RaftTxId option"
  cmd :: Cmd

record LogId =
  li_term :: u64
  li_index :: u64

text \<open>An entry of the raft log; \<open>'mem\<close> stands for openraft's membership configuration.\<close>

datatype 'mem EntryPayload = Blank | Normal LogEntry | Membership 'mem

record 'mem Entry =
  log_id :: LogId
  payload :: "'mem EntryPayload"

record 'mem EffectiveMembership =
  em_log_id :: LogId
  em_membership :: 'mem

datatype AppliedState =
    AS_Seq u64
  | AS_Node "Node option" "Node option"
  | AS_MetaSrvAddr "string option" "string option"
  | AS_KV "bytes Change"
  | AS_AppError AppError
  | AS_TxnReply TxnReply
  | AS_None

fun AppliedState_changed :: "AppliedState \<Rightarrow> bool" where
  "AppliedState_changed (AS_Seq _) = True"
| "AppliedState_changed (AS_Node p r) = (p \<noteq> r)"
| "AppliedState_changed (AS_MetaSrvAddr p r) = (p \<noteq> r)"
| "AppliedState_changed (AS_KV ch) = Change_changed ch"
| "AppliedState_changed AS_None = False"
| "AppliedState_changed (AS_AppError _) = False"
| "AppliedState_changed (AS_TxnReply txn) = tr_success txn"

fun prev_is_none :: "AppliedState \<Rightarrow> bool" where
  "prev_is_none (AS_Seq _) = False"
| "prev_is_none (AS_Node p _) = (p = None)"
| "prev_is_none (AS_MetaSrvAddr p _) = (p = None)"
| "prev_is_none (AS_KV ch) = (ch_prev ch = None)"
| "prev_is_none AS_None = True"
| "prev_is_none (AS_AppError _) = True"
| "prev_is_none (AS_TxnReply _) = True"

fun result_is_none :: "AppliedState \<Rightarrow> bool" where
  "result_is_none (AS_Seq _) = False"
| "result_is_none (AS_Node _ r) = (r = None)"
| "result_is_none (AS_MetaSrvAddr _ r) = (r = None)"
| "result_is_none (AS_KV ch) = (ch_result ch = None)"
| "result_is_none AS_None = True"
| "result_is_none (AS_AppError _) = True"
| "result_is_none (AS_TxnReply txn) = (\<not> tr_success txn)"


section \<open>What a conditional write checks\<close>

lemma match_seq_ok:
  "is_ok (match_seq ms s) \<longleftrightarrow> (case ms of Any \<Rightarrow> True | Exact n \<Rightarrow> s = n | GE n \<Rightarrow> n \<le> s)"
  by (cases ms) auto

text \<open>
  The readings the comments give to the three forms, on records whose sequence numbers are
  positive: \<open>Exact 0\<close> is add-if-absent, \<open>GE 1\<close> is update-if-present.
\<close>

lemma match_exact_zero:
  "(\<And>v. sv = Some v \<Longrightarrow> 0 < sv_seq v) \<Longrightarrow> is_ok (match_seq_opt (Exact 0) sv) \<longleftrightarrow> sv = None"
  by (cases sv) (auto simp: match_seq_opt_def)

lemma match_ge_one:
  "(\<And>v. sv = Some v \<Longrightarrow> 0 < sv_seq v) \<Longrightarrow> is_ok (match_seq_opt (GE 1) sv) \<longleftrightarrow> sv \<noteq> None"
  by (cases sv) (auto simp: match_seq_opt_def word_le_nat_alt word_less_nat_alt)

lemma match_seq_opt_any [simp]: "match_seq_opt Any sv = Inr ()"
  by (simp add: match_seq_opt_def)

lemma into_add_result_cases:
  "into_add_result (Change_new None (Some r)) = Inr \<lparr>ar_id = None, ar_res = AddOk r\<rparr>"
  "into_add_result (Change_new (Some p) (Some r)) = Inr \<lparr>ar_id = None, ar_res = AddExists p\<rparr>"
  by (simp_all add: into_add_result_def Change_new_def)

lemma PbSeqV_from_simps [simp]:
  "pb_seq (PbSeqV_from v) = sv_seq v" "pb_data (PbSeqV_from v) = sv_data v"
  by (simp_all add: PbSeqV_from_def)

end
