(* ===== verification/Key_Space.thy ===== *)
theory Key_Space
  imports Meta_Prelude
begin

text \<open>
  The abstract view of one key space of a sled tree: an ordered map from typed keys to typed
  values. This is what the trait \<open>Store<KV>\<close> (\<open>sled-store/src/store.rs\<close>) and the read
  operations of \<open>AsKeySpace\<close> promise to the state machine, the log and the raft state, which
  are modelled over it. Theory \<open>Sled_Store\<close> models the byte-level implementation and proves
  that it implements this view.
\<close>

type_synonym ('k, 'v) kspace = "('k \<times> 'v) list"

section \<open>Operations\<close>

definition ks_empty :: "('k, 'v) kspace" where
  "ks_empty = []"

definition ks_get :: "('k, 'v) kspace \<Rightarrow> 'k \<Rightarrow> 'v option" where
  "ks_get m k = map_of m k"

fun ks_put :: "'k::linorder \<Rightarrow> 'v \<Rightarrow> ('k, 'v) kspace \<Rightarrow> ('k, 'v) kspace" where
  "ks_put k v [] = [(k, v)]"
| "ks_put k v ((k', v') # m) =
     (if k < k' then (k, v) # (k', v') # m
      else if k = k' then (k, v) # m
      else (k', v') # ks_put k v m)"

definition ks_del :: "'k \<Rightarrow> ('k, 'v) kspace \<Rightarrow> ('k, 'v) kspace" where
  "ks_del k m = filter (\<lambda>e. fst e \<noteq> k) m"

definition ks_upd ::
  "('v option \<Rightarrow> 'v option) \<Rightarrow> 'k::linorder \<Rightarrow> ('k, 'v) kspace \<Rightarrow> 'v option \<times> ('k, 'v) kspace" where
  "ks_upd f k m = (case f (ks_get m k) of
      Some v \<Rightarrow> (Some v, ks_put k v m)
    | None \<Rightarrow> (None, ks_del k m))"

text \<open>\<open>std::ops::Bound\<close>, and the entries between two bounds, in ascending order.\<close>

datatype 'k bound = Included 'k | Excluded 'k | Unbounded

fun above :: "'k::linorder bound \<Rightarrow> 'k \<Rightarrow> bool" where
  "above (Included lo) k = (lo \<le> k)"
| "above (Excluded lo) k = (lo < k)"
| "above Unbounded k = True"

fun below :: "'k::linorder bound \<Rightarrow> 'k \<Rightarrow> bool" where
  "below (Included hi) k = (k \<le> hi)"
| "below (Excluded hi) k = (k < hi)"
| "below Unbounded k = True"

definition in_range :: "'k::linorder bound \<times> 'k bound \<Rightarrow> 'k \<Rightarrow> bool" where
  "in_range r k \<longleftrightarrow> above (fst r) k \<and> below (snd r) k"

definition ks_range :: "'k::linorder bound \<times> 'k bound \<Rightarrow> ('k, 'v) kspace \<Rightarrow> ('k \<times> 'v) list" where
  "ks_range r m = filter (\<lambda>e. in_range r (fst e)) m"

definition ks_range_remove :: "'k::linorder bound \<times> 'k bound \<Rightarrow> ('k, 'v) kspace \<Rightarrow> ('k, 'v) kspace" where
  "ks_range_remove r m = filter (\<lambda>e. \<not> in_range r (fst e)) m"

definition ks_scan_prefix :: "string \<Rightarrow> (string, 'v) kspace \<Rightarrow> (string \<times> 'v) list" where
  "ks_scan_prefix p m = filter (\<lambda>e. prefix p (fst e)) m"

definition ks_last :: "('k, 'v) kspace \<Rightarrow> ('k \<times> 'v) option" where
  "ks_last m = (if m = [] then None else Some (last m))"

fun ks_append :: "('k::linorder \<times> 'v) list \<Rightarrow> ('k, 'v) kspace \<Rightarrow> ('k, 'v) kspace" where
  "ks_append [] m = m"
| "ks_append ((k, v) # kvs) m = ks_append kvs (ks_put k v m)"


section \<open>The invariant: keys in strictly ascending order\<close>

definition ks_wf :: "('k::linorder, 'v) kspace \<Rightarrow> bool" where
  "ks_wf m \<longleftrightarrow> sorted_wrt (<) (map fst m)"

lemma ks_wf_Nil [simp]: "ks_wf []"
  by (simp add: ks_wf_def)

lemma ks_wf_Cons: "ks_wf ((k, v) # m) \<longleftrightarrow> ks_wf m \<and> (\<forall>k' \<in> fst ` set m. k < k')"
  by (auto simp: ks_wf_def)

lemma ks_wf_filter [intro]: "ks_wf m \<Longrightarrow> ks_wf (filter P m)"
  by (induction m) (auto simp: ks_wf_Cons)

lemma ks_wf_distinct: "ks_wf m \<Longrightarrow> distinct (map fst m)"
  by (simp add: ks_wf_def strict_sorted_iff)

lemma fst_set_ks_put: "fst ` set (ks_put k v m) = insert k (fst ` set m)"
  by (induction k v m rule: ks_put.induct) (simp_all add: insert_commute)

lemma set_ks_put: "set (ks_put k v m) \<subseteq> insert (k, v) (set m)"
  by (induction k v m rule: ks_put.induct) auto

lemma ks_wf_put [intro]: "ks_wf m \<Longrightarrow> ks_wf (ks_put k v m)"
proof (induction m)
  case Nil
  then show ?case by (simp add: ks_wf_def)
next
  case (Cons e m)
  obtain k' v' where e: "e = (k', v')" by (cases e)
  show ?case
    using Cons unfolding e by (auto simp: ks_wf_Cons fst_set_ks_put)
qed

lemma ks_wf_del [intro]: "ks_wf m \<Longrightarrow> ks_wf (ks_del k m)"
  by (auto simp: ks_del_def)

lemma ks_wf_upd [intro]: "ks_wf m \<Longrightarrow> ks_wf (snd (ks_upd f k m))"
  by (auto simp: ks_upd_def split: option.splits)

lemma ks_wf_range_remove [intro]: "ks_wf m \<Longrightarrow> ks_wf (ks_range_remove r m)"
  by (auto simp: ks_range_remove_def)

lemma ks_wf_append [intro]: "ks_wf m \<Longrightarrow> ks_wf (ks_append kvs m)"
  by (induction kvs m rule: ks_append.induct) auto


section \<open>What a lookup returns after each operation\<close>

lemma ks_get_empty [simp, store_simps]: "ks_get [] k = None"
  by (simp add: ks_get_def)

lemma ks_get_put [simp, store_simps]:
  "ks_get (ks_put k v m) k' = (if k' = k then Some v else ks_get m k')"
  by (induction m) (auto simp: ks_get_def)

lemma ks_get_del [simp, store_simps]:
  "ks_get (ks_del k m) k' = (if k' = k then None else ks_get m k')"
  by (induction m) (auto simp: ks_get_def ks_del_def)

lemma ks_get_upd [store_simps]:
  "ks_get (snd (ks_upd f k m)) k' = (if k' = k then f (ks_get m k) else ks_get m k')"
  by (auto simp: ks_upd_def split: option.splits)

lemma fst_ks_upd [simp, store_simps]: "fst (ks_upd f k m) = f (ks_get m k)"
  by (simp add: ks_upd_def split: option.splits)

lemma ks_get_filter_key:
  "ks_get (filter (\<lambda>e. P (fst e)) m) k = (if P k then ks_get m k else None)"
  by (induction m) (auto simp: ks_get_def)

lemma ks_get_range_remove [store_simps]:
  "ks_get (ks_range_remove r m) k = (if in_range r k then None else ks_get m k)"
  by (simp add: ks_range_remove_def ks_get_filter_key [where P = "\<lambda>k. \<not> in_range r k"])

lemma ks_get_mem: "ks_get m k = Some v \<Longrightarrow> (k, v) \<in> set m"
  by (simp add: ks_get_def map_of_SomeD)

lemma ks_mem_get: "ks_wf m \<Longrightarrow> (k, v) \<in> set m \<longleftrightarrow> ks_get m k = Some v"
  by (metis ks_get_def ks_wf_distinct map_of_eq_Some_iff)

lemma ks_get_append:
  "ks_get (ks_append kvs m) k = (case map_of (rev kvs) k of Some v \<Rightarrow> Some v | None \<Rightarrow> ks_get m k)"
  by (induction kvs m rule: ks_append.induct)
     (auto simp: map_add_def split: option.splits)

text \<open>Two well-formed stores that agree on every lookup are equal.\<close>

lemma ks_get_Cons: "ks_get ((k, v) # m) k' = (if k' = k then Some v else ks_get m k')"
  by (simp add: ks_get_def)

lemma ks_get_None_iff: "ks_get m k = None \<longleftrightarrow> k \<notin> fst ` set m"
  by (simp add: ks_get_def map_of_eq_None_iff)

lemma ks_wf_get_less: "ks_wf ((k, v) # m) \<Longrightarrow> k' \<le> k \<Longrightarrow> ks_get m k' = None"
  by (auto simp: ks_wf_Cons ks_get_None_iff)

lemma ks_eq_iff_get:
  assumes "ks_wf m" and "ks_wf m'" and "\<And>k. ks_get m k = ks_get m' k"
  shows "m = m'"
  using assms
proof (induction m arbitrary: m')
  case Nil
  show ?case
  proof (cases m')
    case (Cons e' m'')
    then show ?thesis
      using Nil.prems(3)[of "fst e'"] by (cases e') (simp add: ks_get_Cons)
  qed simp
next
  case (Cons e m)
  obtain k v where e: "e = (k, v)" by (cases e)
  have "m' \<noteq> []"
    using Cons.prems(3)[of k] e by (auto simp: ks_get_Cons)
  then obtain k' v' m'' where m': "m' = (k', v') # m''"
    by (cases m') auto
  have k: "k = k'"
  proof (rule ccontr)
    assume "k \<noteq> k'"
    then consider "k < k'" | "k' < k" by fastforce
    then show False
    proof cases
      case 1
      then show ?thesis
        using Cons.prems(3)[of k] ks_wf_get_less[OF Cons.prems(2)[unfolded m'] less_imp_le[OF 1]]
        by (auto simp: e m' ks_get_Cons split: if_splits)
    next
      case 2
      then show ?thesis
        using Cons.prems(3)[of k'] ks_wf_get_less[OF Cons.prems(1)[unfolded e] less_imp_le[OF 2]]
        by (auto simp: e m' ks_get_Cons split: if_splits)
    qed
  qed
  have v: "v = v'"
    using Cons.prems(3)[of k] k by (simp add: e m' ks_get_Cons)
  have "m = m''"
  proof (rule Cons.IH)
    show "ks_wf m" "ks_wf m''"
      using Cons.prems(1,2) by (simp_all add: e m' ks_wf_Cons)
    show "ks_get m x = ks_get m'' x" for x
      using Cons.prems(1,2) Cons.prems(3)[of x] ks_wf_get_less[of k v m k]
        ks_wf_get_less[of k' v' m'' k'] k
      by (cases "x = k") (simp_all add: e m' ks_get_Cons)
  qed
  with e m' k v show ?case by simp
qed

text \<open>
  The scans return exactly the entries they select, in ascending order of their keys.
\<close>

lemma ks_range_mem: "ks_wf m \<Longrightarrow> (k, v) \<in> set (ks_range r m) \<longleftrightarrow> in_range r k \<and> ks_get m k = Some v"
  by (auto simp: ks_range_def ks_mem_get)

lemma ks_scan_prefix_mem:
  "ks_wf m \<Longrightarrow> (k, v) \<in> set (ks_scan_prefix p m) \<longleftrightarrow> prefix p k \<and> ks_get m k = Some v"
  by (auto simp: ks_scan_prefix_def ks_mem_get)

lemma ks_wf_scan_prefix: "ks_wf m \<Longrightarrow> ks_wf (ks_scan_prefix p m)"
  by (auto simp: ks_scan_prefix_def)

lemma ks_last_max:
  assumes "ks_wf m" and "ks_last m = Some (k, v)" and "ks_get m k' = Some v'"
  shows "k' \<le> k"
proof -
  have ne: "m \<noteq> []" and l: "last m = (k, v)"
    using assms(2) by (auto simp: ks_last_def split: if_splits)
  then obtain m0 where m: "m = m0 @ [(k, v)]"
    by (metis append_butlast_last_id)
  have "(k', v') \<in> set m"
    using assms by (simp add: ks_mem_get)
  then show ?thesis
    using assms(1) unfolding m by (auto simp: ks_wf_def sorted_wrt_append intro: less_imp_le)
qed

end
