(* ===== verification/State_Machine.thy ===== *)
theory State_Machine
  imports Meta_Types Key_Space
begin

text \<open>
  The replicated state machine of the meta service (\<open>raft-store/src/state_machine/sm.rs\<close> and
  \<open>sm_kv_api_impl.rs\<close>). Its sled tree is seen as one ordered map per key space (theory
  \<open>Key_Space\<close>). Every read of the wall clock in \<open>unexpired\<close> is the parameter \<open>now\<close>, in
  seconds; one command reads one clock value. The subscriber is the list of the events it has
  been sent, oldest first. Operations whose only errors are errors of the sled store return
  their value directly; those errors are modelled where they arise, in \<open>Sled_Store\<close>.
\<close>

section \<open>State\<close>

datatype StateMachineMetaKey = LastApplied | Initialized | LastMembership

datatype 'mem StateMachineMetaValue =
    MV_LogId LogId
  | MV_Bool bool
  | MV_Membership "'mem EffectiveMembership"

text \<open>The order of the keys is the order of their serialized form, one byte each.\<close>

fun sm_meta_key_ser :: "StateMachineMetaKey \<Rightarrow> nat" where
  "sm_meta_key_ser LastApplied = 1"
| "sm_meta_key_ser Initialized = 2"
| "sm_meta_key_ser LastMembership = 3"

instantiation StateMachineMetaKey :: linorder
begin

definition less_StateMachineMetaKey :: "StateMachineMetaKey \<Rightarrow> StateMachineMetaKey \<Rightarrow> bool" where
  "less_StateMachineMetaKey a b \<longleftrightarrow> sm_meta_key_ser a < sm_meta_key_ser b"

definition less_eq_StateMachineMetaKey :: "StateMachineMetaKey \<Rightarrow> StateMachineMetaKey \<Rightarrow> bool" where
  "less_eq_StateMachineMetaKey a b \<longleftrightarrow> sm_meta_key_ser a \<le> sm_meta_key_ser b"

instance
proof
  fix x y :: StateMachineMetaKey
  show "x \<le> y \<Longrightarrow> y \<le> x \<Longrightarrow> x = y"
    by (cases x; cases y) (simp_all add: less_eq_StateMachineMetaKey_def)
qed (auto simp: less_StateMachineMetaKey_def less_eq_StateMachineMetaKey_def)

end

record ClientLastRespValue =
  req_serial_num :: u64
  clr_res :: AppliedState

type_synonym kv_event = "string \<times> bytes SeqV option \<times> bytes SeqV option"

record 'mem state_machine =
  sm_meta :: "(StateMachineMetaKey, 'mem StateMachineMetaValue) kspace"
  nodes :: "(u64, Node) kspace"
  metasrv_addrs :: "(string, string) kspace"
  kvs :: "(string, bytes SeqV) kspace"
  sequences :: "(string, u64) kspace"
  client_last_resps :: "(string, ClientLastRespValue) kspace"
  subscriber :: "kv_event list option"

definition sm_empty :: "'mem state_machine" where
  "sm_empty = \<lparr>sm_meta = [], nodes = [], metasrv_addrs = [], kvs = [], sequences = [],
     client_last_resps = [], subscriber = None\<rparr>"

text \<open>\<open>StateMachine::open\<close> on a tree: mark the tree initialized unless it is.\<close>

definition sm_open :: "'mem state_machine \<Rightarrow> 'mem state_machine" where
  "sm_open tree =
     (let sm = tree\<lparr>subscriber := None\<rparr>
      in case ks_get (sm_meta sm) Initialized of
           Some _ \<Rightarrow> sm
         | None \<Rightarrow> sm\<lparr>sm_meta := ks_put Initialized (MV_Bool True) (sm_meta sm)\<rparr>)"

definition set_subscriber :: "'mem state_machine \<Rightarrow> 'mem state_machine" where
  "set_subscriber sm = sm\<lparr>subscriber := Some []\<rparr>"

text \<open>\<open>KS::NAME\<close> of the key space \<open>GenericKV\<close>, the key of its sequence number generator.\<close>

definition GenericKV_NAME :: string where
  "GenericKV_NAME = ''generic-kv''"


section \<open>Reading\<close>

definition unexpired :: "u64 \<Rightarrow> 'a SeqV \<Rightarrow> 'a SeqV option" where
  "unexpired now v = (if get_expire_at v < now then None else Some v)"

definition unexpired_opt :: "u64 \<Rightarrow> 'a SeqV option \<Rightarrow> 'a SeqV option" where
  "unexpired_opt now v = Option.bind v (unexpired now)"

definition get_membership :: "'mem state_machine \<Rightarrow> MetaStorageError + 'mem EffectiveMembership option" where
  "get_membership sm = (case ks_get (sm_meta sm) LastMembership of
      None \<Rightarrow> Inr None
    | Some (MV_Membership m) \<Rightarrow> Inr (Some m)
    | Some _ \<Rightarrow> Inl (StoragePanic ''Membership''))"

definition get_last_applied :: "'mem state_machine \<Rightarrow> MetaStorageError + LogId option" where
  "get_last_applied sm = (case ks_get (sm_meta sm) LastApplied of
      None \<Rightarrow> Inr None
    | Some (MV_LogId l) \<Rightarrow> Inr (Some l)
    | Some _ \<Rightarrow> Inl (StoragePanic ''LogId''))"

definition txn_get_client_last_resp :: "string \<Rightarrow> 'mem state_machine \<Rightarrow> u64 \<times> AppliedState" where
  "txn_get_client_last_resp k sm = (case ks_get (client_last_resps sm) k of
      Some resp \<Rightarrow> (req_serial_num resp, clr_res resp)
    | None \<Rightarrow> (0, AS_None))"

definition get_node :: "'mem state_machine \<Rightarrow> u64 \<Rightarrow> Node option" where
  "get_node sm node_id = ks_get (nodes sm) node_id"

definition get_nodes :: "'mem state_machine \<Rightarrow> Node list" where
  "get_nodes sm = map snd (ks_range (Unbounded, Unbounded) (nodes sm))"

definition get_metasrv_addrs :: "'mem state_machine \<Rightarrow> string list" where
  "get_metasrv_addrs sm = map snd (ks_range (Unbounded, Unbounded) (metasrv_addrs sm))"


section \<open>Writing\<close>

text \<open>The generator of a sequence: the next number, with the wrap-around of \<open>u64\<close>.\<close>

definition txn_incr_seq :: "string \<Rightarrow> 'mem state_machine \<Rightarrow> u64 \<times> 'mem state_machine" where
  "txn_incr_seq k sm =
     (let curr = (case ks_get (sequences sm) k of None \<Rightarrow> 0 | Some n \<Rightarrow> n) + 1
      in (curr, sm\<lparr>sequences := ks_put k curr (sequences sm)\<rparr>))"

definition txn_sub_tree_do_update ::
  "string \<Rightarrow> bytes SeqV option \<Rightarrow> KVMeta option \<Rightarrow> bytes Operation \<Rightarrow> 'mem state_machine
     \<Rightarrow> bytes SeqV option \<times> 'mem state_machine" where
  "txn_sub_tree_do_update k prev value_meta value_op sm =
     (let store = (\<lambda>v.
        (let (n, sm1) = txn_incr_seq GenericKV_NAME sm;
             v' = v\<lparr>sv_seq := n\<rparr>
         in (Some v', sm1\<lparr>kvs := ks_put k v' (kvs sm1)\<rparr>)))
      in case value_op of
           Update v \<Rightarrow> store (with_meta 0 value_meta v)
         | Delete \<Rightarrow> (None, sm\<lparr>kvs := ks_del k (kvs sm)\<rparr>)
         | AsIs \<Rightarrow> (case prev of
             None \<Rightarrow> (None, sm)
           | Some prev_kv_value \<Rightarrow> store (set_meta value_meta prev_kv_value)))"

definition txn_sub_tree_upsert ::
  "u64 \<Rightarrow> string \<Rightarrow> MatchSeq \<Rightarrow> bytes Operation \<Rightarrow> KVMeta option \<Rightarrow> 'mem state_machine
     \<Rightarrow> (bytes SeqV option \<times> bytes SeqV option) \<times> 'mem state_machine" where
  "txn_sub_tree_upsert now k ms value_op value_meta sm =
     (let prev = unexpired_opt now (ks_get (kvs sm) k)
      in if \<not> is_ok (match_seq_opt ms prev) then ((prev, prev), sm)
         else let (result, sm') = txn_sub_tree_do_update k prev value_meta value_op sm
              in ((prev, result), sm'))"

definition apply_incr_seq_cmd :: "string \<Rightarrow> 'mem state_machine \<Rightarrow> AppliedState \<times> 'mem state_machine" where
  "apply_incr_seq_cmd k sm = (let (r, sm') = txn_incr_seq k sm in (AS_Seq r, sm'))"

definition apply_add_node_cmd :: "u64 \<Rightarrow> Node \<Rightarrow> 'mem state_machine \<Rightarrow> AppliedState \<times> 'mem state_machine" where
  "apply_add_node_cmd node_id node sm =
     (let prev = ks_get (nodes sm) node_id
      in if prev \<noteq> None then (AS_Node prev None, sm)
         else (AS_Node prev (Some node), sm\<lparr>nodes := ks_put node_id node (nodes sm)\<rparr>))"

definition apply_remove_node_cmd :: "u64 \<Rightarrow> 'mem state_machine \<Rightarrow> AppliedState \<times> 'mem state_machine" where
  "apply_remove_node_cmd node_id sm =
     (let prev = ks_get (nodes sm) node_id;
          sm' = (if prev \<noteq> None then sm\<lparr>nodes := ks_del node_id (nodes sm)\<rparr> else sm)
      in (AS_Node prev None, sm'))"

definition apply_add_metasrv_addr_cmd ::
  "string \<Rightarrow> string \<Rightarrow> 'mem state_machine \<Rightarrow> AppliedState \<times> 'mem state_machine" where
  "apply_add_metasrv_addr_cmd metasrv_name addr sm =
     (let prev = ks_get (metasrv_addrs sm) metasrv_name
      in if prev \<noteq> None then (AS_MetaSrvAddr prev None, sm)
         else (AS_MetaSrvAddr prev (Some addr),
               sm\<lparr>metasrv_addrs := ks_put metasrv_name addr (metasrv_addrs sm)\<rparr>))"

definition apply_remove_metasrv_addr_cmd ::
  "string \<Rightarrow> 'mem state_machine \<Rightarrow> AppliedState \<times> 'mem state_machine" where
  "apply_remove_metasrv_addr_cmd metasrv_name sm =
     (let prev = ks_get (metasrv_addrs sm) metasrv_name;
          sm' = (if prev \<noteq> None
                 then sm\<lparr>metasrv_addrs := ks_del metasrv_name (metasrv_addrs sm)\<rparr> else sm)
      in (AS_MetaSrvAddr prev None, sm'))"

text \<open>A subscriber, if there is one, is told of every \<open>UpsertKV\<close>.\<close>

definition kv_changed :: "string \<Rightarrow> bytes SeqV option \<Rightarrow> bytes SeqV option \<Rightarrow> 'mem state_machine
     \<Rightarrow> 'mem state_machine" where
  "kv_changed k prev result sm = sm\<lparr>subscriber := map_option (\<lambda>evs. evs @ [(k, prev, result)]) (subscriber sm)\<rparr>"

definition apply_update_kv_cmd ::
  "u64 \<Rightarrow> string \<Rightarrow> MatchSeq \<Rightarrow> bytes Operation \<Rightarrow> KVMeta option \<Rightarrow> 'mem state_machine
     \<Rightarrow> AppliedState \<times> 'mem state_machine" where
  "apply_update_kv_cmd now k ms value_op value_meta sm =
     (let ((prev, result), sm') = txn_sub_tree_upsert now k ms value_op value_meta sm
      in (AS_KV (Change_new prev result), kv_changed k prev result sm'))"


section \<open>Transactions\<close>

definition return_value_condition_result :: "int \<Rightarrow> bytes \<Rightarrow> bytes SeqV \<Rightarrow> bool" where
  "return_value_condition_result expected target_value v =
     (case ConditionResult_from_i32 expected of
        Some CEq \<Rightarrow> sv_data v = target_value
      | Some CGt \<Rightarrow> sv_data v > target_value
      | Some CLt \<Rightarrow> sv_data v < target_value
      | Some CNe \<Rightarrow> sv_data v \<noteq> target_value
      | Some CGe \<Rightarrow> sv_data v \<ge> target_value
      | Some CLe \<Rightarrow> sv_data v \<le> target_value
      | None \<Rightarrow> False)"

definition return_seq_condition_result :: "int \<Rightarrow> u64 \<Rightarrow> bytes SeqV \<Rightarrow> bool" where
  "return_seq_condition_result expected target_seq v =
     (case ConditionResult_from_i32 expected of
        Some CEq \<Rightarrow> sv_seq v = target_seq
      | Some CGt \<Rightarrow> sv_seq v > target_seq
      | Some CLt \<Rightarrow> sv_seq v < target_seq
      | Some CNe \<Rightarrow> sv_seq v \<noteq> target_seq
      | Some CGe \<Rightarrow> sv_seq v \<ge> target_seq
      | Some CLe \<Rightarrow> sv_seq v \<le> target_seq
      | None \<Rightarrow> False)"

definition txn_execute_one_condition :: "TxnCondition \<Rightarrow> 'mem state_machine \<Rightarrow> bool" where
  "txn_execute_one_condition cond sm =
     (let sv = ks_get (kvs sm) (tc_key cond)
      in case tc_target cond of
           Some (Target_Seq target_seq) \<Rightarrow>
             return_seq_condition_result (tc_expected cond) target_seq
               (case sv of None \<Rightarrow> SeqV_default | Some v \<Rightarrow> v)
         | Some (Target_Value target_value) \<Rightarrow>
             (case sv of
                Some v \<Rightarrow> return_value_condition_result (tc_expected cond) target_value v
              | None \<Rightarrow> False)
         | None \<Rightarrow> False)"

fun txn_execute_condition :: "TxnCondition list \<Rightarrow> 'mem state_machine \<Rightarrow> bool" where
  "txn_execute_condition [] sm = True"
| "txn_execute_condition (c # cs) sm =
     (if \<not> txn_execute_one_condition c sm then False else txn_execute_condition cs sm)"

definition txn_execute_get_operation ::
  "string \<Rightarrow> TxnReply \<Rightarrow> 'mem state_machine \<Rightarrow> TxnReply \<times> 'mem state_machine" where
  "txn_execute_get_operation k resp sm =
     (let get_resp = \<lparr>getr_key = k, getr_value = map_option PbSeqV_from (ks_get (kvs sm) k)\<rparr>
      in (resp\<lparr>tr_responses := tr_responses resp @ [Resp_Get get_resp]\<rparr>, sm))"

definition txn_execute_put_operation ::
  "u64 \<Rightarrow> TxnPutRequest \<Rightarrow> TxnReply \<Rightarrow> 'mem state_machine \<Rightarrow> TxnReply \<times> 'mem state_machine" where
  "txn_execute_put_operation now put resp sm =
     (let ((prev, result), sm') = txn_sub_tree_upsert now (put_key put) Any (Update (put_value put)) None sm;
          put_resp = \<lparr>putr_key = put_key put,
            putr_prev_value = (if put_prev_value put then map_option PbSeqV_from prev else None)\<rparr>
      in (resp\<lparr>tr_responses := tr_responses resp @ [Resp_Put put_resp]\<rparr>, sm'))"

definition txn_execute_delete_operation ::
  "u64 \<Rightarrow> TxnDeleteRequest \<Rightarrow> TxnReply \<Rightarrow> 'mem state_machine \<Rightarrow> TxnReply \<times> 'mem state_machine" where
  "txn_execute_delete_operation now del resp sm =
     (let ((prev, result), sm') = txn_sub_tree_upsert now (del_key del) Any Delete None sm;
          del_resp = \<lparr>delr_key = del_key del, delr_success = (prev \<noteq> None),
            delr_prev_value = (if del_prev_value del then map_option PbSeqV_from prev else None)\<rparr>
      in (resp\<lparr>tr_responses := tr_responses resp @ [Resp_Delete del_resp]\<rparr>, sm'))"

fun txn_execute_operation ::
  "u64 \<Rightarrow> TxnOp \<Rightarrow> TxnReply \<Rightarrow> 'mem state_machine \<Rightarrow> TxnReply \<times> 'mem state_machine" where
  "txn_execute_operation now (Some (Req_Get k)) resp sm = txn_execute_get_operation k resp sm"
| "txn_execute_operation now (Some (Req_Put put)) resp sm = txn_execute_put_operation now put resp sm"
| "txn_execute_operation now (Some (Req_Delete del)) resp sm = txn_execute_delete_operation now del resp sm"
| "txn_execute_operation now None resp sm = (resp, sm)"

fun txn_execute_operations ::
  "u64 \<Rightarrow> TxnOp list \<Rightarrow> TxnReply \<Rightarrow> 'mem state_machine \<Rightarrow> TxnReply \<times> 'mem state_machine" where
  "txn_execute_operations now [] resp sm = (resp, sm)"
| "txn_execute_operations now (op # ops) resp sm =
     (let (resp', sm') = txn_execute_operation now op resp sm
      in txn_execute_operations now ops resp' sm')"

definition apply_txn_cmd :: "u64 \<Rightarrow> TxnRequest \<Rightarrow> 'mem state_machine \<Rightarrow> AppliedState \<times> 'mem state_machine" where
  "apply_txn_cmd now req sm =
     (let success = txn_execute_condition (txn_condition req) sm;
          ops = (if success then txn_if_then req else txn_else_then req);
          (resp, sm') = txn_execute_operations now ops
            \<lparr>tr_success = success, tr_responses = [], tr_error = ''''\<rparr> sm
      in (AS_TxnReply resp, sm'))"


section \<open>Applying log entries\<close>

fun apply_cmd :: "u64 \<Rightarrow> Cmd \<Rightarrow> 'mem state_machine \<Rightarrow> AppliedState \<times> 'mem state_machine" where
  "apply_cmd now (IncrSeq k) sm = apply_incr_seq_cmd k sm"
| "apply_cmd now (AddNode node_id node) sm = apply_add_node_cmd node_id node sm"
| "apply_cmd now (RemoveNode node_id) sm = apply_remove_node_cmd node_id sm"
| "apply_cmd now (AddMetaSrvAddr nm addr) sm = apply_add_metasrv_addr_cmd nm addr sm"
| "apply_cmd now (RemoveMetaSrvAddr nm) sm = apply_remove_metasrv_addr_cmd nm sm"
| "apply_cmd now (UpsertKV k ms value_op value_meta) sm =
     apply_update_kv_cmd now k ms value_op value_meta sm"
| "apply_cmd now (Transaction txn) sm = apply_txn_cmd now txn sm"

definition txn_client_last_resp_update ::
  "string \<Rightarrow> u64 \<Rightarrow> AppliedState \<Rightarrow> 'mem state_machine \<Rightarrow> 'mem state_machine" where
  "txn_client_last_resp_update k n resp sm =
     sm\<lparr>client_last_resps :=
       ks_put k \<lparr>req_serial_num = n, clr_res = resp\<rparr> (client_last_resps sm)\<rparr>"

definition apply_normal :: "u64 \<Rightarrow> LogEntry \<Rightarrow> 'mem state_machine \<Rightarrow> AppliedState \<times> 'mem state_machine" where
  "apply_normal now entry_data sm =
     (case txid entry_data of
        None \<Rightarrow> apply_cmd now (cmd entry_data) sm
      | Some t \<Rightarrow>
          (let (last_serial, resp) = txn_get_client_last_resp (client t) sm
           in if last_serial = serial t then (resp, sm)
              else let (applied_state, sm') = apply_cmd now (cmd entry_data) sm
                   in (applied_state,
                       txn_client_last_resp_update (client t) (serial t) applied_state sm')))"

definition sm_apply :: "u64 \<Rightarrow> 'mem Entry \<Rightarrow> 'mem state_machine \<Rightarrow> AppliedState \<times> 'mem state_machine" where
  "sm_apply now entry sm =
     (let sm1 = sm\<lparr>sm_meta := ks_put LastApplied (MV_LogId (log_id entry)) (sm_meta sm)\<rparr>
      in case payload entry of
           Blank \<Rightarrow> (AS_None, sm1)
         | Normal entry_data \<Rightarrow> apply_normal now entry_data sm1
         | Membership mem \<Rightarrow>
             (AS_None, sm1\<lparr>sm_meta := ks_put LastMembership
                (MV_Membership \<lparr>em_log_id = log_id entry, em_membership = mem\<rparr>) (sm_meta sm1)\<rparr>))"

text \<open>A run of the log: every entry is applied at the clock value the node reads then.\<close>

fun apply_all :: "(u64 \<times> 'mem Entry) list \<Rightarrow> 'mem state_machine \<Rightarrow> AppliedState list \<times> 'mem state_machine" where
  "apply_all [] sm = ([], sm)"
| "apply_all ((now, e) # es) sm =
     (let (r, sm') = sm_apply now e sm; (rs, sm'') = apply_all es sm' in (r # rs, sm''))"
end
