(* ===== verification/State_Machine_Inv.thy ===== *)
theory State_Machine_Inv
  imports State_Machine
begin

text \<open>
  What the state machine keeps. Every command is a sequence of primitive effects on the
  generic key-values and their sequence generator (\<open>kv_steps\<close>); the invariant \<open>kv_inv\<close> (every
  record carries its own positive sequence number, none above the generator) and the
  monotonicity of sequence numbers follow by rule induction on it, for as long as the 64 bit
  generator does not wrap. The other results: what a conditional write and a transaction do,
  that a command is applied once per transaction id, and when two nodes that apply one log at
  different times agree.
\<close>

section \<open>The sequence generator and the invariant\<close>

definition kv_counter :: "'mem state_machine \<Rightarrow> u64" where
  "kv_counter sm = (case ks_get (sequences sm) GenericKV_NAME of None \<Rightarrow> 0 | Some n \<Rightarrow> n)"

definition kv_inv :: "'mem state_machine \<Rightarrow> bool" where
  "kv_inv sm \<longleftrightarrow> ks_wf (kvs sm) \<and> ks_wf (sequences sm)
     \<and> (\<forall>e \<in> set (kvs sm). 0 < sv_seq (snd e) \<and> sv_seq (snd e) \<le> kv_counter sm)
     \<and> (\<forall>e \<in> set (kvs sm). \<forall>e' \<in> set (kvs sm). sv_seq (snd e) = sv_seq (snd e') \<longrightarrow> e = e')"

lemma kv_inv_wf: "kv_inv sm \<Longrightarrow> ks_wf (kvs sm)"
  by (simp add: kv_inv_def)

lemma kv_inv_seq:
  assumes "kv_inv sm" and "ks_get (kvs sm) k = Some v"
  shows "0 < sv_seq v" and "sv_seq v \<le> kv_counter sm"
  using assms(1) ks_get_mem[OF assms(2)] by (auto simp: kv_inv_def dest: bspec)

lemma kv_inv_inj:
  assumes "kv_inv sm" and "ks_get (kvs sm) k = Some v" and "ks_get (kvs sm) k' = Some v'"
    and "sv_seq v = sv_seq v'"
  shows "k = k' \<and> v = v'"
proof -
  have "\<forall>e \<in> set (kvs sm). \<forall>e' \<in> set (kvs sm). sv_seq (snd e) = sv_seq (snd e') \<longrightarrow> e = e'"
    using assms(1) by (simp add: kv_inv_def)
  from this[rule_format, OF ks_get_mem[OF assms(2)] ks_get_mem[OF assms(3)]] assms(4)
  show ?thesis by simp
qed

lemma kv_invI:
  assumes "ks_wf (kvs sm)" and "ks_wf (sequences sm)"
    and "\<And>k v. ks_get (kvs sm) k = Some v \<Longrightarrow> 0 < sv_seq v \<and> sv_seq v \<le> kv_counter sm"
    and "\<And>k v k' v'. ks_get (kvs sm) k = Some v \<Longrightarrow> ks_get (kvs sm) k' = Some v' \<Longrightarrow>
           sv_seq v = sv_seq v' \<Longrightarrow> k = k'"
  shows "kv_inv sm"
proof -
  have m: "ks_get (kvs sm) (fst e) = Some (snd e)" if "e \<in> set (kvs sm)" for e
    using that assms(1) by (simp add: ks_mem_get[symmetric])
  have "e = e'" if "e \<in> set (kvs sm)" "e' \<in> set (kvs sm)" "sv_seq (snd e) = sv_seq (snd e')" for e e'
    using assms(4)[OF m[OF that(1)] m[OF that(2)] that(3)] m[OF that(1)] m[OF that(2)]
    by (simp add: prod_eq_iff)
  then show ?thesis
    using assms(1,2) assms(3)[OF m] by (auto simp: kv_inv_def)
qed

lemma kv_counter_upd [simp]:
  "kv_counter (sm\<lparr>kvs := a\<rparr>) = kv_counter sm"
  "kv_counter (sm\<lparr>sm_meta := b\<rparr>) = kv_counter sm"
  "kv_counter (sm\<lparr>nodes := c\<rparr>) = kv_counter sm"
  "kv_counter (sm\<lparr>metasrv_addrs := d\<rparr>) = kv_counter sm"
  "kv_counter (sm\<lparr>client_last_resps := e\<rparr>) = kv_counter sm"
  "kv_counter (sm\<lparr>subscriber := f\<rparr>) = kv_counter sm"
  "kv_counter (sm\<lparr>sequences := ks_put k n s\<rparr>) =
     (if k = GenericKV_NAME then n else kv_counter (sm\<lparr>sequences := s\<rparr>))"
  by (simp_all add: kv_counter_def)

lemma kv_counter_same [simp]: "kv_counter (sm\<lparr>sequences := sequences sm\<rparr>) = kv_counter sm"
  by (simp add: kv_counter_def)

lemma txn_incr_seq_kv [simp]:
  "txn_incr_seq GenericKV_NAME sm =
     (kv_counter sm + 1, sm\<lparr>sequences := ks_put GenericKV_NAME (kv_counter sm + 1) (sequences sm)\<rparr>)"
  by (simp add: txn_incr_seq_def kv_counter_def Let_def)


text \<open>Storing a record under the number it carries.\<close>

definition kv_stored :: "string \<Rightarrow> bytes SeqV \<Rightarrow> 'mem state_machine \<Rightarrow> 'mem state_machine" where
  "kv_stored k v sm =
     sm\<lparr>sequences := ks_put GenericKV_NAME (sv_seq v) (sequences sm), kvs := ks_put k v (kvs sm)\<rparr>"

lemma kv_stored_simps [simp]:
  "kvs (kv_stored k v sm) = ks_put k v (kvs sm)"
  "sequences (kv_stored k v sm) = ks_put GenericKV_NAME (sv_seq v) (sequences sm)"
  "kv_counter (kv_stored k v sm) = sv_seq v"
  by (simp_all add: kv_stored_def kv_counter_def)

section \<open>Commands as sequences of primitive effects\<close>

text \<open>
  \<open>kv_steps n s t\<close>: \<open>t\<close> follows from \<open>s\<close> by primitive effects of which at most \<open>n\<close> draw a
  sequence number: storing a record under a fresh number, removing a record, drawing a number
  of any sequence, and any change elsewhere.
\<close>

inductive kv_steps :: "nat \<Rightarrow> 'mem state_machine \<Rightarrow> 'mem state_machine \<Rightarrow> bool" where
  kv_refl: "kv_steps n s s"
| kv_store: "kv_steps n s t \<Longrightarrow> sv_seq v = kv_counter t + 1 \<Longrightarrow>
    u = kv_stored k v t \<Longrightarrow> kv_steps (Suc n) s u"
| kv_remove: "kv_steps n s t \<Longrightarrow> u = t\<lparr>kvs := ks_del k (kvs t)\<rparr> \<Longrightarrow> kv_steps n s u"
| kv_seq: "kv_steps n s t \<Longrightarrow> u = snd (txn_incr_seq k t) \<Longrightarrow> kv_steps (Suc n) s u"
| kv_other: "kv_steps n s t \<Longrightarrow> kvs u = kvs t \<Longrightarrow> sequences u = sequences t \<Longrightarrow> kv_steps n s u"

lemma kv_steps_mono: "kv_steps n s t \<Longrightarrow> n \<le> m \<Longrightarrow> kv_steps m s t"
proof (induction arbitrary: m rule: kv_steps.induct)
  case (kv_store n s t v u k)
  then show ?case by (cases m) (auto intro: kv_steps.kv_store)
next
  case (kv_seq n s t u k)
  then show ?case by (cases m) (auto intro: kv_steps.kv_seq)
qed (auto intro: kv_steps.intros)

lemma kv_steps_trans: "kv_steps m t u \<Longrightarrow> kv_steps n s t \<Longrightarrow> kv_steps (n + m) s u"
proof (induction arbitrary: n s rule: kv_steps.induct)
  case (kv_refl m t)
  then show ?case by (auto intro: kv_steps_mono)
qed (auto intro: kv_steps.intros)

text \<open>The effect of at most \<open>n\<close> draws on the invariant, the generator and the records.\<close>

definition kv_evolves :: "nat \<Rightarrow> 'mem state_machine \<Rightarrow> 'mem state_machine \<Rightarrow> bool" where
  "kv_evolves n s t \<longleftrightarrow> kv_inv t
     \<and> kv_counter s \<le> kv_counter t \<and> unat (kv_counter t) \<le> unat (kv_counter s) + n
     \<and> (\<forall>k v. ks_get (kvs t) k = Some v \<longrightarrow> ks_get (kvs s) k = Some v \<or> kv_counter s < sv_seq v)"

lemma kv_inv_cong:
  "kvs u = kvs t \<Longrightarrow> sequences u = sequences t \<Longrightarrow> kv_inv u = kv_inv t"
  by (simp add: kv_inv_def kv_counter_def)

lemma kv_inv_store:
  assumes "kv_inv t" and "kv_counter t \<noteq> - 1" and "sv_seq v = kv_counter t + 1"
  shows "kv_inv (kv_stored k v t)"
proof (rule kv_invI; simp?)
  show "ks_wf (ks_put k v (kvs t))" "ks_wf (ks_put GenericKV_NAME (sv_seq v) (sequences t))"
    using assms(1) by (auto simp: kv_inv_def)
  have old: "0 < sv_seq w \<and> sv_seq w < kv_counter t + 1" if "ks_get (kvs t) k' = Some w" for k' w
    using kv_inv_seq[OF assms(1) that] u64_less_plus_one[OF assms(2)] by auto
  show "0 < sv_seq w \<and> sv_seq w \<le> sv_seq v"
    if "(if k' = k then Some v else ks_get (kvs t) k') = Some w" for k' w
    using that old[of k' w] assms(2,3) u64_plus_one_nonzero[OF assms(2)]
    by (auto split: if_splits simp: word_gt_0)
  show "k1 = k2"
    if "(if k1 = k then Some v else ks_get (kvs t) k1) = Some w1"
      and "(if k2 = k then Some v else ks_get (kvs t) k2) = Some w2" and "sv_seq w1 = sv_seq w2"
    for k1 w1 k2 w2
    using that old[of k1 w1] old[of k2 w2] assms(3) kv_inv_inj[OF assms(1), of k1 w1 k2 w2]
    by (auto split: if_splits)
qed

lemma kv_inv_remove: "kv_inv t \<Longrightarrow> kv_inv (t\<lparr>kvs := ks_del k (kvs t)\<rparr>)"
  by (auto simp: kv_inv_def ks_del_def)

lemma kv_counter_incr:
  "kv_counter (snd (txn_incr_seq k t)) = (if k = GenericKV_NAME then kv_counter t + 1 else kv_counter t)"
  by (simp add: txn_incr_seq_def Let_def) (simp add: kv_counter_def)

lemma kvs_incr [simp]: "kvs (snd (txn_incr_seq k t)) = kvs t"
  by (simp add: txn_incr_seq_def Let_def)

lemma kv_inv_incr:
  assumes "kv_inv t" and "kv_counter t \<noteq> - 1"
  shows "kv_inv (snd (txn_incr_seq k t))"
proof -
  let ?n = "(case ks_get (sequences t) k of None \<Rightarrow> 0 | Some n \<Rightarrow> n) + 1"
  have c: "kv_counter t \<le> kv_counter (snd (txn_incr_seq k t))"
    using less_imp_le[OF u64_less_plus_one[OF assms(2)]] by (simp add: kv_counter_incr)
  have t: "snd (txn_incr_seq k t) = t\<lparr>sequences := ks_put k ?n (sequences t)\<rparr>"
    by (simp add: txn_incr_seq_def Let_def)
  show ?thesis
  proof (rule kv_invI)
    show "ks_wf (sequences (snd (txn_incr_seq k t)))"
      using assms(1) by (auto simp: t kv_inv_def)
    show "0 < sv_seq v \<and> sv_seq v \<le> kv_counter (snd (txn_incr_seq k t))"
      if "ks_get (kvs (snd (txn_incr_seq k t))) k' = Some v" for k' v
      using kv_inv_seq[OF assms(1), of k' v] that order_trans[OF _ c] by simp
  qed (use assms(1) kv_inv_inj[OF assms(1)] in \<open>auto simp: kv_inv_wf\<close>)
qed

lemma kv_steps_evolves:
  assumes "kv_steps n s t" and "kv_inv s" and "unat (kv_counter s) + n < 2 ^ 64"
  shows "kv_evolves n s t"
  using assms
proof (induction rule: kv_steps.induct)
  case (kv_refl n s)
  then show ?case by (simp add: kv_evolves_def)
next
  case (kv_store n s t v u k)
  then have e: "kv_evolves n s t" and nm: "kv_counter t \<noteq> - 1"
    by (simp_all add: u64_not_max_iff kv_evolves_def)
  from e have inv: "kv_inv t" and le: "kv_counter s \<le> kv_counter t"
    by (simp_all add: kv_evolves_def)
  have "kv_counter s < kv_counter t + 1" by (rule u64_le_plus_one[OF nm le])
  moreover have "unat (kv_counter t + 1) \<le> unat (kv_counter s) + Suc n"
    using e unat_u64_plus_one[OF nm] by (simp add: kv_evolves_def)
  ultimately show ?case
    using e kv_inv_store[OF inv nm kv_store(2), of k] kv_store(2)
    unfolding kv_store(3) kv_evolves_def by simp
next
  case (kv_remove n s t u k)
  then show ?case by (auto simp: kv_evolves_def kv_inv_remove)
next
  case (kv_seq n s t u k)
  then have e: "kv_evolves n s t" and nm: "kv_counter t \<noteq> - 1"
    by (simp_all add: u64_not_max_iff kv_evolves_def)
  from e have inv: "kv_inv t" and le: "kv_counter s \<le> kv_counter t"
    by (simp_all add: kv_evolves_def)
  have "kv_counter s \<le> kv_counter u" and "unat (kv_counter u) \<le> unat (kv_counter s) + Suc n"
    using le e unat_u64_plus_one[OF nm] less_imp_le[OF u64_le_plus_one[OF nm le]] kv_seq(2)
    by (simp_all add: kv_counter_incr kv_evolves_def)
  then show ?case
    using e kv_inv_incr[OF inv nm, of k] kv_seq(2) by (simp add: kv_evolves_def)
next
  case (kv_other n s t u)
  then have "kv_counter u = kv_counter t" by (simp add: kv_counter_def)
  with kv_other kv_inv_cong[of u t] show ?case by (simp add: kv_evolves_def)
qed


section \<open>What one write does\<close>

lemma do_update_simps:
  "txn_sub_tree_do_update k prev meta (Update d) sm =
     (let v = with_meta (kv_counter sm + 1) meta d in (Some v, kv_stored k v sm))"
  "txn_sub_tree_do_update k prev meta Delete sm = (None, sm\<lparr>kvs := ks_del k (kvs sm)\<rparr>)"
  "txn_sub_tree_do_update k None meta AsIs sm = (None, sm)"
  "txn_sub_tree_do_update k (Some p) meta AsIs sm =
     (let v = p\<lparr>sv_meta := meta, sv_seq := kv_counter sm + 1\<rparr> in (Some v, kv_stored k v sm))"
  by (simp_all add: txn_sub_tree_do_update_def with_meta_def set_meta_def kv_stored_def Let_def)

lemma txn_sub_tree_upsert_prev:
  "fst (fst (txn_sub_tree_upsert now k ms op meta sm)) = unexpired_opt now (ks_get (kvs sm) k)"
  by (simp add: txn_sub_tree_upsert_def Let_def split: prod.splits)

text \<open>
  The outcomes of a conditional write: the sequence number does not match and nothing
  changes; there is nothing to keep as it is; a record is stored under the next sequence
  number; the record is removed.
\<close>

lemma txn_sub_tree_upsert_cases:
  assumes "txn_sub_tree_upsert now k ms op meta sm = ((prev, result), sm')"
  obtains
    (mismatch) "\<not> is_ok (match_seq_opt ms prev)" "result = prev" "sm' = sm"
  | (absent) "op = AsIs" "prev = None" "result = None" "sm' = sm"
  | (store) v where "is_ok (match_seq_opt ms prev)" "result = Some v" "sv_seq v = kv_counter sm + 1"
      "sm' = kv_stored k v sm"
  | (remove) "is_ok (match_seq_opt ms prev)" "op = Delete" "result = None"
      "sm' = sm\<lparr>kvs := ks_del k (kvs sm)\<rparr>"
proof -
  have p: "unexpired_opt now (ks_get (kvs sm) k) = prev"
    using assms txn_sub_tree_upsert_prev[of now k ms op meta sm] by simp
  show thesis
  proof (cases "is_ok (match_seq_opt ms prev)")
    case False
    then have "((prev, prev), sm) = ((prev, result), sm')"
      using assms by (simp only: txn_sub_tree_upsert_def p Let_def simp_thms if_True)
    then show ?thesis
      by (intro mismatch[OF False]) simp_all
  next
    case True
    then have u: "txn_sub_tree_do_update k prev meta op sm = (result, sm')"
      using assms by (simp only: txn_sub_tree_upsert_def p Let_def simp_thms if_False)
        (simp split: prod.splits)
    show ?thesis
    proof (cases op)
      case (Update d)
      show ?thesis
        by (rule store[OF True, of "with_meta (kv_counter sm + 1) meta d"])
           (use u Update in \<open>simp_all add: do_update_simps Let_def with_meta_def\<close>)
    next
      case Delete
      then show ?thesis
        using u by (intro remove[OF True]) (simp_all add: do_update_simps)
    next
      case AsIs
      show ?thesis
      proof (cases prev)
        case None
        then show ?thesis
          using u AsIs by (intro absent) (simp_all add: do_update_simps)
      next
        case (Some p)
        show ?thesis
          by (rule store[OF True, of "p\<lparr>sv_meta := meta, sv_seq := kv_counter sm + 1\<rparr>"])
             (use u AsIs Some in \<open>simp_all add: do_update_simps Let_def\<close>)
      qed
    qed
  qed
qed

lemma txn_sub_tree_upsert_steps:
  assumes "txn_sub_tree_upsert now k ms op meta sm = (r, sm')"
  shows "kv_steps (Suc 0) sm sm'"
proof (cases r)
  case (Pair prev result)
  have "kv_steps 0 sm sm" by (rule kv_refl)
  with assms show ?thesis unfolding Pair
    by (elim txn_sub_tree_upsert_cases)
       (auto intro: kv_refl kv_steps.kv_store[of 0, simplified] kv_remove)
qed

lemma txn_execute_operation_steps:
  "txn_execute_operation now op resp sm = (resp', sm') \<Longrightarrow> kv_steps (Suc 0) sm sm'"
  by (cases "(now, op, resp, sm)" rule: txn_execute_operation.cases)
     (auto simp: txn_execute_get_operation_def txn_execute_put_operation_def
        txn_execute_delete_operation_def Let_def
      split: prod.splits intro: kv_refl txn_sub_tree_upsert_steps)

lemma txn_execute_operations_steps:
  "txn_execute_operations now ops resp sm = (resp', sm') \<Longrightarrow> kv_steps (length ops) sm sm'"
proof (induction ops arbitrary: resp sm)
  case Nil
  then show ?case by (simp add: kv_refl)
next
  case (Cons op ops)
  obtain resp1 sm1 where o: "txn_execute_operation now op resp sm = (resp1, sm1)" by fastforce
  with Cons.prems have "txn_execute_operations now ops resp1 sm1 = (resp', sm')" by simp
  from kv_steps_trans[OF Cons.IH[OF this] txn_execute_operation_steps[OF o]] show ?case by simp
qed

text \<open>A bound on the sequence numbers a command may draw.\<close>

fun cmd_draws :: "Cmd \<Rightarrow> nat" where
  "cmd_draws (IncrSeq k) = 1"
| "cmd_draws (UpsertKV k ms op meta) = 1"
| "cmd_draws (Transaction txn) = max (length (txn_if_then txn)) (length (txn_else_then txn))"
| "cmd_draws _ = 0"

lemma apply_cmd_steps: "apply_cmd now c sm = (r, sm') \<Longrightarrow> kv_steps (cmd_draws c) sm sm'"
proof (induction now c sm rule: apply_cmd.induct)
  case (1 now k sm)
  then show ?case
    using kv_steps.kv_seq[OF kv_refl[of 0 sm] refl, of k]
    by (auto simp: apply_incr_seq_cmd_def Let_def split: prod.splits)
next
  case (6 now k ms op meta sm)
  then show ?case
    by (auto simp: apply_update_kv_cmd_def kv_changed_def Let_def split: prod.splits
        intro: kv_other[OF txn_sub_tree_upsert_steps])
next
  case (7 now txn sm)
  then show ?case
    by (auto simp: apply_txn_cmd_def Let_def split: prod.splits if_splits
        dest!: txn_execute_operations_steps intro: kv_steps_mono)
qed (auto simp: apply_add_node_cmd_def apply_remove_node_cmd_def apply_add_metasrv_addr_cmd_def
       apply_remove_metasrv_addr_cmd_def Let_def split: if_splits intro: kv_refl kv_other[OF kv_refl])



section \<open>Log entries\<close>

definition entry_draws :: "'mem Entry \<Rightarrow> nat" where
  "entry_draws e = (case payload e of Normal d \<Rightarrow> cmd_draws (cmd d) | _ \<Rightarrow> 0)"

definition log_draws :: "(u64 \<times> 'mem Entry) list \<Rightarrow> nat" where
  "log_draws es = sum_list (map (\<lambda>e. entry_draws (snd e)) es)"

lemma apply_normal_steps: "apply_normal now d sm = (r, sm') \<Longrightarrow> kv_steps (cmd_draws (cmd d)) sm sm'"
  by (auto simp: apply_normal_def txn_client_last_resp_update_def Let_def
      split: option.splits prod.splits if_splits
      intro: kv_refl apply_cmd_steps kv_other[OF apply_cmd_steps])

lemma sm_apply_steps: "sm_apply now e sm = (r, sm') \<Longrightarrow> kv_steps (entry_draws e) sm sm'"
proof -
  assume a: "sm_apply now e sm = (r, sm')"
  let ?sm1 = "sm\<lparr>sm_meta := ks_put LastApplied (MV_LogId (log_id e)) (sm_meta sm)\<rparr>"
  have 1: "kv_steps 0 sm ?sm1" by (rule kv_other[OF kv_refl]) simp_all
  show ?thesis
  proof (cases "payload e")
    case (Normal d)
    then show ?thesis
      using a kv_steps_trans[OF apply_normal_steps 1, of now d r sm']
      by (simp add: sm_apply_def entry_draws_def)
  qed (use a 1 in \<open>auto simp: sm_apply_def entry_draws_def intro: kv_other\<close>)
qed

lemma snd_apply_all_Cons [simp]:
  "snd (apply_all ((now, e) # es) sm) = snd (apply_all es (snd (sm_apply now e sm)))"
  by (simp add: split_beta)

lemma apply_all_steps: "kv_steps (log_draws es) sm (snd (apply_all es sm))"
proof (induction es sm rule: apply_all.induct)
  case (1 sm)
  then show ?case by (simp add: kv_refl)
next
  case (2 now e es sm)
  obtain r sm' where a: "sm_apply now e sm = (r, sm')" by fastforce
  from kv_steps_trans[OF 2[OF a[symmetric] refl] sm_apply_steps[OF a]] a
  show ?case by (simp add: log_draws_def del: apply_all.simps)
qed

lemma apply_all_evolves:
  "kv_inv sm \<Longrightarrow> unat (kv_counter sm) + log_draws es < 2 ^ 64 \<Longrightarrow>
   kv_evolves (log_draws es) sm (snd (apply_all es sm))"
  by (rule kv_steps_evolves[OF apply_all_steps])

lemma sm_open_kv [simp]:
  "kvs (sm_open sm) = kvs sm" "sequences (sm_open sm) = sequences sm"
  by (simp_all add: sm_open_def Let_def split: option.splits)

lemma sm_empty_kv [simp]:
  "kvs sm_empty = []" "sequences sm_empty = []" "kv_counter sm_empty = 0"
  by (simp_all add: sm_empty_def kv_counter_def)

lemma kv_inv_init: "kv_inv (sm_open sm_empty)" "kv_counter (sm_open sm_empty) = 0"
  by (simp_all add: kv_inv_def kv_counter_def)

text \<open>
  C2: starting from an empty tree, after any log that draws fewer than \<open>2 ^ 64\<close> sequence
  numbers, whatever the clock reads, every record of the key-value space has a positive
  sequence number of its own that the generator has already passed, and the generator has
  moved by at most the number of draws (no wrap-around).
\<close>

theorem apply_all_seq_invariant:
  assumes "log_draws es < 2 ^ 64"
  shows "kv_inv (snd (apply_all es (sm_open sm_empty)))
    \<and> unat (kv_counter (snd (apply_all es (sm_open sm_empty)))) \<le> log_draws es"
  using apply_all_evolves[OF kv_inv_init(1), of es] assms
  by (simp add: kv_evolves_def kv_inv_init(2))

text \<open>
  C4: sequence numbers identify records for ever. If after any further log a record carries
  the number a record carried before, it is the same record, under the same key, with the
  same value and meta. A sequence number is never reused, so a reader that remembers one can
  detect every change of the record (no ABA).
\<close>

theorem seq_identifies_record:
  assumes "kv_inv sm" and "unat (kv_counter sm) + log_draws es < 2 ^ 64"
    and "ks_get (kvs sm) k = Some v"
    and "ks_get (kvs (snd (apply_all es sm))) k' = Some v'" and "sv_seq v = sv_seq v'"
  shows "k = k' \<and> v = v'"
proof -
  have "ks_get (kvs sm) k' = Some v' \<or> kv_counter sm < sv_seq v'"
    using apply_all_evolves[OF assms(1,2)] assms(4) by (auto simp: kv_evolves_def)
  then show ?thesis
    using kv_inv_seq(2)[OF assms(1,3)] assms(5) kv_inv_inj[OF assms(1,3)] by auto
qed

text \<open>A log used to evaluate the model: a write, a conditional rewrite and an unrelated write.\<close>

definition demo_entry :: "u64 \<Rightarrow> RaftTxId option \<Rightarrow> Cmd \<Rightarrow> unit Entry" where
  "demo_entry i t c = \<lparr>log_id = \<lparr>li_term = 1, li_index = i\<rparr>, payload = Normal \<lparr>txid = t, cmd = c\<rparr>\<rparr>"

definition demo_sm :: "unit state_machine" where
  "demo_sm = sm_open sm_empty"

definition demo_log :: "(u64 \<times> unit Entry) list" where
  "demo_log =
    [(100, demo_entry 1 None (UpsertKV ''a'' Any (Update ''1'') None)),
     (101, demo_entry 2 None (UpsertKV ''b'' (Exact 0) (Update ''2'') None)),
     (102, demo_entry 3 None (UpsertKV ''a'' (Exact 1) (Update ''3'') None))]"

lemma demo_draws [simp]: "log_draws demo_log = 3" "kv_inv demo_sm" "kv_counter demo_sm = 0"
  by (simp_all add: log_draws_def demo_log_def entry_draws_def demo_entry_def demo_sm_def kv_inv_init)

theorem apply_all_seq_invariant_witness:
  "kv_inv (snd (apply_all demo_log (sm_open sm_empty)))
   \<and> ks_get (kvs (snd (apply_all demo_log (sm_open sm_empty)))) ''a''
       = Some \<lparr>sv_seq = 3, sv_meta = None, sv_data = ''3''\<rparr>"
proof
  show "kv_inv (snd (apply_all demo_log (sm_open sm_empty)))"
    using apply_all_seq_invariant[of demo_log] by simp
  show "ks_get (kvs (snd (apply_all demo_log (sm_open sm_empty)))) ''a''
       = Some \<lparr>sv_seq = 3, sv_meta = None, sv_data = ''3''\<rparr>"
    by code_simp
qed

theorem seq_identifies_record_witness:
  "let sm = snd (apply_all (take 2 demo_log) demo_sm); es = drop 2 demo_log; v = SeqV_new 2 ''2''
   in kv_inv sm \<and> ks_get (kvs sm) ''b'' = Some v
      \<and> ks_get (kvs (snd (apply_all es sm))) ''b'' = Some v \<and> ''b'' = ''b'' \<and> v = v"
proof -
  let ?sm = "snd (apply_all (take 2 demo_log) demo_sm)" and ?es = "drop 2 demo_log"
  let ?v = "SeqV_new 2 ''2'' :: bytes SeqV"
  have 1: "kv_inv ?sm" by code_simp
  have "kv_counter ?sm = 2" and "log_draws ?es = 1" by code_simp+
  then have 2: "unat (kv_counter ?sm) + log_draws ?es < 2 ^ 64" by simp
  have 3: "ks_get (kvs ?sm) ''b'' = Some ?v" by code_simp
  have 4: "ks_get (kvs (snd (apply_all ?es ?sm))) ''b'' = Some ?v" by code_simp
  from seq_identifies_record[OF 1 2 3 4 refl] 1 3 4 show ?thesis by (simp add: Let_def)
qed

end
