(* ===== verification/State_Machine_Laws.thy ===== *)
theory State_Machine_Laws
  imports State_Machine_Inv
begin

text \<open>
  What the commands of the state machine promise to a client: a conditional write succeeds
  once per sequence number, a transaction runs exactly one of its branches on what it saw, a
  command with a transaction id is applied once, and nodes that apply one log agree when no
  record expires.
\<close>

section \<open>Conditional writes\<close>

lemma upsert_exact_mismatch:
  assumes "\<And>v. ks_get (kvs sm) k = Some v \<Longrightarrow> sv_seq v \<noteq> s" and "s \<noteq> 0"
  shows "\<exists>p. txn_sub_tree_upsert now k (Exact s) op meta sm = ((p, p), sm)"
proof -
  have "\<not> is_ok (match_seq_opt (Exact s) (unexpired_opt now (ks_get (kvs sm) k)))"
    using assms by (auto simp: match_seq_opt_def unexpired_opt_def unexpired_def
        split: option.splits Option.bind_splits if_splits)
  then show ?thesis by (simp add: txn_sub_tree_upsert_def Let_def)
qed

lemma upsert_exact_passed:
  assumes inv: "kv_inv sm" and room: "kv_counter sm \<noteq> - 1"
    and up: "txn_sub_tree_upsert now k (Exact s) op meta sm = ((Some p, r), sm1)" and s: "sv_seq p = s"
  shows "s \<le> kv_counter sm1" and "\<And>v. ks_get (kvs sm1) k = Some v \<Longrightarrow> sv_seq v \<noteq> s"
proof -
  have p: "ks_get (kvs sm) k = Some p"
    using txn_sub_tree_upsert_prev[of now k "Exact s" op meta sm] up
    by (auto simp: unexpired_opt_def unexpired_def split: Option.bind_splits if_splits)
  have le: "s \<le> kv_counter sm" using kv_inv_seq(2)[OF inv p] s by simp
  have ok: "is_ok (match_seq_opt (Exact s) (Some p))"
    using s by (simp add: match_seq_opt_def)
  have lt: "s < kv_counter sm + 1" by (rule u64_le_plus_one[OF room le])
  show "s \<le> kv_counter sm1"
    using up by (rule txn_sub_tree_upsert_cases) (use ok le lt in auto)
  show "\<And>v. ks_get (kvs sm1) k = Some v \<Longrightarrow> sv_seq v \<noteq> s"
    using up by (rule txn_sub_tree_upsert_cases) (use ok lt in auto)
qed

text \<open>
  C10: of all the writes conditioned on one sequence number of a record, at most one takes
  effect. After a write with \<open>MatchSeq::Exact(s)\<close> has found the record at \<open>s\<close> and passed,
  every later one with the same \<open>s\<close>, after any further log and at any clock, is answered with
  the unchanged record and leaves the key-values and the generator as they are.
\<close>

theorem exact_seq_passes_once:
  assumes "kv_inv sm" and "s \<noteq> 0"
    and "apply_cmd now (UpsertKV k (Exact s) op meta) sm = (AS_KV c, sm1)"
    and "ch_prev c = Some p" and "sv_seq p = s"
    and "unat (kv_counter sm) + 1 + log_draws es < 2 ^ 64"
  shows "\<exists>p' sm3. apply_cmd now' (UpsertKV k (Exact s) op' meta') (snd (apply_all es sm1))
             = (AS_KV (Change_new p' p'), sm3)
           \<and> kvs sm3 = kvs (snd (apply_all es sm1)) \<and> sequences sm3 = sequences (snd (apply_all es sm1))"
proof -
  let ?sm2 = "snd (apply_all es sm1)"
  obtain r sm0 where up: "txn_sub_tree_upsert now k (Exact s) op meta sm = ((Some p, r), sm0)"
      and sm1: "sm1 = kv_changed k (Some p) r sm0"
    using assms(3,4) by (auto simp: apply_update_kv_cmd_def Change_new_def split: prod.splits)
  have same: "kvs sm1 = kvs sm0" "kv_counter sm1 = kv_counter sm0"
    by (simp_all add: sm1 kv_changed_def)
  have room: "kv_counter sm \<noteq> - 1" using assms(6) by (simp add: u64_not_max_iff)
  have ev: "kv_evolves 1 sm sm1"
    using kv_steps_evolves[OF apply_cmd_steps[OF assms(3)] assms(1)] assms(6) by simp
  then have ev2: "kv_evolves (log_draws es) sm1 ?sm2"
    using assms(6) by (intro apply_all_evolves) (auto simp: kv_evolves_def)
  have "sv_seq v \<noteq> s" if "ks_get (kvs ?sm2) k = Some v" for v
    using ev2 that upsert_exact_passed[OF assms(1) room up assms(5)] same
    by (fastforce simp: kv_evolves_def)
  from upsert_exact_mismatch[OF _ assms(2), of ?sm2 k now' op' meta'] this
  show ?thesis by (auto simp: apply_update_kv_cmd_def kv_changed_def)
qed

theorem exact_seq_passes_once_witness:
  "let sm = snd (apply_all (take 1 demo_log) demo_sm)
   in \<exists>c sm1 p' sm3. apply_cmd 5 (UpsertKV ''a'' (Exact 1) (Update ''x'') None) sm = (AS_KV c, sm1)
        \<and> map_option sv_seq (ch_prev c) = Some 1 \<and> map_option sv_seq (ch_result c) = Some 2
        \<and> apply_cmd 6 (UpsertKV ''a'' (Exact 1) (Update ''y'') None) (snd (apply_all (drop 1 demo_log) sm1))
             = (AS_KV (Change_new p' p'), sm3)"
proof -
  let ?sm = "snd (apply_all (take 1 demo_log) demo_sm)" and ?es = "drop 1 demo_log"
  let ?up = "UpsertKV ''a'' (Exact 1) (Update ''x'') None"
  let ?c = "Change_new (Some (SeqV_new 1 ''1'')) (Some (SeqV_new 2 ''x''))"
  have 1: "kv_inv ?sm" by code_simp
  have "kv_counter ?sm = 1" and "log_draws ?es = 2" by code_simp+
  then have 2: "unat (kv_counter ?sm) + 1 + log_draws ?es < 2 ^ 64" by simp
  obtain sm1 where 3: "apply_cmd 5 ?up ?sm = (AS_KV ?c, sm1)"
  proof
    show "apply_cmd 5 ?up ?sm = (AS_KV ?c, snd (apply_cmd 5 ?up ?sm))" by code_simp
  qed
  have 4: "ch_prev ?c = Some (SeqV_new 1 ''1'')" "sv_seq (SeqV_new 1 ''1'' :: bytes SeqV) = 1"
    by (simp_all add: Change_new_def SeqV_new_def)
  from exact_seq_passes_once[OF 1 _ 3 4 2, of 6 "Update ''y''" None] 3 4 show ?thesis
    by (auto simp: Let_def Change_new_def SeqV_new_def)
qed


section \<open>Transactions\<close>

text \<open>The data a client sees in the store, and what the operations of a branch mean on it.\<close>

definition kv_data :: "'mem state_machine \<Rightarrow> string \<Rightarrow> bytes option" where
  "kv_data sm k = map_option sv_data (ks_get (kvs sm) k)"

fun txn_op_spec :: "TxnOp \<Rightarrow> (string \<Rightarrow> bytes option) \<Rightarrow> string \<Rightarrow> bytes option" where
  "txn_op_spec (Some (Req_Put put)) m = m(put_key put \<mapsto> put_value put)"
| "txn_op_spec (Some (Req_Delete del)) m = m(del_key del := None)"
| "txn_op_spec (Some (Req_Get k)) m = m"
| "txn_op_spec None m = m"

text \<open>Operations that are answered: all but an empty \<open>TxnOp\<close>.\<close>

definition txn_answered :: "TxnOp list \<Rightarrow> TxnOp list" where
  "txn_answered ops = filter (\<lambda>op. op \<noteq> None) ops"

lemma txn_execute_operation_data:
  assumes "txn_execute_operation now op resp sm = (resp', sm')"
  shows "kv_data sm' = txn_op_spec op (kv_data sm)"
    and "tr_success resp' = tr_success resp \<and> tr_error resp' = tr_error resp"
    and "length (tr_responses resp') = length (tr_responses resp) + length (txn_answered [op])"
  using assms
  by (cases "(now, op, resp, sm)" rule: txn_execute_operation.cases;
      fastforce simp: txn_execute_get_operation_def txn_execute_put_operation_def
        txn_execute_delete_operation_def txn_sub_tree_upsert_def match_seq_opt_any do_update_simps
        txn_answered_def kv_data_def with_meta_def Let_def fun_eq_iff)+

lemma txn_execute_operations_data:
  assumes "txn_execute_operations now ops resp sm = (resp', sm')"
  shows "kv_data sm' = fold txn_op_spec ops (kv_data sm)
     \<and> tr_success resp' = tr_success resp \<and> tr_error resp' = tr_error resp
     \<and> length (tr_responses resp') = length (tr_responses resp) + length (txn_answered ops)"
  using assms
proof (induction ops arbitrary: resp sm)
  case Nil
  then show ?case by (simp add: txn_answered_def)
next
  case (Cons op ops)
  obtain resp1 sm1 where o: "txn_execute_operation now op resp sm = (resp1, sm1)" by fastforce
  with Cons.prems have "txn_execute_operations now ops resp1 sm1 = (resp', sm')" by simp
  from Cons.IH[OF this] txn_execute_operation_data[OF o] show ?case
    by (simp add: txn_answered_def)
qed

text \<open>
  C11: a transaction runs exactly one of its two branches, chosen by its conditions on the
  state it starts from: on the data of the store the whole transaction is the composition, in
  order, of the meanings of the operations of that branch; the reply says which branch ran,
  has one answer per non-empty operation and no error text.
\<close>

theorem apply_txn_cmd_refines:
  "\<exists>resp sm'. apply_cmd now (Transaction txn) sm = (AS_TxnReply resp, sm')
     \<and> (let ok = list_all (\<lambda>c. txn_execute_one_condition c sm) (txn_condition txn);
            ops = (if ok then txn_if_then txn else txn_else_then txn)
        in kv_data sm' = fold txn_op_spec ops (kv_data sm)
           \<and> tr_success resp = ok \<and> tr_error resp = ''''
           \<and> length (tr_responses resp) = length (txn_answered ops))"
proof -
  have c: "txn_execute_condition cs sm = list_all (\<lambda>c. txn_execute_one_condition c sm) cs" for cs
    by (induction cs) simp_all
  let ?ops = "if txn_execute_condition (txn_condition txn) sm then txn_if_then txn else txn_else_then txn"
  let ?r = "\<lparr>tr_success = txn_execute_condition (txn_condition txn) sm, tr_responses = [], tr_error = ''''\<rparr>"
  obtain resp sm' where e: "txn_execute_operations now ?ops ?r sm = (resp, sm')" by fastforce
  then have "apply_cmd now (Transaction txn) sm = (AS_TxnReply resp, sm')"
    by (simp add: apply_txn_cmd_def Let_def)
  with txn_execute_operations_data[OF e] show ?thesis by (auto simp: c Let_def)
qed



section \<open>Transaction ids\<close>

lemma upsert_frame:
  assumes "txn_sub_tree_upsert now k ms op meta sm = (r, sm')"
  shows "client_last_resps sm' = client_last_resps sm \<and> sm_meta sm' = sm_meta sm
    \<and> nodes sm' = nodes sm \<and> metasrv_addrs sm' = metasrv_addrs sm \<and> subscriber sm' = subscriber sm"
proof (cases r)
  case (Pair prev result)
  show ?thesis
    using assms unfolding Pair
    by (rule txn_sub_tree_upsert_cases) (simp_all add: kv_stored_def)
qed

lemma txn_execute_operation_frame:
  "txn_execute_operation now op resp sm = (resp', sm') \<Longrightarrow>
     client_last_resps sm' = client_last_resps sm \<and> sm_meta sm' = sm_meta sm
     \<and> nodes sm' = nodes sm \<and> metasrv_addrs sm' = metasrv_addrs sm \<and> subscriber sm' = subscriber sm"
  by (cases "(now, op, resp, sm)" rule: txn_execute_operation.cases)
     (auto simp: txn_execute_get_operation_def txn_execute_put_operation_def
        txn_execute_delete_operation_def Let_def split: prod.splits dest: upsert_frame)

lemma txn_execute_operations_frame:
  "txn_execute_operations now ops resp sm = (resp', sm') \<Longrightarrow>
     client_last_resps sm' = client_last_resps sm \<and> sm_meta sm' = sm_meta sm
     \<and> nodes sm' = nodes sm \<and> metasrv_addrs sm' = metasrv_addrs sm \<and> subscriber sm' = subscriber sm"
proof (induction ops arbitrary: resp sm)
  case (Cons op ops)
  obtain resp1 sm1 where o: "txn_execute_operation now op resp sm = (resp1, sm1)" by fastforce
  with Cons.prems have "txn_execute_operations now ops resp1 sm1 = (resp', sm')" by simp
  from Cons.IH[OF this] txn_execute_operation_frame[OF o] show ?case by simp
qed simp

lemma apply_txn_frame:
  "apply_txn_cmd now txn sm = (r, sm') \<Longrightarrow>
     client_last_resps sm' = client_last_resps sm \<and> sm_meta sm' = sm_meta sm \<and> subscriber sm' = subscriber sm"
  by (auto simp: apply_txn_cmd_def Let_def split: prod.splits dest!: txn_execute_operations_frame)

lemma apply_cmd_frame:
  "apply_cmd now c sm = (r, sm') \<Longrightarrow>
     client_last_resps sm' = client_last_resps sm \<and> sm_meta sm' = sm_meta sm"
  by (cases c)
     (auto simp: apply_incr_seq_cmd_def txn_incr_seq_def apply_add_node_cmd_def
        apply_remove_node_cmd_def apply_add_metasrv_addr_cmd_def apply_remove_metasrv_addr_cmd_def
        apply_update_kv_cmd_def kv_changed_def Let_def
      split: if_splits prod.splits dest: upsert_frame apply_txn_frame)

lemma snd_apply_cmd_frame [simp]:
  "client_last_resps (snd (apply_cmd now c sm)) = client_last_resps sm"
  "sm_meta (snd (apply_cmd now c sm)) = sm_meta sm"
  using apply_cmd_frame[OF prod.collapse[symmetric], of now c sm] by simp_all

definition entry_client :: "'mem Entry \<Rightarrow> string option" where
  "entry_client e = (case payload e of Normal d \<Rightarrow> map_option client (txid d) | _ \<Rightarrow> None)"

lemma sm_apply_other_client:
  "entry_client e \<noteq> Some c \<Longrightarrow>
     ks_get (client_last_resps (snd (sm_apply now e sm))) c = ks_get (client_last_resps sm) c"
  by (auto simp: sm_apply_def apply_normal_def entry_client_def txn_client_last_resp_update_def Let_def
      split: EntryPayload.splits option.splits prod.splits if_splits dest: apply_cmd_frame)

lemma apply_all_other_client:
  "\<forall>e \<in> set es. entry_client (snd e) \<noteq> Some c \<Longrightarrow>
     ks_get (client_last_resps (snd (apply_all es sm))) c = ks_get (client_last_resps sm) c"
proof (induction es arbitrary: sm)
  case (Cons p es)
  then show ?case by (cases p) (simp add: sm_apply_other_client del: apply_all.simps)
qed simp

lemma apply_normal_remembers:
  assumes "apply_normal now d sm = (r, sm')" and "txid d = Some t"
    and "serial t \<noteq> 0 \<or> ks_get (client_last_resps sm) (client t) \<noteq> None"
  shows "ks_get (client_last_resps sm') (client t) = Some \<lparr>req_serial_num = serial t, clr_res = r\<rparr>"
proof (cases "fst (txn_get_client_last_resp (client t) sm) = serial t")
  case True
  then obtain v where "ks_get (client_last_resps sm) (client t) = Some v"
    using assms(3) by (auto simp: txn_get_client_last_resp_def split: option.splits)
  with True assms(1,2) show ?thesis
    by (auto simp: apply_normal_def txn_get_client_last_resp_def)
next
  case False
  with assms(1,2) show ?thesis
    by (auto simp: apply_normal_def txn_client_last_resp_update_def Let_def split: prod.splits)
qed

lemma apply_normal_replay:
  assumes "txid d = Some t"
    and "ks_get (client_last_resps sm) (client t) = Some \<lparr>req_serial_num = serial t, clr_res = r\<rparr>"
  shows "apply_normal now d sm = (r, sm)"
  using assms by (simp add: apply_normal_def txn_get_client_last_resp_def)

text \<open>
  C12: a client may resend a command. When an entry with a transaction id has been applied,
  and after it only entries of other clients, applying an entry with the same id again, at
  any time and even with another command, returns the response of the first application and
  changes nothing but the id of the last applied log. This is for a serial number other than
  0, or a client that has been heard of before.
\<close>

theorem sm_apply_once_per_txid:
  assumes "payload e = Normal d" and "txid d = Some t" and "sm_apply now e sm = (r, sm1)"
    and "serial t \<noteq> 0 \<or> ks_get (client_last_resps sm) (client t) \<noteq> None"
    and "\<forall>e' \<in> set es. entry_client (snd e') \<noteq> Some (client t)"
    and "payload e2 = Normal d2" and "txid d2 = Some t"
  shows "sm_apply now2 e2 (snd (apply_all es sm1)) =
    (r, (snd (apply_all es sm1))\<lparr>sm_meta :=
          ks_put LastApplied (MV_LogId (log_id e2)) (sm_meta (snd (apply_all es sm1)))\<rparr>)"
proof -
  have "ks_get (client_last_resps sm1) (client t) = Some \<lparr>req_serial_num = serial t, clr_res = r\<rparr>"
    using assms(1-4) by (auto simp: sm_apply_def Let_def intro: apply_normal_remembers)
  then have "ks_get (client_last_resps (snd (apply_all es sm1))) (client t)
               = Some \<lparr>req_serial_num = serial t, clr_res = r\<rparr>"
    using apply_all_other_client[OF assms(5)] by simp
  then show ?thesis
    using assms(6,7) by (simp add: sm_apply_def apply_normal_replay Let_def)
qed

theorem sm_apply_once_per_txid_witness:
  "let t = \<lparr>client = ''c'', serial = 7\<rparr>; e = demo_entry 4 (Some t) (IncrSeq ''x'');
       sm1 = snd (sm_apply 9 e demo_sm); sm2 = snd (apply_all demo_log sm1)
   in fst (sm_apply 9 e demo_sm) = AS_Seq 1 \<and> fst (sm_apply 10 e sm2) = AS_Seq 1
      \<and> sequences (snd (sm_apply 10 e sm2)) = sequences sm2"
proof -
  let ?t = "\<lparr>client = ''c'', serial = 7\<rparr>"
  let ?e = "demo_entry 4 (Some ?t) (IncrSeq ''x'')"
  have p: "payload ?e = Normal \<lparr>txid = Some ?t, cmd = IncrSeq ''x''\<rparr>" by (simp add: demo_entry_def)
  have r: "fst (sm_apply 9 ?e demo_sm) = AS_Seq 1" by code_simp
  have o: "\<forall>e' \<in> set demo_log. entry_client (snd e') \<noteq> Some (client ?t)"
    by (simp add: demo_log_def demo_entry_def entry_client_def)
  show ?thesis
    using sm_apply_once_per_txid[OF p _ prod.collapse[symmetric] _ o p, where now = 9 and sm = demo_sm and ?now2.0 = 10] r
    by (simp add: Let_def)
qed

text \<open>
  C25: the serial number 0 is taken for a duplicate: the first command of a client with serial
  number 0 is answered with \<open>AppliedState::None\<close> and never executed, since a client not heard
  of yet counts as one whose last serial number was 0.
\<close>

theorem serial_zero_is_dropped:
  assumes "payload e = Normal d" and "txid d = Some t" and "serial t = 0"
    and "ks_get (client_last_resps sm) (client t) = None"
  shows "sm_apply now e sm =
    (AS_None, sm\<lparr>sm_meta := ks_put LastApplied (MV_LogId (log_id e)) (sm_meta sm)\<rparr>)"
  using assms by (simp add: sm_apply_def apply_normal_def txn_get_client_last_resp_def Let_def)

theorem serial_zero_is_dropped_witness:
  "let e = demo_entry 1 (Some \<lparr>client = ''c'', serial = 0\<rparr>) (UpsertKV ''k'' Any (Update ''v'') None)
   in fst (sm_apply 9 e demo_sm) = AS_None \<and> kvs (snd (sm_apply 9 e demo_sm)) = []"
  using serial_zero_is_dropped[of "demo_entry 1 (Some \<lparr>client = ''c'', serial = 0\<rparr>)
      (UpsertKV ''k'' Any (Update ''v'') None)" _ _ demo_sm 9]
  by (simp add: demo_entry_def demo_sm_def sm_open_def sm_empty_def)



section \<open>Replicas and clocks\<close>

text \<open>
  Expiration is decided by the clock of the node that applies an entry. Without it the state
  is a function of the log alone.
\<close>

definition never_expires :: "'mem state_machine \<Rightarrow> bool" where
  "never_expires sm \<longleftrightarrow> (\<forall>e \<in> set (kvs sm). get_expire_at (snd e) = - 1)"

fun cmd_never_expires :: "Cmd \<Rightarrow> bool" where
  "cmd_never_expires (UpsertKV k ms op meta) = (Option.bind meta expire_at = None)"
| "cmd_never_expires _ = True"

definition entry_never_expires :: "'mem Entry \<Rightarrow> bool" where
  "entry_never_expires e = (case payload e of Normal d \<Rightarrow> cmd_never_expires (cmd d) | _ \<Rightarrow> True)"

lemma unexpired_max: "get_expire_at v = - 1 \<Longrightarrow> unexpired now v = Some v"
  using word_order.extremum[of now] by (simp add: unexpired_def leD)

lemma get_expire_at_None: "Option.bind meta expire_at = None \<Longrightarrow> sv_meta v = meta \<Longrightarrow> get_expire_at v = - 1"
  by (auto simp: get_expire_at_def split: option.splits Option.bind_splits)

lemma unexpired_opt_never:
  "never_expires sm \<Longrightarrow> unexpired_opt now (ks_get (kvs sm) k) = ks_get (kvs sm) k"
  by (cases "ks_get (kvs sm) k")
     (auto simp: unexpired_opt_def never_expires_def unexpired_max dest!: ks_get_mem)

lemma never_expires_stored:
  assumes "never_expires sm" and "get_expire_at v = - 1"
  shows "never_expires (kv_stored k v sm)"
  using assms set_ks_put[of k v "kvs sm"] by (auto simp: never_expires_def dest!: subsetD)

lemma never_expires_cong: "kvs sm = kvs sm' \<Longrightarrow> never_expires sm = never_expires sm'"
  by (simp add: never_expires_def)

lemma upsert_never_expires:
  assumes "never_expires sm" and "Option.bind meta expire_at = None"
  shows "txn_sub_tree_upsert now k ms op meta sm = txn_sub_tree_upsert now' k ms op meta sm"
    and "never_expires (snd (txn_sub_tree_upsert now k ms op meta sm))"
proof -
  show "txn_sub_tree_upsert now k ms op meta sm = txn_sub_tree_upsert now' k ms op meta sm"
    by (simp add: txn_sub_tree_upsert_def unexpired_opt_never[OF assms(1)])
  have "never_expires (snd (txn_sub_tree_do_update k p meta op sm))" for p
    using assms
    by (cases op; cases p)
       (auto simp: do_update_simps Let_def with_meta_def intro!: never_expires_stored
          get_expire_at_None, auto simp: never_expires_def ks_del_def)
  with assms(1) show "never_expires (snd (txn_sub_tree_upsert now k ms op meta sm))"
    by (simp add: txn_sub_tree_upsert_def split_beta Let_def)
qed

lemma txn_execute_operation_never_expires:
  assumes "never_expires sm"
  shows "txn_execute_operation now op resp sm = txn_execute_operation now' op resp sm
     \<and> never_expires (snd (txn_execute_operation now' op resp sm))"
proof -
  have u: "txn_sub_tree_upsert now k ms op None sm = txn_sub_tree_upsert now' k ms op None sm"
    and n: "never_expires (snd (txn_sub_tree_upsert now' k ms op None sm))" for k ms op
    using upsert_never_expires[OF assms, of None] by simp_all
  show ?thesis
    using assms
    by (cases "(now, op, resp, sm)" rule: txn_execute_operation.cases)
       (simp_all add: txn_execute_get_operation_def txn_execute_put_operation_def
          txn_execute_delete_operation_def split_beta Let_def u n)
qed

lemma txn_execute_operations_never_expires:
  "never_expires sm \<Longrightarrow>
     txn_execute_operations now ops resp sm = txn_execute_operations now' ops resp sm
     \<and> never_expires (snd (txn_execute_operations now' ops resp sm))"
proof (induction ops arbitrary: resp sm)
  case (Cons op ops)
  have o: "txn_execute_operation now op resp sm = txn_execute_operation now' op resp sm"
    and n: "never_expires (snd (txn_execute_operation now' op resp sm))"
    using txn_execute_operation_never_expires[OF Cons.prems, of now op resp now'] by simp_all
  show ?case
    using Cons.IH[OF n, of "fst (txn_execute_operation now' op resp sm)"]
    by (simp add: split_beta Let_def o)
qed simp

lemma apply_cmd_never_expires:
  assumes "never_expires sm" and "cmd_never_expires c"
  shows "apply_cmd now c sm = apply_cmd now' c sm \<and> never_expires (snd (apply_cmd now' c sm))"
proof (cases c)
  case (UpsertKV k ms op meta)
  have u: "txn_sub_tree_upsert now k ms op meta sm = txn_sub_tree_upsert now' k ms op meta sm"
    and n: "never_expires (snd (txn_sub_tree_upsert now' k ms op meta sm))"
    using upsert_never_expires[OF assms(1), of meta] assms(2) UpsertKV by simp_all
  have "never_expires (kv_changed k p r sm') = never_expires sm'" for p r and sm' :: "'a state_machine"
    by (rule never_expires_cong) (simp add: kv_changed_def)
  with n show ?thesis
    by (simp add: UpsertKV apply_update_kv_cmd_def split_beta Let_def u)
next
  case (Transaction txn)
  then show ?thesis
    using txn_execute_operations_never_expires[OF assms(1), of now _ _ now']
    by (simp add: apply_txn_cmd_def split_beta Let_def)
qed (use assms(1) in \<open>simp_all add: apply_incr_seq_cmd_def txn_incr_seq_def apply_add_node_cmd_def
       apply_remove_node_cmd_def apply_add_metasrv_addr_cmd_def apply_remove_metasrv_addr_cmd_def
       never_expires_def Let_def\<close>)

lemma sm_apply_never_expires:
  assumes "never_expires sm" and "entry_never_expires e"
  shows "sm_apply now e sm = sm_apply now' e sm \<and> never_expires (snd (sm_apply now' e sm))"
proof -
  let ?sm1 = "sm\<lparr>sm_meta := ks_put LastApplied (MV_LogId (log_id e)) (sm_meta sm)\<rparr>"
  have 1: "never_expires ?sm1" using assms(1) by (simp add: never_expires_def)
  show ?thesis
  proof (cases "payload e")
    case (Normal d)
    then have c: "cmd_never_expires (cmd d)" using assms(2) by (simp add: entry_never_expires_def)
    have "never_expires (txn_client_last_resp_update k n r sm') = never_expires sm'"
      for k n r and sm' :: "'a state_machine"
      by (rule never_expires_cong) (simp add: txn_client_last_resp_update_def)
    then show ?thesis
      using 1 Normal apply_cmd_never_expires[OF 1 c, of now now']
      by (simp add: sm_apply_def apply_normal_def split_beta Let_def split: option.splits)
  qed (use 1 in \<open>simp_all add: sm_apply_def never_expires_def\<close>)
qed

text \<open>
  C13: nodes that apply the same log reach the same state and give the same answers, whatever
  their clocks read, when no record of the initial state and no command of the log carries an
  expiration time.
\<close>

theorem replicas_agree_without_expiry:
  assumes "never_expires sm" and "map snd es = map snd es'"
    and "\<forall>e \<in> set es. entry_never_expires (snd e)"
  shows "apply_all es sm = apply_all es' sm"
  using assms
proof (induction es arbitrary: es' sm)
  case (Cons p es)
  obtain now e now' es'' where p: "p = (now, e)" and es': "es' = (now', e) # es''"
      and m: "map snd es = map snd es''"
    using Cons.prems(2) by (cases p; cases es') auto
  have a: "sm_apply now e sm = sm_apply now' e sm" and n: "never_expires (snd (sm_apply now' e sm))"
    using sm_apply_never_expires[OF Cons.prems(1), of e now now'] Cons.prems(3) p by simp_all
  show ?case
    using Cons.IH[OF n m] Cons.prems(3) by (simp add: p es' a split_beta Let_def)
qed simp

text \<open>The same with one record that expires: one node has removed it, the other keeps it.\<close>

definition expiry_log :: "u64 \<Rightarrow> (u64 \<times> unit Entry) list" where
  "expiry_log now =
    [(5, demo_entry 1 None (UpsertKV ''a'' Any (Update ''1'') (Some \<lparr>expire_at = Some 10\<rparr>))),
     (now, demo_entry 2 None (UpsertKV ''a'' (Exact 0) (Update ''2'') None))]"

theorem replicas_agree_without_expiry_witness:
  "apply_all demo_log demo_sm = apply_all (map (\<lambda>e. (fst e + 50, snd e)) demo_log) demo_sm
   \<and> apply_all (expiry_log 9) demo_sm \<noteq> apply_all (expiry_log 11) demo_sm"
proof
  show "apply_all demo_log demo_sm = apply_all (map (\<lambda>e. (fst e + 50, snd e)) demo_log) demo_sm"
    by (rule replicas_agree_without_expiry)
       (simp_all add: never_expires_def demo_sm_def demo_log_def demo_entry_def
          entry_never_expires_def)
  show "apply_all (expiry_log 9) demo_sm \<noteq> apply_all (expiry_log 11) demo_sm" by code_simp
qed


section \<open>Subscribers\<close>

text \<open>
  C26: a subscriber hears of an \<open>UpsertKV\<close>, with the record before and after it, even when the
  write is refused, and of no write that a transaction makes.
\<close>

theorem subscriber_hears_upserts_only:
  "subscriber (snd (apply_cmd now c sm)) =
     (case c of UpsertKV k ms op meta \<Rightarrow>
        map_option (\<lambda>evs. evs @ [(k, fst (txn_sub_tree_upsert now k ms op meta sm))]) (subscriber sm)
      | _ \<Rightarrow> subscriber sm)"
proof (cases c)
  case (UpsertKV k ms op meta)
  then show ?thesis
    using upsert_frame[OF prod.collapse[symmetric], of now k ms op meta sm]
    by (simp add: apply_update_kv_cmd_def kv_changed_def split_beta Let_def)
next
  case (Transaction txn)
  then show ?thesis
    using apply_txn_frame[OF prod.collapse[symmetric], of now txn sm] by simp
qed (simp_all add: apply_incr_seq_cmd_def txn_incr_seq_def apply_add_node_cmd_def
       apply_remove_node_cmd_def apply_add_metasrv_addr_cmd_def apply_remove_metasrv_addr_cmd_def Let_def)

end
