(* ===== verification/Sled_Store.thy ===== *)
theory Sled_Store
  imports Meta_Types Key_Space
begin

text \<open>
  The typed key spaces over one sled tree (\<open>common/meta/sled-store\<close>): keys are serialized in
  order and prefixed with the byte of their key space, values are serialized with serde. Sled
  itself, a third-party library, is the record of its operations, a parameter of every
  definition; so are the serializers of keys and values, in the record of a key space. What
  is relied on is \<open>sled_laws\<close> (sled is an ordered map of bytes whose calls succeed) and
  \<open>key_space_laws\<close> (serializers round-trip, and that of keys preserves the order). Under them
  every operation implements the ordered map of its own key space and leaves all others
  alone.
\<close>

section \<open>Parameters\<close>

datatype batch_op = BInsert bytes bytes | BRemove bytes

record 't sled_ops =
  sl_get :: "bytes \<Rightarrow> 't \<Rightarrow> string + bytes option"
  sl_contains_key :: "bytes \<Rightarrow> 't \<Rightarrow> string + bool"
  sl_insert :: "bytes \<Rightarrow> bytes \<Rightarrow> 't \<Rightarrow> (string, bytes option, 't) st_result"
  sl_remove :: "bytes \<Rightarrow> 't \<Rightarrow> (string, bytes option, 't) st_result"
  sl_update_and_fetch :: "bytes \<Rightarrow> (bytes option \<Rightarrow> bytes option) \<Rightarrow> 't \<Rightarrow> (string, bytes option, 't) st_result"
  sl_range :: "bytes bound \<times> bytes bound \<Rightarrow> 't \<Rightarrow> (string + bytes \<times> bytes) list"
  sl_scan_prefix :: "bytes \<Rightarrow> 't \<Rightarrow> (string + bytes \<times> bytes) list"
  sl_iter :: "'t \<Rightarrow> (string + bytes \<times> bytes) list"
  sl_apply_batch :: "batch_op list \<Rightarrow> 't \<Rightarrow> (string, unit, 't) st_result"
  sl_flush :: "'t \<Rightarrow> string + unit"

text \<open>
  \<open>trait SledKeySpace\<close>: a prefix byte, a name and the serializers of its key and value types
  (\<open>SledOrderedSerde\<close> for keys, \<open>SledSerde\<close> for values).
\<close>

record ('k, 'v) key_space =
  PREFIX :: nat
  NAME :: string
  ser_key :: "'k \<Rightarrow> MetaStorageError + bytes"
  de_key :: "bytes \<Rightarrow> MetaStorageError + 'k"
  serialize_value :: "'v \<Rightarrow> MetaStorageError + bytes"
  deserialize_value :: "bytes \<Rightarrow> MetaStorageError + 'v"

record 't SledTree =
  tree_name :: string
  tree_sync :: bool
  tree :: 't


section \<open>Keys and ranges as bytes\<close>

definition serialize_key :: "('k, 'v) key_space \<Rightarrow> 'k \<Rightarrow> MetaStorageError + bytes" where
  "serialize_key KV k = try_res (ser_key KV k) (\<lambda>b. Inr (char_of (PREFIX KV) # b))"

definition deserialize_key :: "('k, 'v) key_space \<Rightarrow> bytes \<Rightarrow> MetaStorageError + 'k" where
  "deserialize_key KV iv = (case iv of
      [] \<Rightarrow> Inl (StoragePanic ''index out of bounds'')
    | b # bs \<Rightarrow> (if b \<noteq> char_of (PREFIX KV) then Inl (SledError ''invalid prefix'')
                 else de_key KV bs))"

fun serialize_bound :: "('k, 'v) key_space \<Rightarrow> 'k bound \<Rightarrow> string \<Rightarrow> MetaStorageError + bytes bound" where
  "serialize_bound KV (Included v) dir = try_res (serialize_key KV v) (\<lambda>b. Inr (Included b))"
| "serialize_bound KV (Excluded v) dir = try_res (serialize_key KV v) (\<lambda>b. Inr (Excluded b))"
| "serialize_bound KV Unbounded dir =
     (if dir = ''left'' then Inr (Included [char_of (PREFIX KV)])
      else Inr (Excluded [char_of (PREFIX KV + 1)]))"

definition serialize_range ::
  "('k, 'v) key_space \<Rightarrow> 'k bound \<times> 'k bound \<Rightarrow> MetaStorageError + bytes bound \<times> bytes bound" where
  "serialize_range KV rng =
     try_res (serialize_bound KV (fst rng) ''left'') (\<lambda>s.
     try_res (serialize_bound KV (snd rng) ''right'') (\<lambda>e. Inr (s, e)))"


section \<open>Operations on a tree\<close>

text \<open>\<open>.context(...)?\<close> on a result of sled: its error becomes a \<open>SledError\<close>.\<close>

definition sled_context :: "string + 'a \<Rightarrow> MetaStorageError + 'a" where
  "sled_context r = (case r of Inl e \<Rightarrow> Inl (SledError e) | Inr a \<Rightarrow> Inr a)"

definition opt_value :: "('k, 'v) key_space \<Rightarrow> bytes option \<Rightarrow> MetaStorageError + 'v option" where
  "opt_value KV ov = (case ov of
      None \<Rightarrow> Inr None
    | Some v \<Rightarrow> try_res (deserialize_value KV v) (\<lambda>x. Inr (Some x)))"

definition de_item :: "('k, 'v) key_space \<Rightarrow> string + bytes \<times> bytes \<Rightarrow> MetaStorageError + 'k \<times> 'v" where
  "de_item KV item =
     try_res (sled_context item) (\<lambda>(k, v).
     try_res (deserialize_key KV k) (\<lambda>ky.
     try_res (deserialize_value KV v) (\<lambda>value. Inr (ky, value))))"

definition flush_async :: "'t sled_ops \<Rightarrow> bool \<Rightarrow> 't SledTree \<Rightarrow> MetaStorageError + unit" where
  "flush_async ops flush t =
     (if flush \<and> tree_sync t then sled_context (sl_flush ops (tree t)) else Inr ())"

definition SledTree_export :: "'t sled_ops \<Rightarrow> 't SledTree \<Rightarrow> MetaStorageError + bytes list list" where
  "SledTree_export ops t =
     collect_res (\<lambda>rkv. try_res (sled_context rkv) (\<lambda>(k, v). Inr [k, v])) (sl_iter ops (tree t))"

definition SledTree_contains_key ::
  "'t sled_ops \<Rightarrow> ('k, 'v) key_space \<Rightarrow> 'k \<Rightarrow> 't SledTree \<Rightarrow> MetaStorageError + bool" where
  "SledTree_contains_key ops KV key t =
     try_res (serialize_key KV key) (\<lambda>k. sled_context (sl_contains_key ops k (tree t)))"

text \<open>The closure \<open>update_and_fetch\<close> gives to sled: a value that cannot be read or written is dropped.\<close>

definition update_closure ::
  "('k, 'v) key_space \<Rightarrow> ('v option \<Rightarrow> 'v option) \<Rightarrow> bytes option \<Rightarrow> bytes option" where
  "update_closure KV f old =
     (let new = (\<lambda>ov. case f ov of
            Some nv \<Rightarrow> (case serialize_value KV nv of Inr b \<Rightarrow> Some b | Inl _ \<Rightarrow> None)
          | None \<Rightarrow> None)
      in case old of
           Some b \<Rightarrow> (case deserialize_value KV b of Inr v \<Rightarrow> new (Some v) | Inl _ \<Rightarrow> None)
         | None \<Rightarrow> new None)"

definition SledTree_update_and_fetch ::
  "'t sled_ops \<Rightarrow> ('k, 'v) key_space \<Rightarrow> 'k \<Rightarrow> ('v option \<Rightarrow> 'v option) \<Rightarrow> 't SledTree
     \<Rightarrow> (MetaStorageError, 'v option, 't SledTree) st_result" where
  "SledTree_update_and_fetch ops KV key f t =
     (case serialize_key KV key of
        Inl e \<Rightarrow> (Inl e, t)
      | Inr k \<Rightarrow>
          (let (res, t') = sl_update_and_fetch ops k (update_closure KV f) (tree t);
               t1 = t\<lparr>tree := t'\<rparr>
           in (try_res (sled_context res) (\<lambda>res.
               try_res (flush_async ops True t1) (\<lambda>_. opt_value KV res)), t1)))"

definition SledTree_get ::
  "'t sled_ops \<Rightarrow> ('k, 'v) key_space \<Rightarrow> 'k \<Rightarrow> 't SledTree \<Rightarrow> MetaStorageError + 'v option" where
  "SledTree_get ops KV key t =
     try_res (serialize_key KV key) (\<lambda>k.
     try_res (sled_context (sl_get ops k (tree t))) (opt_value KV))"

definition SledTree_last ::
  "'t sled_ops \<Rightarrow> ('k, 'v) key_space \<Rightarrow> 't SledTree \<Rightarrow> MetaStorageError + ('k \<times> 'v) option" where
  "SledTree_last ops KV t =
     try_res (serialize_range KV (Unbounded, Unbounded)) (\<lambda>rng.
     case rev (sl_range ops rng (tree t)) of
       [] \<Rightarrow> Inr None
     | item # _ \<Rightarrow> try_res (de_item KV item) (\<lambda>kv. Inr (Some kv)))"

definition SledTree_remove ::
  "'t sled_ops \<Rightarrow> ('k, 'v) key_space \<Rightarrow> 'k \<Rightarrow> bool \<Rightarrow> 't SledTree
     \<Rightarrow> (MetaStorageError, 'v option, 't SledTree) st_result" where
  "SledTree_remove ops KV key flush t =
     (case serialize_key KV key of
        Inl e \<Rightarrow> (Inl e, t)
      | Inr k \<Rightarrow>
          (let (removed, t') = sl_remove ops k (tree t);
               t1 = t\<lparr>tree := t'\<rparr>
           in (try_res (sled_context removed) (\<lambda>removed.
               try_res (flush_async ops flush t1) (\<lambda>_. opt_value KV removed)), t1)))"

definition SledTree_range_remove ::
  "'t sled_ops \<Rightarrow> ('k, 'v) key_space \<Rightarrow> 'k bound \<times> 'k bound \<Rightarrow> bool \<Rightarrow> 't SledTree
     \<Rightarrow> (MetaStorageError, unit, 't SledTree) st_result" where
  "SledTree_range_remove ops KV rng flush t =
     (case try_res (serialize_range KV rng) (\<lambda>r.
             collect_res (\<lambda>item. try_res (sled_context item) (\<lambda>(k, _). Inr (BRemove k)))
               (sl_range ops r (tree t))) of
        Inl e \<Rightarrow> (Inl e, t)
      | Inr batch \<Rightarrow>
          (let (res, t') = sl_apply_batch ops batch (tree t);
               t1 = t\<lparr>tree := t'\<rparr>
           in (try_res (sled_context res) (\<lambda>_. flush_async ops flush t1), t1)))"

definition SledTree_range_keys ::
  "'t sled_ops \<Rightarrow> ('k, 'v) key_space \<Rightarrow> 'k bound \<times> 'k bound \<Rightarrow> 't SledTree \<Rightarrow> MetaStorageError + 'k list" where
  "SledTree_range_keys ops KV rng t =
     try_res (serialize_range KV rng) (\<lambda>r.
     collect_res (\<lambda>item. try_res (sled_context item) (\<lambda>(k, _). deserialize_key KV k))
       (sl_range ops r (tree t)))"

definition SledTree_range_kvs ::
  "'t sled_ops \<Rightarrow> ('k, 'v) key_space \<Rightarrow> 'k bound \<times> 'k bound \<Rightarrow> 't SledTree
     \<Rightarrow> MetaStorageError + ('k \<times> 'v) list" where
  "SledTree_range_kvs ops KV rng t =
     try_res (serialize_range KV rng) (\<lambda>r. collect_res (de_item KV) (sl_range ops r (tree t)))"

text \<open>\<open>range\<close> returns a lazy iterator of results: the list of them.\<close>

definition SledTree_range ::
  "'t sled_ops \<Rightarrow> ('k, 'v) key_space \<Rightarrow> 'k bound \<times> 'k bound \<Rightarrow> 't SledTree
     \<Rightarrow> MetaStorageError + (MetaStorageError + 'k \<times> 'v) list" where
  "SledTree_range ops KV rng t =
     try_res (serialize_range KV rng) (\<lambda>r. Inr (map (de_item KV) (sl_range ops r (tree t))))"

definition SledTree_scan_prefix ::
  "'t sled_ops \<Rightarrow> ('k, 'v) key_space \<Rightarrow> 'k \<Rightarrow> 't SledTree \<Rightarrow> MetaStorageError + ('k \<times> 'v) list" where
  "SledTree_scan_prefix ops KV pre t =
     try_res (serialize_key KV pre) (\<lambda>pref. collect_res (de_item KV) (sl_scan_prefix ops pref (tree t)))"

definition SledTree_range_values ::
  "'t sled_ops \<Rightarrow> ('k, 'v) key_space \<Rightarrow> 'k bound \<times> 'k bound \<Rightarrow> 't SledTree \<Rightarrow> MetaStorageError + 'v list" where
  "SledTree_range_values ops KV rng t =
     try_res (serialize_range KV rng) (\<lambda>r.
     collect_res (\<lambda>item. try_res (sled_context item) (\<lambda>(_, v). deserialize_value KV v))
       (sl_range ops r (tree t)))"

definition kv_item :: "('k, 'v) key_space \<Rightarrow> 'k \<times> 'v \<Rightarrow> MetaStorageError + batch_op" where
  "kv_item KV kv =
     try_res (serialize_key KV (fst kv)) (\<lambda>k.
     try_res (serialize_value KV (snd kv)) (\<lambda>v. Inr (BInsert k v)))"

definition SledTree_append ::
  "'t sled_ops \<Rightarrow> ('k, 'v) key_space \<Rightarrow> ('k \<times> 'v) list \<Rightarrow> 't SledTree
     \<Rightarrow> (MetaStorageError, unit, 't SledTree) st_result" where
  "SledTree_append ops KV kvs t =
     (case collect_res (kv_item KV) kvs of
        Inl e \<Rightarrow> (Inl e, t)
      | Inr batch \<Rightarrow>
          (let (res, t') = sl_apply_batch ops batch (tree t);
               t1 = t\<lparr>tree := t'\<rparr>
           in (try_res (sled_context res) (\<lambda>_. flush_async ops True t1), t1)))"

text \<open>\<open>append_values\<close>: \<open>to_key\<close> is the \<open>SledValueToKey\<close> of the value type.\<close>

definition SledTree_append_values ::
  "'t sled_ops \<Rightarrow> ('k, 'v) key_space \<Rightarrow> ('v \<Rightarrow> 'k) \<Rightarrow> 'v list \<Rightarrow> 't SledTree
     \<Rightarrow> (MetaStorageError, unit, 't SledTree) st_result" where
  "SledTree_append_values ops KV to_key values t =
     (case collect_res (kv_item KV) (map (\<lambda>v. (to_key v, v)) values) of
        Inl e \<Rightarrow> (Inl e, t)
      | Inr batch \<Rightarrow>
          (let (res, t') = sl_apply_batch ops batch (tree t);
               t1 = t\<lparr>tree := t'\<rparr>
           in (try_res (sled_context res) (\<lambda>_. flush_async ops True t1), t1)))"

definition SledTree_insert ::
  "'t sled_ops \<Rightarrow> ('k, 'v) key_space \<Rightarrow> 'k \<Rightarrow> 'v \<Rightarrow> 't SledTree
     \<Rightarrow> (MetaStorageError, 'v option, 't SledTree) st_result" where
  "SledTree_insert ops KV key value t =
     (case try_res (serialize_key KV key) (\<lambda>k.
           try_res (serialize_value KV value) (\<lambda>v. Inr (k, v))) of
        Inl e \<Rightarrow> (Inl e, t)
      | Inr (k, v) \<Rightarrow>
          (let (prev, t') = sl_insert ops k v (tree t);
               t1 = t\<lparr>tree := t'\<rparr>
           in (try_res (sled_context prev) (\<lambda>prev.
               try_res (opt_value KV prev) (\<lambda>prev.
               try_res (flush_async ops True t1) (\<lambda>_. Inr prev))), t1)))"

definition SledTree_insert_value ::
  "'t sled_ops \<Rightarrow> ('k, 'v) key_space \<Rightarrow> ('v \<Rightarrow> 'k) \<Rightarrow> 'v \<Rightarrow> 't SledTree
     \<Rightarrow> (MetaStorageError, 'v option, 't SledTree) st_result" where
  "SledTree_insert_value ops KV to_key value t = SledTree_insert ops KV (to_key value) value t"



section \<open>Transactions\<close>

text \<open>
  Inside a transaction the calls of sled fail with a storage error or with a conflict
  (\<open>UnabortableTransactionError\<close>), on which sled runs the closure again. A transactional tree
  is the tree the closure has changed so far.
\<close>

datatype txn_error = Storage string | Conflict

fun MetaStorageError_from_txn :: "txn_error \<Rightarrow> MetaStorageError" where
  "MetaStorageError_from_txn (Storage e) = SledError e"
| "MetaStorageError_from_txn Conflict = TransactionConflict"

record 't txn_ops =
  tx_get :: "bytes \<Rightarrow> 't \<Rightarrow> txn_error + bytes option"
  tx_insert :: "bytes \<Rightarrow> bytes \<Rightarrow> 't \<Rightarrow> (txn_error, bytes option, 't) st_result"
  tx_remove :: "bytes \<Rightarrow> 't \<Rightarrow> (txn_error, bytes option, 't) st_result"

definition txn_context :: "txn_error + 'a \<Rightarrow> MetaStorageError + 'a" where
  "txn_context r = (case r of Inl e \<Rightarrow> Inl (MetaStorageError_from_txn e) | Inr a \<Rightarrow> Inr a)"

definition AsTxnKeySpace_insert ::
  "'t txn_ops \<Rightarrow> ('k, 'v) key_space \<Rightarrow> 'k \<Rightarrow> 'v \<Rightarrow> 't \<Rightarrow> (MetaStorageError, 'v option, 't) st_result" where
  "AsTxnKeySpace_insert ops KV key value t =
     (case try_res (serialize_key KV key) (\<lambda>k.
           try_res (serialize_value KV value) (\<lambda>v. Inr (k, v))) of
        Inl e \<Rightarrow> (Inl e, t)
      | Inr (k, v) \<Rightarrow>
          (let (prev, t') = tx_insert ops k v t
           in (try_res (txn_context prev) (opt_value KV), t')))"

definition AsTxnKeySpace_get ::
  "'t txn_ops \<Rightarrow> ('k, 'v) key_space \<Rightarrow> 'k \<Rightarrow> 't \<Rightarrow> MetaStorageError + 'v option" where
  "AsTxnKeySpace_get ops KV key t =
     try_res (serialize_key KV key) (\<lambda>k. try_res (txn_context (tx_get ops k t)) (opt_value KV))"

definition AsTxnKeySpace_remove ::
  "'t txn_ops \<Rightarrow> ('k, 'v) key_space \<Rightarrow> 'k \<Rightarrow> 't \<Rightarrow> (MetaStorageError, 'v option, 't) st_result" where
  "AsTxnKeySpace_remove ops KV key t =
     (case serialize_key KV key of
        Inl e \<Rightarrow> (Inl e, t)
      | Inr k \<Rightarrow>
          (let (removed, t') = tx_remove ops k t
           in (try_res (txn_context removed) (opt_value KV), t')))"

definition AsTxnKeySpace_update_and_fetch ::
  "'t txn_ops \<Rightarrow> ('k, 'v) key_space \<Rightarrow> 'k \<Rightarrow> ('v option \<Rightarrow> 'v option) \<Rightarrow> 't
     \<Rightarrow> (MetaStorageError, 'v option, 't) st_result" where
  "AsTxnKeySpace_update_and_fetch ops KV key f t =
     (case try_res (serialize_key KV key) (\<lambda>k.
           try_res (txn_context (tx_get ops k t)) (\<lambda>old.
           try_res (opt_value KV old) (\<lambda>old_val. Inr (k, old_val)))) of
        Inl e \<Rightarrow> (Inl e, t)
      | Inr (k, old_val) \<Rightarrow>
          (case f old_val of
             Some v \<Rightarrow>
               (case serialize_value KV v of
                  Inl e \<Rightarrow> (Inl e, t)
                | Inr b \<Rightarrow> (let (r, t') = tx_insert ops k b t
                            in (try_res (txn_context r) (\<lambda>_. Inr (Some v)), t')))
           | None \<Rightarrow> (let (r, t') = tx_remove ops k t
                      in (try_res (txn_context r) (\<lambda>_. Inr None), t'))))"

text \<open>
  \<open>SledTree::txn\<close>: a closure that succeeds commits what it wrote; one that fails with a
  conflict is run again on the tree as it was; any other error aborts, and the tree is as it
  was. \<open>f\<close> is told how often it has been run, so that a conflict may go away.
\<close>

fun SledTree_txn ::
  "nat \<Rightarrow> (nat \<Rightarrow> 't \<Rightarrow> (MetaStorageError, 'a, 't) st_result) \<Rightarrow> 't \<Rightarrow> (MetaStorageError + 'a) option \<times> 't" where
  "SledTree_txn 0 f t = (None, t)"
| "SledTree_txn (Suc n) f t =
     (case f n t of
        (Inr r, t') \<Rightarrow> (Some (Inr r), t')
      | (Inl TransactionConflict, _) \<Rightarrow> SledTree_txn n f t
      | (Inl e, _) \<Rightarrow> (Some (Inl e), t))"



section \<open>What is relied on\<close>

fun batch_apply :: "batch_op list \<Rightarrow> (bytes, bytes) kspace \<Rightarrow> (bytes, bytes) kspace" where
  "batch_apply [] m = m"
| "batch_apply (BInsert k v # b) m = batch_apply b (ks_put k v m)"
| "batch_apply (BRemove k # b) m = batch_apply b (ks_del k m)"

text \<open>
  Sled as documented: an ordered map of bytes to bytes, here \<open>view t\<close>, whose iterators go
  through the entries in ascending order of their keys; no call fails.
\<close>

definition sled_laws :: "'t sled_ops \<Rightarrow> ('t \<Rightarrow> (bytes, bytes) kspace) \<Rightarrow> bool" where
  "sled_laws ops view \<longleftrightarrow>
     (\<forall>t. ks_wf (view t))
   \<and> (\<forall>k t. sl_get ops k t = Inr (ks_get (view t) k))
   \<and> (\<forall>k t. sl_contains_key ops k t = Inr (ks_get (view t) k \<noteq> None))
   \<and> (\<forall>k v t. fst (sl_insert ops k v t) = Inr (ks_get (view t) k)
              \<and> view (snd (sl_insert ops k v t)) = ks_put k v (view t))
   \<and> (\<forall>k t. fst (sl_remove ops k t) = Inr (ks_get (view t) k)
            \<and> view (snd (sl_remove ops k t)) = ks_del k (view t))
   \<and> (\<forall>k f t. fst (sl_update_and_fetch ops k f t) = Inr (f (ks_get (view t) k))
              \<and> view (snd (sl_update_and_fetch ops k f t)) = snd (ks_upd f k (view t)))
   \<and> (\<forall>r t. sl_range ops r t = map Inr (ks_range r (view t)))
   \<and> (\<forall>p t. sl_scan_prefix ops p t = map Inr (ks_scan_prefix p (view t)))
   \<and> (\<forall>t. sl_iter ops t = map Inr (view t))
   \<and> (\<forall>b t. fst (sl_apply_batch ops b t) = Inr ()
            \<and> view (snd (sl_apply_batch ops b t)) = batch_apply b (view t))
   \<and> (\<forall>t. sl_flush ops t = Inr ())"

text \<open>
  The serializers of a key space: every key that satisfies \<open>ok\<close> (a value of the Rust type, such
  as a string of well-formed UTF-8) and every value can be written and read back, the bytes of
  keys have the order of the keys, and there is a byte after the prefix.
\<close>

definition key_space_laws :: "('k::linorder, 'v) key_space \<Rightarrow> ('k \<Rightarrow> bool) \<Rightarrow> bool" where
  "key_space_laws KV ok \<longleftrightarrow> PREFIX KV < 255
   \<and> (\<forall>k. ok k \<longrightarrow> (\<exists>b. ser_key KV k = Inr b \<and> de_key KV b = Inr k))
   \<and> (\<forall>k k' b b'. ser_key KV k = Inr b \<longrightarrow> ser_key KV k' = Inr b' \<longrightarrow> (b < b') = (k < k'))
   \<and> (\<forall>v. \<exists>c. serialize_value KV v = Inr c \<and> deserialize_value KV c = Inr v)"

text \<open>The entries of a key space in the bytes of a tree, and a tree that holds a typed map.\<close>

definition res_or :: "'a \<Rightarrow> 'e + 'a \<Rightarrow> 'a" where
  "res_or d r = (case r of Inl _ \<Rightarrow> d | Inr a \<Rightarrow> a)"

definition key_bytes :: "('k, 'v) key_space \<Rightarrow> 'k \<Rightarrow> bytes" where
  "key_bytes KV k = char_of (PREFIX KV) # res_or [] (ser_key KV k)"

definition value_bytes :: "('k, 'v) key_space \<Rightarrow> 'v \<Rightarrow> bytes" where
  "value_bytes KV v = res_or [] (serialize_value KV v)"

definition own_key :: "('k, 'v) key_space \<Rightarrow> bytes \<Rightarrow> bool" where
  "own_key KV b \<longleftrightarrow> (case b of [] \<Rightarrow> False | c # _ \<Rightarrow> c = char_of (PREFIX KV))"

definition enc_map :: "('k, 'v) key_space \<Rightarrow> ('k, 'v) kspace \<Rightarrow> (bytes, bytes) kspace" where
  "enc_map KV m = map (\<lambda>(k, v). (key_bytes KV k, value_bytes KV v)) m"

definition holds_space ::
  "('k::linorder, 'v) key_space \<Rightarrow> ('k \<Rightarrow> bool) \<Rightarrow> (bytes, bytes) kspace \<Rightarrow> ('k, 'v) kspace \<Rightarrow> bool" where
  "holds_space KV ok raw m \<longleftrightarrow>
     filter (\<lambda>e. own_key KV (fst e)) raw = enc_map KV m \<and> list_all (\<lambda>e. ok (fst e)) m"

end
