(* ===== verification/Sled_Store_Laws.thy ===== *)
theory Sled_Store_Laws
  imports Sled_Store
begin

text \<open>
  The typed key spaces implement ordered maps: under \<open>sled_laws\<close> and \<open>key_space_laws\<close>, a read
  of a key space returns what the map it holds has, a write changes that map as it should and
  no map of a key space with another prefix.
\<close>

section \<open>Keys as bytes\<close>

lemma key_space_value:
  assumes "key_space_laws KV ok"
  shows "serialize_value KV v = Inr (value_bytes KV v)"
    and "deserialize_value KV (value_bytes KV v) = Inr v"
proof -
  obtain c where v: "serialize_value KV v = Inr c" "deserialize_value KV c = Inr v"
    using assms unfolding key_space_laws_def by metis
  show "serialize_value KV v = Inr (value_bytes KV v)" "deserialize_value KV (value_bytes KV v) = Inr v"
    by (simp_all add: value_bytes_def res_or_def v)
qed

lemma key_space_key:
  assumes "key_space_laws KV ok" and "ok k"
  shows "serialize_key KV k = Inr (key_bytes KV k)" and "deserialize_key KV (key_bytes KV k) = Inr k"
proof -
  obtain b where k: "ser_key KV k = Inr b" "de_key KV b = Inr k"
    using assms unfolding key_space_laws_def by metis
  show "serialize_key KV k = Inr (key_bytes KV k)" "deserialize_key KV (key_bytes KV k) = Inr k"
    by (simp_all add: serialize_key_def deserialize_key_def key_bytes_def res_or_def k)
qed

lemma key_bytes_less:
  assumes "key_space_laws KV ok" and "ok k" and "ok k'"
  shows "(key_bytes KV k < key_bytes KV k') = (k < k')"
proof -
  obtain b b' where k: "ser_key KV k = Inr b" "ser_key KV k' = Inr b'"
    using assms unfolding key_space_laws_def by metis
  have "(b < b') = (k < k')"
    using assms(1) k unfolding key_space_laws_def by blast
  then show ?thesis
    by (simp add: key_bytes_def res_or_def k)
qed

lemma key_bytes_order:
  assumes "key_space_laws KV ok" and "ok k" and "ok k'"
  shows "(key_bytes KV k \<le> key_bytes KV k') = (k \<le> k')" and "(key_bytes KV k = key_bytes KV k') = (k = k')"
proof -
  show "(key_bytes KV k \<le> key_bytes KV k') = (k \<le> k')"
    using key_bytes_less[OF assms(1,3,2)] not_less[of "key_bytes KV k'" "key_bytes KV k"]
      not_less[of k' k] by blast
  show "(key_bytes KV k = key_bytes KV k') = (k = k')"
    by (metis key_space_key(2)[OF assms(1,2)] key_space_key(2)[OF assms(1,3)] sum.inject(2))
qed

lemma own_key_bytes [simp]: "own_key KV (key_bytes KV k)"
  by (simp add: own_key_def key_bytes_def)

lemma own_key_bytes_other:
  assumes "key_space_laws KV ok" and "key_space_laws KV' ok'" and "PREFIX KV \<noteq> PREFIX KV'"
  shows "\<not> own_key KV' (key_bytes KV k)"
  using assms by (simp add: own_key_def key_bytes_def key_space_laws_def char_of_eq_iff take_bit_eq_mod)


section \<open>The map a tree holds\<close>

lemma enc_map_get:
  assumes "key_space_laws KV ok" and "ok k" and "list_all (\<lambda>e. ok (fst e)) m"
  shows "ks_get (enc_map KV m) (key_bytes KV k) = map_option (value_bytes KV) (ks_get m k)"
  using assms(3)
  by (induction m) (auto simp: enc_map_def ks_get_def key_bytes_order(2)[OF assms(1,2)])

lemma enc_map_put:
  assumes "key_space_laws KV ok" and "ok k" and "list_all (\<lambda>e. ok (fst e)) m"
  shows "enc_map KV (ks_put k v m) = ks_put (key_bytes KV k) (value_bytes KV v) (enc_map KV m)"
  using assms(3)
  by (induction m)
     (auto simp: enc_map_def key_bytes_order(2)[OF assms(1,2)] key_bytes_less[OF assms(1,2)])

lemma enc_map_del:
  assumes "key_space_laws KV ok" and "ok k" and "list_all (\<lambda>e. ok (fst e)) m"
  shows "enc_map KV (ks_del k m) = ks_del (key_bytes KV k) (enc_map KV m)"
  using assms(3)
  by (induction m) (auto simp: enc_map_def ks_del_def key_bytes_order(2)[OF assms(1) _ assms(2)])

lemma list_all_ks_put: "P (k, v) \<Longrightarrow> list_all P m \<Longrightarrow> list_all P (ks_put k v m)"
  using set_ks_put[of k v m] by (auto simp: list_all_iff)

lemma list_all_ks_del: "list_all P m \<Longrightarrow> list_all P (ks_del k m)"
  by (auto simp: list_all_iff ks_del_def)

lemma filter_own_put:
  assumes "ks_wf raw"
  shows "filter (\<lambda>e. own (fst e)) (ks_put b c raw) =
    (if own b then ks_put b c (filter (\<lambda>e. own (fst e)) raw) else filter (\<lambda>e. own (fst e)) raw)"
  by (rule ks_eq_iff_get)
     (use assms in \<open>auto simp: ks_get_filter_key intro!: ks_wf_filter ks_wf_put\<close>)

lemma filter_own_del:
  "filter (\<lambda>e. own (fst e)) (ks_del b raw) =
    (if own b then ks_del b (filter (\<lambda>e. own (fst e)) raw) else filter (\<lambda>e. own (fst e)) raw)"
  by (auto simp: ks_del_def intro: filter_cong)

lemma holds_get:
  assumes "key_space_laws KV ok" and "holds_space KV ok raw m" and "ok k"
  shows "ks_get raw (key_bytes KV k) = map_option (value_bytes KV) (ks_get m k)"
  using enc_map_get[OF assms(1,3), of m] assms(2)
    ks_get_filter_key[of "own_key KV" raw "key_bytes KV k"]
  by (simp add: holds_space_def)

lemma holds_put:
  assumes "key_space_laws KV ok" and "holds_space KV ok raw m" and "ok k" and "ks_wf raw"
  shows "holds_space KV ok (ks_put (key_bytes KV k) (value_bytes KV v) raw) (ks_put k v m)"
  using assms(2,3) enc_map_put[OF assms(1,3), of m v]
  by (simp add: holds_space_def filter_own_put[OF assms(4)] list_all_ks_put)

lemma holds_del:
  assumes "key_space_laws KV ok" and "holds_space KV ok raw m" and "ok k"
  shows "holds_space KV ok (ks_del (key_bytes KV k) raw) (ks_del k m)"
  using assms(2) enc_map_del[OF assms(1,3), of m]
  by (simp add: holds_space_def filter_own_del list_all_ks_del)

lemma holds_other:
  assumes "key_space_laws KV ok" and "key_space_laws KV' ok'" and "PREFIX KV \<noteq> PREFIX KV'"
    and "holds_space KV' ok' raw m"
  shows "ks_wf raw \<Longrightarrow> holds_space KV' ok' (ks_put (key_bytes KV k) c raw) m"
    and "holds_space KV' ok' (ks_del (key_bytes KV k) raw) m"
  using assms(4) own_key_bytes_other[OF assms(1-3), of k]
  by (simp_all add: holds_space_def filter_own_put filter_own_del)



section \<open>Ranges\<close>

definition bound_ok :: "('k \<Rightarrow> bool) \<Rightarrow> 'k bound \<Rightarrow> bool" where
  "bound_ok ok b = (case b of Included k \<Rightarrow> ok k | Excluded k \<Rightarrow> ok k | Unbounded \<Rightarrow> True)"

definition range_ok :: "('k \<Rightarrow> bool) \<Rightarrow> 'k bound \<times> 'k bound \<Rightarrow> bool" where
  "range_ok ok r \<longleftrightarrow> bound_ok ok (fst r) \<and> bound_ok ok (snd r)"

lemma serialize_left:
  assumes "key_space_laws KV ok" and "bound_ok ok lo"
  obtains L where "serialize_bound KV lo ''left'' = Inr L"
    and "\<And>k. ok k \<Longrightarrow> above L (key_bytes KV k) = above lo k"
    and "\<And>b. above L b \<Longrightarrow> \<exists>c s. b = c # s \<and> char_of (PREFIX KV) \<le> c"
proof (cases lo)
  case Unbounded
  have "above (Included [char_of (PREFIX KV)]) (key_bytes KV k)" for k
    by (simp add: key_bytes_def)
  moreover have "\<exists>c s. b = c # s \<and> char_of (PREFIX KV) \<le> c"
    if "above (Included [char_of (PREFIX KV)]) b" for b
    using that by (cases b) auto
  ultimately show thesis
    using Unbounded that[of "Included [char_of (PREFIX KV)]"] by simp
next
  case (Included k)
  then have "ok k" using assms(2) by (simp add: bound_ok_def)
  moreover have "\<exists>c s. b = c # s \<and> char_of (PREFIX KV) \<le> c" if "key_bytes KV k \<le> b" for b
    using that by (cases b) (auto simp: key_bytes_def)
  ultimately show thesis
    using Included that[of "Included (key_bytes KV k)"] key_space_key(1)[OF assms(1)]
      key_bytes_order(1)[OF assms(1)] by simp
next
  case (Excluded k)
  then have "ok k" using assms(2) by (simp add: bound_ok_def)
  moreover have "\<exists>c s. b = c # s \<and> char_of (PREFIX KV) \<le> c" if "key_bytes KV k < b" for b
    using that by (cases b) (auto simp: key_bytes_def)
  ultimately show thesis
    using Excluded that[of "Excluded (key_bytes KV k)"] key_space_key(1)[OF assms(1)]
      key_bytes_less[OF assms(1)] by simp
qed

lemma char_of_next:
  assumes "(n :: nat) < 255"
  shows "(c :: char) < char_of (n + 1) \<longleftrightarrow> c \<le> char_of n"
  using assms by (simp add: less_char_def less_eq_char_def take_bit_eq_mod less_Suc_eq_le)

lemma serialize_right:
  assumes "key_space_laws KV ok" and "bound_ok ok hi"
  obtains R where "serialize_bound KV hi ''right'' = Inr R"
    and "\<And>k. ok k \<Longrightarrow> below R (key_bytes KV k) = below hi k"
    and "\<And>c s. below R (c # s) \<Longrightarrow> c \<le> char_of (PREFIX KV)"
proof (cases hi)
  case Unbounded
  have p: "PREFIX KV < 255" using assms(1) by (simp add: key_space_laws_def)
  have "below (Excluded [char_of (PREFIX KV + 1)]) (c # s) \<longleftrightarrow> c \<le> char_of (PREFIX KV)" for c s
    using char_of_next[OF p, of c] by simp
  then show thesis
    using Unbounded by (intro that[of "Excluded [char_of (PREFIX KV + 1)]"]) (simp_all add: key_bytes_def)
next
  case (Included k)
  then have "ok k" using assms(2) by (simp add: bound_ok_def)
  moreover have "c \<le> char_of (PREFIX KV)" if "c # s \<le> key_bytes KV k" for c s
    using that by (auto simp: key_bytes_def)
  ultimately show thesis
    using Included that[of "Included (key_bytes KV k)"] key_space_key(1)[OF assms(1)]
      key_bytes_order(1)[OF assms(1)] by simp
next
  case (Excluded k)
  then have "ok k" using assms(2) by (simp add: bound_ok_def)
  moreover have "c \<le> char_of (PREFIX KV)" if "c # s < key_bytes KV k" for c s
    using that by (auto simp: key_bytes_def)
  ultimately show thesis
    using Excluded that[of "Excluded (key_bytes KV k)"] key_space_key(1)[OF assms(1)]
      key_bytes_less[OF assms(1)] by simp
qed

text \<open>A serialized range selects the keys of its own key space that the range has, and no other.\<close>

lemma serialize_range_own:
  assumes "key_space_laws KV ok" and "range_ok ok r"
  obtains R where "serialize_range KV r = Inr R"
    and "\<And>k. ok k \<Longrightarrow> in_range R (key_bytes KV k) = in_range r k"
    and "\<And>b. in_range R b \<Longrightarrow> own_key KV b"
proof -
  from assms(2) have lo: "bound_ok ok (fst r)" and hi: "bound_ok ok (snd r)"
    by (simp_all add: range_ok_def)
  obtain L where L: "serialize_bound KV (fst r) ''left'' = Inr L"
      "\<And>k. ok k \<Longrightarrow> above L (key_bytes KV k) = above (fst r) k"
      "\<And>b. above L b \<Longrightarrow> \<exists>c s. b = c # s \<and> char_of (PREFIX KV) \<le> c"
    by (rule serialize_left[OF assms(1) lo], rule that)
  obtain H where H: "serialize_bound KV (snd r) ''right'' = Inr H"
      "\<And>k. ok k \<Longrightarrow> below H (key_bytes KV k) = below (snd r) k"
      "\<And>c s. below H (c # s) \<Longrightarrow> c \<le> char_of (PREFIX KV)"
    by (rule serialize_right[OF assms(1) hi], rule that)
  show thesis
  proof (rule that[of "(L, H)"])
    show "serialize_range KV r = Inr (L, H)" by (simp add: serialize_range_def L H)
    show "in_range (L, H) (key_bytes KV k) = in_range r k" if "ok k" for k
      using that by (simp add: in_range_def L H)
    show "own_key KV b" if "in_range (L, H) b" for b
    proof -
      from that have "above L b" by (simp add: in_range_def)
      from L(3)[OF this] obtain c s where b: "b = c # s" "char_of (PREFIX KV) \<le> c" by blast
      with that H(3)[of c s] have "c \<le> char_of (PREFIX KV)" by (simp add: in_range_def)
      with b show ?thesis by (simp add: own_key_def)
    qed
  qed
qed

lemma holds_range:
  assumes "key_space_laws KV ok" and "holds_space KV ok raw m" and "range_ok ok r"
  obtains R where "serialize_range KV r = Inr R" and "ks_range R raw = enc_map KV (ks_range r m)"
    and "\<And>b. in_range R b \<Longrightarrow> own_key KV b"
proof -
  obtain R where R: "serialize_range KV r = Inr R"
      "\<And>k. ok k \<Longrightarrow> in_range R (key_bytes KV k) = in_range r k" "\<And>b. in_range R b \<Longrightarrow> own_key KV b"
    by (rule serialize_range_own[OF assms(1,3)], rule that)
  have holds_ok: "list_all (\<lambda>e. ok (fst e)) m" using assms(2) by (simp add: holds_space_def)
  have "ks_range R raw = filter (\<lambda>e. in_range R (fst e)) (filter (\<lambda>e. own_key KV (fst e)) raw)"
    using R(3) by (auto simp: ks_range_def intro: filter_cong)
  also have "\<dots> = filter (\<lambda>e. in_range R (fst e)) (enc_map KV m)"
    using assms(2) by (simp add: holds_space_def)
  also have "\<dots> = enc_map KV (ks_range r m)"
    using holds_ok R(2) by (induction m) (auto simp: enc_map_def ks_range_def)
  finally show thesis by (rule that[OF R(1) _ R(3)])
qed



section \<open>The operations of a tree\<close>

lemma sled_lawsD:
  assumes "sled_laws ops view"
  shows "ks_wf (view t)" and "sl_get ops k t = Inr (ks_get (view t) k)"
    and "sl_contains_key ops k t = Inr (ks_get (view t) k \<noteq> None)"
    and "fst (sl_insert ops k v t) = Inr (ks_get (view t) k)"
    and "view (snd (sl_insert ops k v t)) = ks_put k v (view t)"
    and "fst (sl_remove ops k t) = Inr (ks_get (view t) k)"
    and "view (snd (sl_remove ops k t)) = ks_del k (view t)"
    and "fst (sl_update_and_fetch ops k f t) = Inr (f (ks_get (view t) k))"
    and "view (snd (sl_update_and_fetch ops k f t)) = snd (ks_upd f k (view t))"
    and "sl_range ops r t = map Inr (ks_range r (view t))"
    and "sl_scan_prefix ops p t = map Inr (ks_scan_prefix p (view t))"
    and "sl_iter ops t = map Inr (view t)"
    and "fst (sl_apply_batch ops b t) = Inr ()"
    and "view (snd (sl_apply_batch ops b t)) = batch_apply b (view t)"
    and "sl_flush ops t = Inr ()"
  using assms by (simp_all add: sled_laws_def del: split_paired_All)

lemma sled_context_Inr [simp]: "sled_context (Inr a) = Inr a"
  by (simp add: sled_context_def)

lemma flush_ok: "sled_laws ops view \<Longrightarrow> flush_async ops flush t = Inr ()"
  by (simp add: flush_async_def sled_lawsD(15))

lemma opt_value_bytes:
  "key_space_laws KV ok \<Longrightarrow> opt_value KV (map_option (value_bytes KV) v) = Inr v"
  by (cases v) (simp_all add: opt_value_def key_space_value)

lemma de_item_bytes:
  "key_space_laws KV ok \<Longrightarrow> ok k \<Longrightarrow> de_item KV (Inr (key_bytes KV k, value_bytes KV v)) = Inr (k, v)"
  by (simp add: de_item_def key_space_key key_space_value)

lemma collect_items:
  assumes "key_space_laws KV ok" and "list_all (\<lambda>e. ok (fst e)) m"
  shows "collect_res (de_item KV) (map Inr (enc_map KV m)) = Inr m"
    and "collect_res (\<lambda>item. try_res (sled_context item) (\<lambda>(k, _). deserialize_key KV k))
           (map Inr (enc_map KV m)) = Inr (map fst m)"
    and "collect_res (\<lambda>item. try_res (sled_context item) (\<lambda>(_, v). deserialize_value KV v))
           (map Inr (enc_map KV m)) = Inr (map snd m)"
  using assms(2)
  by (induction m)
     (auto simp: enc_map_def de_item_bytes[OF assms(1)] key_space_key[OF assms(1)] key_space_value[OF assms(1)])

lemma list_all_ks_range: "list_all P m \<Longrightarrow> list_all P (ks_range r m)"
  by (auto simp: list_all_iff ks_range_def)

text \<open>
  C17: reading a typed key space. On a sled tree that holds the ordered map \<open>m\<close> in a key space,
  whatever else it holds, \<open>get\<close> and \<open>contains_key\<close> look the key up in \<open>m\<close>, the range reads
  return exactly the entries of \<open>m\<close> in the range, in ascending order of the keys, open ends
  included, and \<open>last\<close> returns the greatest entry; none of them fails or returns an entry of
  another key space.
\<close>

theorem SledTree_reads_refine:
  assumes "sled_laws ops view" and "key_space_laws KV ok"
    and "holds_space KV ok (view (tree t)) m" and "ok k" and "range_ok ok r"
  shows "SledTree_get ops KV k t = Inr (ks_get m k)
    \<and> SledTree_contains_key ops KV k t = Inr (ks_get m k \<noteq> None)
    \<and> SledTree_range_kvs ops KV r t = Inr (ks_range r m)
    \<and> SledTree_range_keys ops KV r t = Inr (map fst (ks_range r m))
    \<and> SledTree_range_values ops KV r t = Inr (map snd (ks_range r m))
    \<and> SledTree_last ops KV t = Inr (ks_last m)"
proof (intro conjI)
  have g: "ks_get (view (tree t)) (key_bytes KV k) = map_option (value_bytes KV) (ks_get m k)"
    by (rule holds_get[OF assms(2,3,4)])
  show "SledTree_get ops KV k t = Inr (ks_get m k)"
    by (simp add: SledTree_get_def key_space_key[OF assms(2,4)] sled_lawsD[OF assms(1)] g
        opt_value_bytes[OF assms(2)])
  show "SledTree_contains_key ops KV k t = Inr (ks_get m k \<noteq> None)"
    by (simp add: SledTree_contains_key_def key_space_key[OF assms(2,4)] sled_lawsD[OF assms(1)] g)
  obtain R where R: "serialize_range KV r = Inr R"
      "ks_range R (view (tree t)) = enc_map KV (ks_range r m)"
    by (rule holds_range[OF assms(2,3,5)], rule that)
  have "list_all (\<lambda>e. ok (fst e)) m" using assms(3) by (simp add: holds_space_def)
  note items = collect_items[OF assms(2) list_all_ks_range[OF this]]
  show "SledTree_range_kvs ops KV r t = Inr (ks_range r m)"
    by (simp add: SledTree_range_kvs_def R sled_lawsD(10)[OF assms(1)] items)
  show "SledTree_range_keys ops KV r t = Inr (map fst (ks_range r m))"
    by (simp add: SledTree_range_keys_def R sled_lawsD(10)[OF assms(1)] items)
  show "SledTree_range_values ops KV r t = Inr (map snd (ks_range r m))"
    by (simp add: SledTree_range_values_def R sled_lawsD(10)[OF assms(1)] items)
  have u: "range_ok ok (Unbounded, Unbounded)" by (simp add: range_ok_def bound_ok_def)
  obtain R0 where R0: "serialize_range KV (Unbounded, Unbounded) = Inr R0"
      "ks_range R0 (view (tree t)) = enc_map KV (ks_range (Unbounded, Unbounded) m)"
    by (rule holds_range[OF assms(2,3) u], rule that)
  have all: "ks_range (Unbounded, Unbounded) m' = m'" for m' :: "('b, 'c) kspace"
    by (simp add: ks_range_def in_range_def)
  show "SledTree_last ops KV t = Inr (ks_last m)"
  proof (cases m rule: rev_cases)
    case Nil
    then show ?thesis
      by (simp add: SledTree_last_def R0 all sled_lawsD(10)[OF assms(1)] enc_map_def ks_last_def)
  next
    case (snoc m' e)
    obtain k' v' where e: "e = (k', v')" by (cases e)
    have "ok k'" using assms(3) snoc e by (simp add: holds_space_def)
    then show ?thesis
      by (simp add: SledTree_last_def R0 all snoc e sled_lawsD(10)[OF assms(1)] enc_map_def
          ks_last_def de_item_bytes[OF assms(2)])
  qed
qed

lemma batch_apply_wf: "ks_wf m \<Longrightarrow> ks_wf (batch_apply b m)"
  by (induction b m rule: batch_apply.induct) auto

lemma collect_kv_items:
  assumes "key_space_laws KV ok" and "list_all (\<lambda>e. ok (fst e)) es"
  shows "collect_res (kv_item KV) es =
    Inr (map (\<lambda>e. BInsert (key_bytes KV (fst e)) (value_bytes KV (snd e))) es)"
  using assms(2)
  by (induction es) (auto simp: kv_item_def key_space_key[OF assms(1)] key_space_value[OF assms(1)])

lemma batch_insert_holds:
  assumes "key_space_laws KV ok" and "list_all (\<lambda>e. ok (fst e)) es" and "holds_space KV ok raw m"
    and "ks_wf raw"
  shows "holds_space KV ok
    (batch_apply (map (\<lambda>e. BInsert (key_bytes KV (fst e)) (value_bytes KV (snd e))) es) raw) (ks_append es m)"
  using assms(2-4)
proof (induction es arbitrary: raw m)
  case (Cons e es)
  then show ?case
    using holds_put[OF assms(1) Cons.prems(2) _ Cons.prems(3), of "fst e" "snd e"]
    by (cases e) (auto intro: ks_wf_put)
qed simp

lemma batch_remove_filter:
  "batch_apply (map BRemove bs) raw = filter (\<lambda>e. fst e \<notin> set bs) raw"
  by (induction bs arbitrary: raw) (auto simp: ks_del_def intro: filter_cong)

lemma range_batch_removes:
  "sled_laws ops view \<Longrightarrow>
   collect_res (\<lambda>item. try_res (sled_context item) (\<lambda>(k, _). Inr (BRemove k))) (sl_range ops R t)
     = (Inr (map BRemove (map fst (ks_range R (view t)))) :: MetaStorageError + _)"
  by (subst collect_res_Inr[where g = "\<lambda>item. BRemove (fst (projr item))"])
     (auto simp: sled_lawsD(10))

lemma holds_range_remove:
  assumes "key_space_laws KV ok" and "holds_space KV ok raw m" and "range_ok ok r" and "ks_wf raw"
    and "serialize_range KV r = Inr R"
  shows "holds_space KV ok (batch_apply (map BRemove (map fst (ks_range R raw))) raw) (ks_range_remove r m)"
proof -
  obtain R' where "serialize_range KV r = Inr R'"
      and i: "\<And>k. ok k \<Longrightarrow> in_range R' (key_bytes KV k) = in_range r k"
    by (rule serialize_range_own[OF assms(1,3)], rule that)
  with assms(5) have i: "\<And>k. ok k \<Longrightarrow> in_range R (key_bytes KV k) = in_range r k" by simp
  have ok: "list_all (\<lambda>e. ok (fst e)) m" and f: "filter (\<lambda>e. own_key KV (fst e)) raw = enc_map KV m"
    using assms(2) by (simp_all add: holds_space_def)
  have "batch_apply (map BRemove (map fst (ks_range R raw))) raw = filter (\<lambda>e. \<not> in_range R (fst e)) raw"
    unfolding batch_remove_filter by (auto simp: ks_range_def intro!: filter_cong)
  then have "filter (\<lambda>e. own_key KV (fst e)) (batch_apply (map BRemove (map fst (ks_range R raw))) raw)
      = filter (\<lambda>e. \<not> in_range R (fst e)) (enc_map KV m)"
    by (simp add: f[symmetric]) (rule filter_cong, auto)
  also have "\<dots> = enc_map KV (ks_range_remove r m)"
    using ok i by (induction m) (auto simp: enc_map_def ks_range_remove_def)
  finally show ?thesis
    using ok by (auto simp: holds_space_def list_all_iff ks_range_remove_def)
qed

text \<open>The conversion closure of \<open>update_and_fetch\<close> on encoded values.\<close>

lemma ks_upd_bytes:
  assumes "key_space_laws KV ok" and "holds_space KV ok raw m" and "ok k" and "ks_wf raw"
    and "\<And>v. g (map_option (value_bytes KV) v) = map_option (value_bytes KV) (f v)"
  shows "holds_space KV ok (snd (ks_upd g (key_bytes KV k) raw)) (snd (ks_upd f k m))"
  using holds_put[OF assms(1-4)] holds_del[OF assms(1-3)] assms(5)
  by (auto simp: ks_upd_def holds_get[OF assms(1-3)] split: option.splits)

lemma SledTree_writes:
  assumes "sled_laws ops view" and "key_space_laws KV ok"
    and "holds_space KV ok (view (tree t)) m" and "ok k" and "range_ok ok r"
    and "list_all (\<lambda>e. ok (fst e)) es"
  shows "fst (SledTree_insert ops KV k v t) = Inr (ks_get m k)
      \<and> holds_space KV ok (view (tree (snd (SledTree_insert ops KV k v t)))) (ks_put k v m)"
    and "fst (SledTree_remove ops KV k fl t) = Inr (ks_get m k)
      \<and> holds_space KV ok (view (tree (snd (SledTree_remove ops KV k fl t)))) (ks_del k m)"
    and "fst (SledTree_update_and_fetch ops KV k f t) = Inr (f (ks_get m k))
      \<and> holds_space KV ok (view (tree (snd (SledTree_update_and_fetch ops KV k f t)))) (snd (ks_upd f k m))"
    and "fst (SledTree_range_remove ops KV r fl t) = Inr ()
      \<and> holds_space KV ok (view (tree (snd (SledTree_range_remove ops KV r fl t)))) (ks_range_remove r m)"
    and "fst (SledTree_append ops KV es t) = Inr ()
      \<and> holds_space KV ok (view (tree (snd (SledTree_append ops KV es t)))) (ks_append es m)"
proof -
  note key = key_space_key[OF assms(2,4)] and val = key_space_value[OF assms(2)]
  note laws = sled_lawsD[OF assms(1)] and flush = flush_ok[OF assms(1)]
  have g: "ks_get (view (tree t)) (key_bytes KV k) = map_option (value_bytes KV) (ks_get m k)"
    by (rule holds_get[OF assms(2,3,4)])
  show "fst (SledTree_insert ops KV k v t) = Inr (ks_get m k)
      \<and> holds_space KV ok (view (tree (snd (SledTree_insert ops KV k v t)))) (ks_put k v m)"
    using holds_put[OF assms(2,3,4), of v]
    by (simp add: SledTree_insert_def key val laws flush g split_beta Let_def opt_value_bytes[OF assms(2)])
  show "fst (SledTree_remove ops KV k fl t) = Inr (ks_get m k)
      \<and> holds_space KV ok (view (tree (snd (SledTree_remove ops KV k fl t)))) (ks_del k m)"
    using holds_del[OF assms(2,3,4)]
    by (simp add: SledTree_remove_def key laws flush g split_beta Let_def opt_value_bytes[OF assms(2)])
  show "fst (SledTree_update_and_fetch ops KV k f t) = Inr (f (ks_get m k))
      \<and> holds_space KV ok (view (tree (snd (SledTree_update_and_fetch ops KV k f t)))) (snd (ks_upd f k m))"
  proof -
    have gv: "update_closure KV f (map_option (value_bytes KV) v) = map_option (value_bytes KV) (f v)" for v
      by (cases v; cases "f v") (simp_all add: update_closure_def val)
    show ?thesis
      using ks_upd_bytes[OF assms(2,3,4) laws(1), where g = "update_closure KV f" and f = f, OF gv]
      by (simp add: SledTree_update_and_fetch_def key laws flush g split_beta Let_def gv
          opt_value_bytes[OF assms(2)])
  qed
  obtain R where R: "serialize_range KV r = Inr R"
    by (rule serialize_range_own[OF assms(2,5)], rule that)
  show "fst (SledTree_range_remove ops KV r fl t) = Inr ()
      \<and> holds_space KV ok (view (tree (snd (SledTree_range_remove ops KV r fl t)))) (ks_range_remove r m)"
    using holds_range_remove[OF assms(2,3,5) laws(1) R]
    by (simp add: SledTree_range_remove_def R range_batch_removes[OF assms(1)] laws(13,14) flush split_beta Let_def
        del: map_map)
  show "fst (SledTree_append ops KV es t) = Inr ()
      \<and> holds_space KV ok (view (tree (snd (SledTree_append ops KV es t)))) (ks_append es m)"
    using batch_insert_holds[OF assms(2,6,3)]
    by (simp add: SledTree_append_def collect_kv_items[OF assms(2,6)] laws flush split_beta Let_def)
qed

text \<open>
  C16: writing a typed key space. On a sled tree that holds the ordered map \<open>m\<close> in a key space,
  \<open>insert\<close>, \<open>remove\<close>, \<open>update_and_fetch\<close>, \<open>range_remove\<close> and \<open>append\<close> succeed, return the
  previous (or the new) value as documented, and leave the tree holding the map that the
  operation makes of \<open>m\<close>.
\<close>

theorem SledTree_writes_refine:
  assumes "sled_laws ops view" and "key_space_laws KV ok"
    and "holds_space KV ok (view (tree t)) m" and "ok k" and "range_ok ok r"
    and "list_all (\<lambda>e. ok (fst e)) es"
  shows "(fst (SledTree_insert ops KV k v t) = Inr (ks_get m k)
      \<and> holds_space KV ok (view (tree (snd (SledTree_insert ops KV k v t)))) (ks_put k v m))
   \<and> (fst (SledTree_remove ops KV k fl t) = Inr (ks_get m k)
      \<and> holds_space KV ok (view (tree (snd (SledTree_remove ops KV k fl t)))) (ks_del k m))
   \<and> (fst (SledTree_update_and_fetch ops KV k f t) = Inr (f (ks_get m k))
      \<and> holds_space KV ok (view (tree (snd (SledTree_update_and_fetch ops KV k f t)))) (snd (ks_upd f k m)))
   \<and> (fst (SledTree_range_remove ops KV r fl t) = Inr ()
      \<and> holds_space KV ok (view (tree (snd (SledTree_range_remove ops KV r fl t)))) (ks_range_remove r m))
   \<and> (fst (SledTree_append ops KV es t) = Inr ()
      \<and> holds_space KV ok (view (tree (snd (SledTree_append ops KV es t)))) (ks_append es m))"
  using SledTree_writes[OF assms] by simp


section \<open>Key spaces do not interfere\<close>

lemma batch_other:
  assumes "\<And>op. op \<in> set b \<Longrightarrow> (case op of BInsert k _ \<Rightarrow> \<not> own_key KV k | BRemove k \<Rightarrow> \<not> own_key KV k)"
    and "holds_space KV ok raw m" and "ks_wf raw"
  shows "holds_space KV ok (batch_apply b raw) m"
  using assms
  by (induction b raw rule: batch_apply.induct)
     (fastforce simp: holds_space_def filter_own_put filter_own_del)+

lemma range_batch_other:
  assumes "key_space_laws KV ok" and "key_space_laws KV' ok'" and "PREFIX KV \<noteq> PREFIX KV'"
    and "range_ok ok r" and "serialize_range KV r = Inr R" and "op \<in> set (map BRemove (map fst (ks_range R raw)))"
  shows "case op of BInsert k _ \<Rightarrow> \<not> own_key KV' k | BRemove k \<Rightarrow> \<not> own_key KV' k"
proof -
  have "\<And>b. in_range R b \<Longrightarrow> own_key KV b"
    using serialize_range_own[OF assms(1,4)] assms(5) by (metis sum.inject(2))
  then obtain b where b: "op = BRemove b" "own_key KV b"
    using assms(6) by (auto simp: ks_range_def)
  then show ?thesis
    using assms(1-3) by (auto simp: own_key_def key_space_laws_def char_of_eq_iff take_bit_eq_mod
        split: list.splits)
qed

text \<open>
  C18: key spaces with different prefixes share a tree without interfering: whatever a write of
  one of them returns, and with open-ended ranges too, the tree holds the same map in the
  other key space as before.
\<close>

theorem key_spaces_isolated:
  assumes "sled_laws ops view" and "key_space_laws KV ok" and "key_space_laws KV' ok'"
    and "PREFIX KV \<noteq> PREFIX KV'" and "holds_space KV' ok' (view (tree t)) m'"
    and "ok k" and "range_ok ok r" and "list_all (\<lambda>e. ok (fst e)) es"
  shows "holds_space KV' ok' (view (tree (snd (SledTree_insert ops KV k v t)))) m'
    \<and> holds_space KV' ok' (view (tree (snd (SledTree_remove ops KV k fl t)))) m'
    \<and> holds_space KV' ok' (view (tree (snd (SledTree_update_and_fetch ops KV k f t)))) m'
    \<and> holds_space KV' ok' (view (tree (snd (SledTree_range_remove ops KV r fl t)))) m'
    \<and> holds_space KV' ok' (view (tree (snd (SledTree_append ops KV es t)))) m'"
proof (intro conjI)
  note key = key_space_key[OF assms(2,6)] and val = key_space_value[OF assms(2)]
  note laws = sled_lawsD[OF assms(1)] and other = holds_other[OF assms(2-5)]
  show "holds_space KV' ok' (view (tree (snd (SledTree_insert ops KV k v t)))) m'"
    by (simp add: SledTree_insert_def key val laws split_beta Let_def other)
  show "holds_space KV' ok' (view (tree (snd (SledTree_remove ops KV k fl t)))) m'"
    by (simp add: SledTree_remove_def key laws split_beta Let_def other)
  show "holds_space KV' ok' (view (tree (snd (SledTree_update_and_fetch ops KV k f t)))) m'"
    by (simp add: SledTree_update_and_fetch_def key laws split_beta Let_def other ks_upd_def
        split: option.splits)
  obtain R where R: "serialize_range KV r = Inr R"
    by (rule serialize_range_own[OF assms(2,7)], rule that)
  have "holds_space KV' ok' (batch_apply (map BRemove (map fst (ks_range R (view (tree t))))) (view (tree t))) m'"
    by (rule batch_other[OF range_batch_other[OF assms(2-4,7) R] assms(5) laws(1)])
  then show "holds_space KV' ok' (view (tree (snd (SledTree_range_remove ops KV r fl t)))) m'"
    by (simp add: SledTree_range_remove_def R range_batch_removes[OF assms(1)] laws(13,14)
        split_beta Let_def del: map_map)
  show "holds_space KV' ok' (view (tree (snd (SledTree_append ops KV es t)))) m'"
    by (auto simp: SledTree_append_def collect_kv_items[OF assms(2,8)] laws split_beta Let_def
        intro!: batch_other assms(5) own_key_bytes_other[OF assms(2-4)])
qed


section \<open>Transactions\<close>


end
