(* ===== verification/Sled_Instance.thy ===== *)
theory Sled_Instance
  imports Sled_Store_Laws Utf8
begin

text \<open>
  That what is relied on can hold: an ordered map in memory satisfies \<open>sled_laws\<close>, and a key
  space with big-endian 64 bit keys, and one with strings, satisfy \<open>key_space_laws\<close>. The
  witnesses of the theorems on the typed key spaces are stated with them.
\<close>

section \<open>A sled in memory\<close>

definition mem_view :: "(bytes, bytes) kspace \<Rightarrow> (bytes, bytes) kspace" where
  "mem_view t = ks_append t []"

definition mem_sled :: "(bytes, bytes) kspace sled_ops" where
  "mem_sled = \<lparr>
     sl_get = (\<lambda>k t. Inr (ks_get (mem_view t) k)),
     sl_contains_key = (\<lambda>k t. Inr (ks_get (mem_view t) k \<noteq> None)),
     sl_insert = (\<lambda>k v t. (Inr (ks_get (mem_view t) k), ks_put k v (mem_view t))),
     sl_remove = (\<lambda>k t. (Inr (ks_get (mem_view t) k), ks_del k (mem_view t))),
     sl_update_and_fetch = (\<lambda>k f t. (Inr (f (ks_get (mem_view t) k)), snd (ks_upd f k (mem_view t)))),
     sl_range = (\<lambda>r t. map Inr (ks_range r (mem_view t))),
     sl_scan_prefix = (\<lambda>p t. map Inr (ks_scan_prefix p (mem_view t))),
     sl_iter = (\<lambda>t. map Inr (mem_view t)),
     sl_apply_batch = (\<lambda>b t. (Inr (), batch_apply b (mem_view t))),
     sl_flush = (\<lambda>t. Inr ())\<rparr>"

lemma mem_view_wf: "ks_wf (mem_view t)"
  by (auto simp: mem_view_def)

lemma mem_view_id: "ks_wf t \<Longrightarrow> mem_view t = t"
proof (rule ks_eq_iff_get)
  assume wf: "ks_wf t"
  have "map_of (rev t) = map_of t"
    using ks_wf_distinct[OF wf] by (subst map_of_inject_set) (simp_all add: rev_map[symmetric])
  then show "ks_get (mem_view t) k = ks_get t k" for k
    by (simp add: mem_view_def ks_get_append ks_get_def[of t] split: option.splits)
qed (simp_all add: mem_view_wf)

lemma mem_sled_laws: "sled_laws mem_sled mem_view"
  by (simp add: sled_laws_def mem_sled_def mem_view_wf mem_view_id ks_wf_put ks_wf_del ks_wf_upd
      batch_apply_wf del: split_paired_All)


section \<open>Big-endian keys\<close>

fun be_bytes :: "nat \<Rightarrow> nat \<Rightarrow> bytes" where
  "be_bytes 0 x = []"
| "be_bytes (Suc n) x = char_of (x div 256 ^ n mod 256) # be_bytes n (x mod 256 ^ n)"

fun be_nat :: "bytes \<Rightarrow> nat" where
  "be_nat [] = 0"
| "be_nat (c # cs) = of_char c * 256 ^ length cs + be_nat cs"

lemma length_be_bytes [simp]: "length (be_bytes n x) = n"
  by (induction n arbitrary: x) simp_all

lemma be_nat_bytes: "x < 256 ^ n \<Longrightarrow> be_nat (be_bytes n x) = x"
proof (induction n arbitrary: x)
  case (Suc n)
  have "x div 256 ^ n < 256" using Suc.prems by (simp add: less_mult_imp_div_less mult.commute)
  then show ?case
    using Suc.IH[of "x mod 256 ^ n"] div_mult_mod_eq[of x "256 ^ n"] by (simp add: take_bit_eq_mod)
qed simp

lemma less_by_digits:
  assumes "0 < (d :: nat)"
  shows "x < y \<longleftrightarrow> x div d < y div d \<or> x div d = y div d \<and> x mod d < y mod d"
proof -
  consider "x div d < y div d" | "x div d = y div d" | "y div d < x div d" by linarith
  then show ?thesis
  proof cases
    case 2
    then show ?thesis by (metis div_mult_mod_eq less_irrefl nat_add_left_cancel_less)
  qed (use div_le_mono[of y x d] div_le_mono[of x y d] in linarith)+
qed

lemma be_bytes_less:
  "x < 256 ^ n \<Longrightarrow> y < 256 ^ n \<Longrightarrow> be_bytes n x < be_bytes n y \<longleftrightarrow> x < y"
proof (induction n arbitrary: x y)
  case (Suc n)
  let ?q = "\<lambda>z. z div 256 ^ n" and ?r = "\<lambda>z. z mod 256 ^ n"
  have q: "?q x < 256" "?q y < 256"
    using Suc.prems by (simp_all add: less_mult_imp_div_less mult.commute)
  have IH: "be_bytes n (?r x) < be_bytes n (?r y) \<longleftrightarrow> ?r x < ?r y" by (rule Suc.IH) simp_all
  have "x < y \<longleftrightarrow> ?q x < ?q y \<or> ?q x = ?q y \<and> ?r x < ?r y"
    by (rule less_by_digits) simp
  then show ?case
    using q IH by (simp add: less_char_def take_bit_eq_mod char_of_eq_iff)
qed simp

definition be64 :: "u64 \<Rightarrow> bytes" where
  "be64 w = be_bytes 8 (unat w)"

definition be64_read :: "bytes \<Rightarrow> u64" where
  "be64_read b = of_nat (be_nat (take 8 b))"

lemma unat_u64_256: "unat (w :: u64) < 256 ^ 8"
  using unsigned_less[of w] by simp

lemma be64_round_trip: "be64_read (be64 w) = w"
  by (simp add: be64_read_def be64_def be_nat_bytes[OF unat_u64_256])

lemma be64_less: "be64 w < be64 w' \<longleftrightarrow> w < w'"
  by (simp add: be64_def be_bytes_less[OF unat_u64_256 unat_u64_256] word_less_nat_alt)

lemma length_be64: "length (be64 w) = 8"
  by (simp add: be64_def)



section \<open>Key spaces\<close>

definition demo_log_space :: "(u64, bytes) key_space" where
  "demo_log_space = \<lparr>PREFIX = 1, NAME = ''log'',
     ser_key = (\<lambda>k. Inr (be64 k)), de_key = (\<lambda>b. Inr (be64_read b)),
     serialize_value = Inr, deserialize_value = Inr\<rparr>"

definition demo_kv_space :: "(string, bytes) key_space" where
  "demo_kv_space = \<lparr>PREFIX = 6, NAME = ''generic-kv'',
     ser_key = Inr, de_key = (\<lambda>b. if valid_utf8 b then Inr b else Inl (BytesError ''utf8'')),
     serialize_value = Inr, deserialize_value = Inr\<rparr>"

lemma demo_log_space_laws: "key_space_laws demo_log_space (\<lambda>_. True)"
  by (simp add: key_space_laws_def demo_log_space_def be64_round_trip be64_less)

lemma demo_kv_space_laws: "key_space_laws demo_kv_space valid_utf8"
  by (simp add: key_space_laws_def demo_kv_space_def)

definition demo_tree :: "(bytes, bytes) kspace SledTree" where
  "demo_tree = \<lparr>tree_name = ''t'', tree_sync = True,
     tree = [(char_of (1 :: nat) # be64 3, ''x''), (char_of (1 :: nat) # be64 256, ''y''),
             (char_of (6 :: nat) # ''k'', ''v'')]\<rparr>"

lemma demo_tree_wf: "mem_view (tree demo_tree) = tree demo_tree"
  by (rule mem_view_id) (simp add: demo_tree_def ks_wf_Cons be64_less less_char_def take_bit_eq_mod)

lemma demo_tree_holds:
  "holds_space demo_log_space (\<lambda>_. True) (mem_view (tree demo_tree)) [(3, ''x''), (256, ''y'')]"
  "holds_space demo_kv_space valid_utf8 (mem_view (tree demo_tree)) [(''k'', ''v'')]"
  unfolding demo_tree_wf
  by (simp_all add: demo_tree_def holds_space_def own_key_def demo_log_space_def demo_kv_space_def
      enc_map_def key_bytes_def value_bytes_def res_or_def char_of_eq_iff take_bit_eq_mod)

theorem SledTree_reads_refine_witness:
  "SledTree_get mem_sled demo_log_space 256 demo_tree = Inr (Some ''y'')
   \<and> SledTree_range_kvs mem_sled demo_log_space (Excluded 3, Unbounded) demo_tree = Inr [(256, ''y'')]
   \<and> SledTree_last mem_sled demo_log_space demo_tree = Inr (Some (256, ''y''))"
  using SledTree_reads_refine[OF mem_sled_laws demo_log_space_laws demo_tree_holds(1),
      where k = 256 and r = "(Excluded 3, Unbounded)"]
  by (simp add: range_ok_def bound_ok_def ks_get_def ks_range_def in_range_def ks_last_def)

theorem SledTree_writes_refine_witness:
  "holds_space demo_log_space (\<lambda>_. True)
     (mem_view (tree (snd (SledTree_insert mem_sled demo_log_space 7 ''z'' demo_tree))))
     [(3, ''x''), (7, ''z''), (256, ''y'')]
   \<and> holds_space demo_log_space (\<lambda>_. True)
     (mem_view (tree (snd (SledTree_range_remove mem_sled demo_log_space (Included 4, Unbounded) True demo_tree))))
     [(3, ''x'')]"
  using SledTree_writes_refine[OF mem_sled_laws demo_log_space_laws demo_tree_holds(1),
      where k = 7 and v = "''z''" and r = "(Included 4, Unbounded)" and fl = True and es = "[]"]
  by (simp add: range_ok_def bound_ok_def ks_range_remove_def in_range_def)

theorem key_spaces_isolated_witness:
  "holds_space demo_kv_space valid_utf8
     (mem_view (tree (snd (SledTree_range_remove mem_sled demo_log_space (Unbounded, Unbounded) True demo_tree))))
     [(''k'', ''v'')]"
  using key_spaces_isolated[OF mem_sled_laws demo_log_space_laws demo_kv_space_laws _ demo_tree_holds(2),
      where k = 0 and r = "(Unbounded, Unbounded)" and fl = True and es = "[]"]
  by (simp add: range_ok_def bound_ok_def demo_log_space_def demo_kv_space_def)


end
