(* ===== verification/KV_Api.thy ===== *)
theory KV_Api
  imports State_Machine_Laws
begin

text \<open>
  \<open>trait KVApi\<close>, the interface the schema and the management layers are written against: a
  record of operations over a store state, the locale of what it promises, and its
  implementation by the state machine (\<open>sm_kv_api_impl.rs\<close>) as an interpretation of that
  locale. The promises are for a store in which nothing expires.
\<close>

section \<open>The interface\<close>

record 's kv_api =
  api_upsert_kv :: "UpsertKVAction \<Rightarrow> 's \<Rightarrow> (MetaError, bytes Change, 's) st_result"
  api_get_kv :: "string \<Rightarrow> 's \<Rightarrow> (MetaError, bytes SeqV option, 's) st_result"
  api_mget_kv :: "string list \<Rightarrow> 's \<Rightarrow> (MetaError, bytes SeqV option list, 's) st_result"
  api_prefix_list_kv :: "string \<Rightarrow> 's \<Rightarrow> (MetaError, (string \<times> bytes SeqV) list, 's) st_result"
  api_transaction :: "TxnRequest \<Rightarrow> 's \<Rightarrow> (MetaError, TxnReply, 's) st_result"

text \<open>What the operations mean on the records a client can see.\<close>

type_synonym kv_view = "string \<Rightarrow> bytes SeqV option"

definition view_data :: "kv_view \<Rightarrow> string \<Rightarrow> bytes option" where
  "view_data m k = map_option sv_data (m k)"

definition upsert_spec :: "u64 \<Rightarrow> UpsertKVAction \<Rightarrow> kv_view \<Rightarrow> bytes SeqV option \<times> kv_view" where
  "upsert_spec last_seq act m =
     (let k = up_key act; store = (\<lambda>v. (Some v, m(k \<mapsto> v)))
      in if \<not> is_ok (match_seq_opt (up_seq act) (m k)) then (m k, m)
         else case up_value act of
                Update d \<Rightarrow> store (with_meta (last_seq + 1) (up_value_meta act) d)
              | Delete \<Rightarrow> (None, m(k := None))
              | AsIs \<Rightarrow> (case m k of
                  None \<Rightarrow> (None, m)
                | Some p \<Rightarrow> store (p\<lparr>sv_meta := up_value_meta act, sv_seq := last_seq + 1\<rparr>)))"

definition cond_spec :: "kv_view \<Rightarrow> TxnCondition \<Rightarrow> bool" where
  "cond_spec m c =
     (case tc_target c of
        Some (Target_Seq n) \<Rightarrow> return_seq_condition_result (tc_expected c) n
                                 (case m (tc_key c) of None \<Rightarrow> SeqV_default | Some v \<Rightarrow> v)
      | Some (Target_Value d) \<Rightarrow> (case m (tc_key c) of
            Some v \<Rightarrow> return_value_condition_result (tc_expected c) d v
          | None \<Rightarrow> False)
      | None \<Rightarrow> False)"

definition txn_ops_run :: "TxnRequest \<Rightarrow> kv_view \<Rightarrow> TxnOp list" where
  "txn_ops_run txn m = (if list_all (cond_spec m) (txn_condition txn) then txn_if_then txn else txn_else_then txn)"

fun op_writes :: "TxnOp \<Rightarrow> string option" where
  "op_writes (Some (Req_Put put)) = Some (put_key put)"
| "op_writes (Some (Req_Delete del)) = Some (del_key del)"
| "op_writes _ = None"

text \<open>
  The contract: \<open>view s\<close> are the records of the store, \<open>last_seq s\<close> the last sequence number drawn.
  Reads see the records; \<open>upsert_kv\<close> does what \<open>upsert_spec\<close> says; a transaction runs the branch
  its conditions choose, the records it leaves are old ones or carry a new number, and records
  it does not write stay.
\<close>

locale KVApi =
  fixes api :: "'s kv_api" and view :: "'s \<Rightarrow> kv_view" and last_seq :: "'s \<Rightarrow> u64" and invar :: "'s \<Rightarrow> bool"
  assumes seq_pos: "invar s \<Longrightarrow> view s k = Some v \<Longrightarrow> 0 < sv_seq v \<and> sv_seq v \<le> last_seq s"
    and seq_inj: "invar s \<Longrightarrow> view s k = Some v \<Longrightarrow> view s k' = Some v' \<Longrightarrow> sv_seq v = sv_seq v' \<Longrightarrow> k = k'"
    and get_kv: "invar s \<Longrightarrow> api_get_kv api k s = (Inr (view s k), s)"
    and mget_kv: "invar s \<Longrightarrow> api_mget_kv api ks s = (Inr (map (view s) ks), s)"
    and prefix_list_kv: "invar s \<Longrightarrow> \<exists>l. api_prefix_list_kv api p s = (Inr l, s) \<and> sorted_wrt (<) (map fst l)
          \<and> (\<forall>k v. (k, v) \<in> set l \<longleftrightarrow> prefix p k \<and> view s k = Some v)"
    and upsert_kv: "invar s \<Longrightarrow> last_seq s \<noteq> - 1 \<Longrightarrow> Option.bind (up_value_meta act) expire_at = None \<Longrightarrow>
          \<exists>s'. api_upsert_kv api act s
                 = (Inr (Change_new (view s (up_key act)) (fst (upsert_spec (last_seq s) act (view s)))), s')
             \<and> view s' = snd (upsert_spec (last_seq s) act (view s)) \<and> invar s'
             \<and> (last_seq s' = last_seq s \<or> last_seq s' = last_seq s + 1)"
    and transaction: "invar s \<Longrightarrow> unat (last_seq s) + length (txn_ops_run txn (view s)) < 2 ^ 64 \<Longrightarrow>
          \<exists>resp s'. api_transaction api txn s = (Inr resp, s') \<and> tr_error resp = ''''
             \<and> tr_success resp = list_all (cond_spec (view s)) (txn_condition txn)
             \<and> view_data (view s') = fold txn_op_spec (txn_ops_run txn (view s)) (view_data (view s))
             \<and> (\<forall>k v. view s' k = Some v \<longrightarrow> view s k = Some v \<or> last_seq s < sv_seq v)
             \<and> invar s' \<and> last_seq s \<le> last_seq s' \<and> unat (last_seq s') \<le> unat (last_seq s) + length (txn_ops_run txn (view s))
             \<and> (\<forall>k. Some k \<notin> op_writes ` set (txn_ops_run txn (view s)) \<longrightarrow> view s' k = view s k)
             \<and> (\<forall>k v. Some k \<in> op_writes ` set (txn_ops_run txn (view s)) \<longrightarrow> view s' k = Some v \<longrightarrow> last_seq s < sv_seq v)"
begin

lemma upsert_kvE:
  assumes "invar s" and "last_seq s \<noteq> - 1" and "Option.bind (up_value_meta act) expire_at = None"
  obtains s' where "api_upsert_kv api act s
      = (Inr (Change_new (view s (up_key act)) (fst (upsert_spec (last_seq s) act (view s)))), s')"
    "view s' = snd (upsert_spec (last_seq s) act (view s))" "invar s'" "unat (last_seq s') \<le> Suc (unat (last_seq s))"
  using upsert_kv[OF assms] unat_u64_plus_one[OF assms(2)] by fastforce

lemma transactionE:
  assumes "invar s" and "unat (last_seq s) + length (txn_ops_run txn (view s)) < 2 ^ 64"
  obtains resp s' where "api_transaction api txn s = (Inr resp, s')" "tr_error resp = ''''"
    "tr_success resp = list_all (cond_spec (view s)) (txn_condition txn)"
    "view_data (view s') = fold txn_op_spec (txn_ops_run txn (view s)) (view_data (view s))"
    "\<And>k v. view s' k = Some v \<Longrightarrow> view s k = Some v \<or> last_seq s < sv_seq v"
    "invar s'" "last_seq s \<le> last_seq s'" "unat (last_seq s') \<le> unat (last_seq s) + length (txn_ops_run txn (view s))"
    "\<And>k. Some k \<notin> op_writes ` set (txn_ops_run txn (view s)) \<Longrightarrow> view s' k = view s k"
    "\<And>k v. Some k \<in> op_writes ` set (txn_ops_run txn (view s)) \<Longrightarrow> view s' k = Some v \<Longrightarrow> last_seq s < sv_seq v"
  using transaction[OF assms] by blast

text \<open>The condition the clients use: the sequence number of a record, 0 if there is none.\<close>

lemma cond_seq_eq_zero:
  "invar s \<Longrightarrow> cond_spec (view s) \<lparr>tc_key = k, tc_target = Some (Target_Seq 0), tc_expected = 0\<rparr>
     \<longleftrightarrow> view s k = None"
  using seq_pos[of s k]
  by (auto simp: cond_spec_def return_seq_condition_result_def ConditionResult_from_i32_def
      SeqV_default_def split: option.splits)

lemma cond_seq_eq_pos:
  "n \<noteq> 0 \<Longrightarrow> cond_spec m \<lparr>tc_key = k, tc_target = Some (Target_Seq n), tc_expected = 0\<rparr>
     \<longleftrightarrow> (\<exists>v. m k = Some v \<and> sv_seq v = n)"
  by (auto simp: cond_spec_def return_seq_condition_result_def ConditionResult_from_i32_def
      SeqV_default_def split: option.splits)

end


section \<open>The state machine as a KVApi\<close>

definition sm_upsert_kv ::
  "u64 \<Rightarrow> UpsertKVAction \<Rightarrow> 'mem state_machine \<Rightarrow> (MetaError, bytes Change, 'mem state_machine) st_result" where
  "sm_upsert_kv now act sm =
     (let c = UpsertKV (up_key act) (up_seq act) (up_value act) (up_value_meta act)
      in case apply_cmd now c sm of
           (AS_KV x, sm') \<Rightarrow> (Inr x, sm')
         | (_, sm') \<Rightarrow> (Inl (Panic ''expect AppliedState::KV''), sm'))"

definition sm_transaction ::
  "u64 \<Rightarrow> TxnRequest \<Rightarrow> 'mem state_machine \<Rightarrow> (MetaError, TxnReply, 'mem state_machine) st_result" where
  "sm_transaction now txn sm =
     (case apply_cmd now (Transaction txn) sm of
        (AS_TxnReply x, sm') \<Rightarrow> (Inr x, sm')
      | (_, sm') \<Rightarrow> (Inl (Panic ''expect AppliedState::TxnReply''), sm'))"

definition sm_get_kv ::
  "u64 \<Rightarrow> string \<Rightarrow> 'mem state_machine \<Rightarrow> (MetaError, bytes SeqV option, 'mem state_machine) st_result" where
  "sm_get_kv now k sm =
     (case ks_get (kvs sm) k of None \<Rightarrow> (Inr None, sm) | Some sv \<Rightarrow> (Inr (unexpired now sv), sm))"

definition sm_mget_kv ::
  "u64 \<Rightarrow> string list \<Rightarrow> 'mem state_machine \<Rightarrow> (MetaError, bytes SeqV option list, 'mem state_machine) st_result" where
  "sm_mget_kv now ks sm = (Inr (map (\<lambda>x. unexpired_opt now (ks_get (kvs sm) x)) ks), sm)"

definition sm_prefix_list_kv ::
  "u64 \<Rightarrow> string \<Rightarrow> 'mem state_machine
     \<Rightarrow> (MetaError, (string \<times> bytes SeqV) list, 'mem state_machine) st_result" where
  "sm_prefix_list_kv now p sm =
     (let x = ks_scan_prefix p (kvs sm);
          x = map (\<lambda>(k, v). (k, unexpired now v)) x;
          x = filter (\<lambda>(_, v). v \<noteq> None) x
      in (Inr (map (\<lambda>(k, v). (k, the v)) x), sm))"

definition sm_kv_api :: "u64 \<Rightarrow> 'mem state_machine kv_api" where
  "sm_kv_api now = \<lparr>api_upsert_kv = sm_upsert_kv now, api_get_kv = sm_get_kv now,
     api_mget_kv = sm_mget_kv now, api_prefix_list_kv = sm_prefix_list_kv now,
     api_transaction = sm_transaction now\<rparr>"

text \<open>The store in which nothing expires.\<close>

definition sm_ok :: "'mem state_machine \<Rightarrow> bool" where
  "sm_ok sm \<longleftrightarrow> kv_inv sm \<and> never_expires sm"

lemma sm_apply_cmd_ok:
  assumes "sm_ok sm" and "unat (kv_counter sm) + cmd_draws c < 2 ^ 64" and "cmd_never_expires c"
    and "apply_cmd now c sm = (r, sm')"
  shows "sm_ok sm'"
proof -
  have e: "kv_evolves (cmd_draws c) sm sm'"
    using kv_steps_evolves[OF apply_cmd_steps[OF assms(4)]] assms(1,2) by (simp add: sm_ok_def)
  have "never_expires sm'"
    using apply_cmd_never_expires[of sm c now now] assms by (simp add: sm_ok_def)
  with e show ?thesis by (auto simp: sm_ok_def kv_evolves_def)
qed

text \<open>The branch that runs decides how many sequence numbers a transaction draws.\<close>

lemma sm_cond_spec: "txn_execute_one_condition c sm = cond_spec (ks_get (kvs sm)) c"
  by (simp add: txn_execute_one_condition_def cond_spec_def Let_def split: option.splits Target.splits)

lemma sm_transaction_run:
  "apply_cmd now (Transaction txn) sm =
     (let ok = list_all (cond_spec (ks_get (kvs sm))) (txn_condition txn);
          (resp, sm') = txn_execute_operations now (txn_ops_run txn (ks_get (kvs sm)))
             \<lparr>tr_success = ok, tr_responses = [], tr_error = ''''\<rparr> sm
      in (AS_TxnReply resp, sm'))"
proof -
  have c: "txn_execute_condition cs sm = list_all (cond_spec (ks_get (kvs sm))) cs" for cs
    by (induction cs) (simp_all add: sm_cond_spec)
  show ?thesis by (simp add: apply_txn_cmd_def txn_ops_run_def c Let_def)
qed

lemma sm_get_kv_ok: "sm_ok sm \<Longrightarrow> sm_get_kv now k sm = (Inr (ks_get (kvs sm) k), sm)"
  using unexpired_opt_never[of sm now k]
  by (auto simp: sm_get_kv_def sm_ok_def unexpired_opt_def split: option.splits)

lemma sm_mget_kv_ok: "sm_ok sm \<Longrightarrow> sm_mget_kv now ks sm = (Inr (map (ks_get (kvs sm)) ks), sm)"
  by (simp add: sm_mget_kv_def sm_ok_def unexpired_opt_never)

lemma sm_prefix_list_kv_ok:
  assumes "sm_ok sm"
  shows "sm_prefix_list_kv now p sm = (Inr (ks_scan_prefix p (kvs sm)), sm)"
proof -
  have u: "unexpired now (snd e) = Some (snd e)" if "e \<in> set (kvs sm)" for e
    using assms that unexpired_max[of "snd e" now] by (auto simp: sm_ok_def never_expires_def)
  have "map (\<lambda>(k, v). (k, the v)) (filter (\<lambda>(_, v). v \<noteq> None) (map (\<lambda>(k, v). (k, unexpired now v)) l)) = l"
    if "set l \<subseteq> set (kvs sm)" for l
    using that by (induction l) (auto dest: u)
  then show ?thesis by (simp add: sm_prefix_list_kv_def ks_scan_prefix_def Let_def)
qed

lemma do_update_upsert_spec:
  assumes "is_ok (match_seq_opt (up_seq act) (ks_get (kvs sm) (up_key act)))"
    and "txn_sub_tree_do_update (up_key act) (ks_get (kvs sm) (up_key act)) (up_value_meta act)
           (up_value act) sm = (res, sm1)"
  shows "res = fst (upsert_spec (kv_counter sm) act (ks_get (kvs sm)))
     \<and> ks_get (kvs sm1) = snd (upsert_spec (kv_counter sm) act (ks_get (kvs sm)))
     \<and> (kv_counter sm1 = kv_counter sm \<or> kv_counter sm1 = kv_counter sm + 1)"
proof (cases "up_value act")
  case AsIs
  then show ?thesis
    using assms
    by (cases "ks_get (kvs sm) (up_key act)")
       (auto simp: upsert_spec_def do_update_simps Let_def fun_eq_iff)
qed (use assms in \<open>auto simp: upsert_spec_def do_update_simps with_meta_def Let_def fun_eq_iff\<close>)

lemma sm_upsert_kv_ok:
  assumes "sm_ok sm" and "kv_counter sm \<noteq> - 1" and "Option.bind (up_value_meta act) expire_at = None"
  shows "\<exists>sm'. sm_upsert_kv now act sm = (Inr (Change_new (ks_get (kvs sm) (up_key act))
               (fst (upsert_spec (kv_counter sm) act (ks_get (kvs sm))))), sm')
             \<and> ks_get (kvs sm') = snd (upsert_spec (kv_counter sm) act (ks_get (kvs sm))) \<and> sm_ok sm'
             \<and> (kv_counter sm' = kv_counter sm \<or> kv_counter sm' = kv_counter sm + 1)"
proof -
  let ?c = "UpsertKV (up_key act) (up_seq act) (up_value act) (up_value_meta act)"
  obtain r sm' where a: "apply_cmd now ?c sm = (r, sm')" by fastforce
  have "unat (kv_counter sm) + 1 < 2 ^ 64" using assms(2) by (simp add: u64_not_max_iff)
  then have ok: "sm_ok sm'" using sm_apply_cmd_ok[OF assms(1) _ _ a] assms(3) by simp
  let ?k = "up_key act" and ?m = "ks_get (kvs sm)"
  have p: "unexpired_opt now (?m ?k) = ?m ?k"
    using assms(1) by (simp add: sm_ok_def unexpired_opt_never)
  obtain prev res sm1 where u: "txn_sub_tree_upsert now ?k (up_seq act) (up_value act) (up_value_meta act) sm
      = ((prev, res), sm1)" by (metis prod.exhaust)
  have u': "(if \<not> is_ok (match_seq_opt (up_seq act) (?m ?k)) then ((?m ?k, ?m ?k), sm)
      else let (result, sm') = txn_sub_tree_do_update ?k (?m ?k) (up_value_meta act) (up_value act) sm
           in ((?m ?k, result), sm')) = ((prev, res), sm1)"
    using u unfolding txn_sub_tree_upsert_def p Let_def .
  have "prev = ?m ?k \<and> res = fst (upsert_spec (kv_counter sm) act ?m)
     \<and> ks_get (kvs sm1) = snd (upsert_spec (kv_counter sm) act ?m)
     \<and> (kv_counter sm1 = kv_counter sm \<or> kv_counter sm1 = kv_counter sm + 1)"
  proof (cases "is_ok (match_seq_opt (up_seq act) (?m ?k))")
    case False
    with u' show ?thesis by (auto simp: upsert_spec_def)
  next
    case True
    with u' have "prev = ?m ?k"
        "txn_sub_tree_do_update ?k (?m ?k) (up_value_meta act) (up_value act) sm = (res, sm1)"
      by (simp_all split: prod.splits)
    with do_update_upsert_spec[OF True] show ?thesis by simp
  qed
  moreover have "r = AS_KV (Change_new prev res)" "kvs sm' = kvs sm1" "kv_counter sm' = kv_counter sm1"
    using a u by (auto simp: apply_update_kv_cmd_def kv_changed_def)
  ultimately have "r = AS_KV (Change_new (?m ?k) (fst (upsert_spec (kv_counter sm) act ?m)))
     \<and> ks_get (kvs sm') = snd (upsert_spec (kv_counter sm) act ?m)
     \<and> (kv_counter sm' = kv_counter sm \<or> kv_counter sm' = kv_counter sm + 1)" by simp
  with a ok show ?thesis by (simp add: sm_upsert_kv_def)
qed

lemma txn_execute_operation_other:
  "txn_execute_operation now op resp sm = (resp', sm') \<Longrightarrow> op_writes op \<noteq> Some k \<Longrightarrow>
     ks_get (kvs sm') k = ks_get (kvs sm) k"
  by (cases "(now, op, resp, sm)" rule: txn_execute_operation.cases)
     (auto simp: txn_execute_get_operation_def txn_execute_put_operation_def txn_execute_delete_operation_def
       txn_sub_tree_upsert_def match_seq_opt_any do_update_simps Let_def)

lemma txn_execute_operations_other:
  "txn_execute_operations now ops resp sm = (resp', sm') \<Longrightarrow> Some k \<notin> op_writes ` set ops \<Longrightarrow>
     ks_get (kvs sm') k = ks_get (kvs sm) k"
proof (induction ops arbitrary: resp sm)
  case (Cons op ops)
  obtain resp1 sm1 where o: "txn_execute_operation now op resp sm = (resp1, sm1)" by fastforce
  with Cons.prems Cons.IH[of resp1 sm1] txn_execute_operation_other[OF o, of k] show ?case by auto
qed simp

lemma txn_execute_operation_new:
  assumes "txn_execute_operation now op resp sm = (resp', sm')" and "op_writes op = Some k"
    and "ks_get (kvs sm') k = Some v"
  shows "sv_seq v = kv_counter sm + 1"
  using assms
  by (cases "(now, op, resp, sm)" rule: txn_execute_operation.cases)
     (auto simp: txn_execute_put_operation_def txn_execute_delete_operation_def txn_sub_tree_upsert_def
       match_seq_opt_any do_update_simps with_meta_def Let_def)

lemma txn_execute_operations_new:
  assumes "txn_execute_operations now ops resp sm = (resp', sm')" and "Some k \<in> op_writes ` set ops"
    and "ks_get (kvs sm') k = Some v" and "kv_inv sm" and "unat (kv_counter sm) + length ops < 2 ^ 64"
  shows "kv_counter sm < sv_seq v"
  using assms
proof (induction ops arbitrary: resp sm)
  case (Cons op ops)
  obtain resp1 sm1 where o: "txn_execute_operation now op resp sm = (resp1, sm1)" by fastforce
  with Cons.prems(1) have r: "txn_execute_operations now ops resp1 sm1 = (resp', sm')" by simp
  have ev: "kv_inv sm1" "kv_counter sm \<le> kv_counter sm1" "unat (kv_counter sm1) \<le> unat (kv_counter sm) + 1"
    using kv_steps_evolves[OF txn_execute_operation_steps[OF o] Cons.prems(4)] Cons.prems(5)
    by (simp_all add: kv_evolves_def)
  show ?case
  proof (cases "Some k \<in> op_writes ` set ops")
    case True
    have "kv_counter sm1 < sv_seq v"
      by (rule Cons.IH[OF r True Cons.prems(3) ev(1)]) (use ev(3) Cons.prems(5) in simp)
    with ev(2) show ?thesis by simp
  next
    case False
    with Cons.prems(2,3) txn_execute_operations_other[OF r False] have "op_writes op = Some k" "ks_get (kvs sm1) k = Some v"
      by auto
    then have "sv_seq v = kv_counter sm + 1" by (rule txn_execute_operation_new[OF o])
    moreover have "kv_counter sm \<noteq> - 1" using Cons.prems(5) by (simp add: u64_not_max_iff)
    ultimately show ?thesis by (simp add: u64_less_plus_one)
  qed
qed simp

lemma sm_transaction_ok:
  assumes "sm_ok sm" and "unat (kv_counter sm) + length (txn_ops_run txn (ks_get (kvs sm))) < 2 ^ 64"
  shows "\<exists>resp sm'. sm_transaction now txn sm = (Inr resp, sm') \<and> tr_error resp = ''''
      \<and> tr_success resp = list_all (cond_spec (ks_get (kvs sm))) (txn_condition txn)
      \<and> view_data (ks_get (kvs sm'))
          = fold txn_op_spec (txn_ops_run txn (ks_get (kvs sm))) (view_data (ks_get (kvs sm)))
      \<and> (\<forall>k v. ks_get (kvs sm') k = Some v \<longrightarrow> ks_get (kvs sm) k = Some v \<or> kv_counter sm < sv_seq v)
      \<and> sm_ok sm' \<and> kv_counter sm \<le> kv_counter sm' \<and> unat (kv_counter sm') \<le> unat (kv_counter sm) + length (txn_ops_run txn (ks_get (kvs sm)))
      \<and> (\<forall>k. Some k \<notin> op_writes ` set (txn_ops_run txn (ks_get (kvs sm))) \<longrightarrow> ks_get (kvs sm') k = ks_get (kvs sm) k)
      \<and> (\<forall>k v. Some k \<in> op_writes ` set (txn_ops_run txn (ks_get (kvs sm))) \<longrightarrow> ks_get (kvs sm') k = Some v \<longrightarrow>
            kv_counter sm < sv_seq v)"
proof -
  let ?ops = "txn_ops_run txn (ks_get (kvs sm))"
  let ?r = "\<lparr>tr_success = list_all (cond_spec (ks_get (kvs sm))) (txn_condition txn),
             tr_responses = [], tr_error = ''''\<rparr>"
  obtain resp sm' where e: "txn_execute_operations now ?ops ?r sm = (resp, sm')" by fastforce
  have t: "sm_transaction now txn sm = (Inr resp, sm')"
    using e by (simp add: sm_transaction_def sm_transaction_run Let_def del: apply_cmd.simps)
  have ev: "kv_evolves (length ?ops) sm sm'"
    using kv_steps_evolves[OF txn_execute_operations_steps[OF e]] assms by (simp add: sm_ok_def)
  have "never_expires sm'"
    using txn_execute_operations_never_expires[of sm now ?ops ?r now] assms(1) e by (simp add: sm_ok_def)
  with ev have "sm_ok sm'" by (simp add: sm_ok_def kv_evolves_def)
  moreover have "kv_data s = view_data (ks_get (kvs s))" for s :: "'a state_machine"
    by (simp add: fun_eq_iff kv_data_def view_data_def)
  moreover have "kv_counter sm < sv_seq v" if "Some k \<in> op_writes ` set ?ops" "ks_get (kvs sm') k = Some v" for k v
    using txn_execute_operations_new[OF e that] assms by (simp add: sm_ok_def)
  ultimately show ?thesis
    using t ev txn_execute_operations_data[OF e] txn_execute_operations_other[OF e] by (auto simp: kv_evolves_def)
qed

interpretation sm_api: KVApi "sm_kv_api now" "\<lambda>sm. ks_get (kvs sm)" kv_counter sm_ok
  for now :: u64
proof unfold_locales
  fix sm :: "'a state_machine" and k k' v v' p ks
  assume ok: "sm_ok sm"
  then have inv: "kv_inv sm" by (simp add: sm_ok_def)
  show "ks_get (kvs sm) k = Some v \<Longrightarrow> 0 < sv_seq v \<and> sv_seq v \<le> kv_counter sm"
    using kv_inv_seq[OF inv] by blast
  show "ks_get (kvs sm) k = Some v \<Longrightarrow> ks_get (kvs sm) k' = Some v' \<Longrightarrow> sv_seq v = sv_seq v' \<Longrightarrow> k = k'"
    using kv_inv_inj[OF inv] by blast
  show "api_get_kv (sm_kv_api now) k sm = (Inr (ks_get (kvs sm) k), sm)"
    by (simp add: sm_kv_api_def sm_get_kv_ok[OF ok])
  show "api_mget_kv (sm_kv_api now) ks sm = (Inr (map (ks_get (kvs sm)) ks), sm)"
    by (simp add: sm_kv_api_def sm_mget_kv_ok[OF ok])
  show "\<exists>l. api_prefix_list_kv (sm_kv_api now) p sm = (Inr l, sm) \<and> sorted_wrt (<) (map fst l)
          \<and> (\<forall>k v. (k, v) \<in> set l \<longleftrightarrow> prefix p k \<and> ks_get (kvs sm) k = Some v)"
    using ks_wf_scan_prefix[OF kv_inv_wf[OF inv], of p] ks_scan_prefix_mem[OF kv_inv_wf[OF inv]]
    by (simp add: sm_kv_api_def sm_prefix_list_kv_ok[OF ok] ks_wf_def)
qed (use sm_upsert_kv_ok sm_transaction_ok in \<open>simp_all add: sm_kv_api_def\<close>)


section \<open>Reading what was written, until it expires\<close>



end
