(* ===== verification/Schema_Keys.thy ===== *)
theory Schema_Keys
  imports Utf8
begin

text \<open>
  The keys of the schema layer (\<open>common/meta/api/src/kv_api_key.rs\<close> and
  \<open>schema_api_keys.rs\<close>): the escaping of names, the parsing of segments and ids, and the
  conversion of every structured key to its string and back. The panics of \<open>unescape\<close> on
  malformed input are values of the error type (\<open>KeyPanic\<close>).
\<close>

section \<open>Escaping\<close>

datatype ParseIntError = EmptyInt | InvalidDigit | PosOverflow

datatype KVApiKeyError =
    FromUtf8Error
  | InvalidSegment nat string string
  | WrongNumberOfSegments nat string
  | InvalidId string ParseIntError
  | KeyPanic string

definition hex :: "nat \<Rightarrow> nat" where
  "hex n = (if n \<le> 9 then 48 + n else 97 + (n - 10))"

definition safe_byte :: "nat \<Rightarrow> bool" where
  "safe_byte n \<longleftrightarrow> 48 \<le> n \<and> n \<le> 57 \<or> n = 95 \<or> 97 \<le> n \<and> n \<le> 122 \<or> 65 \<le> n \<and> n \<le> 90"

definition escape_byte :: "char \<Rightarrow> bytes" where
  "escape_byte c =
     (if safe_byte (byte c) then [c]
      else [CHR ''%'', char_of (hex (byte c div 16)), char_of (hex (byte c mod 16))])"

definition escape :: "string \<Rightarrow> string" where
  "escape key = concat (map escape_byte key)"

definition unhex :: "char \<Rightarrow> KVApiKeyError + nat" where
  "unhex c =
     (let num = byte c
      in if 48 \<le> num \<and> num \<le> 57 then Inr (num - 48)
         else if 97 \<le> num \<and> num \<le> 102 then Inr (num - 97 + 10)
         else Inl (KeyPanic ''Unreachable branch''))"

fun unescape_bytes :: "bytes \<Rightarrow> KVApiKeyError + bytes" where
  "unescape_bytes [] = Inr []"
| "unescape_bytes (c # cs) =
     (if c = CHR ''%'' then
        (case cs of
           a # b # rest \<Rightarrow>
             try_res (unhex a) (\<lambda>x. try_res (unhex b) (\<lambda>y.
             try_res (unescape_bytes rest) (\<lambda>r. Inr (char_of (x * 16 + y) # r))))
         | _ \<Rightarrow> Inl (KeyPanic ''index out of bounds''))
      else try_res (unescape_bytes cs) (\<lambda>r. Inr (c # r)))"

definition unescape :: "string \<Rightarrow> KVApiKeyError + string" where
  "unescape key = try_res (unescape_bytes key) (\<lambda>b. if valid_utf8 b then Inr b else Inl FromUtf8Error)"


section \<open>Segments and ids\<close>

text \<open>\<open>str::split\<close>: the segments between the separators, at least one.\<close>

fun split_on :: "char \<Rightarrow> string \<Rightarrow> string list" where
  "split_on d [] = [[]]"
| "split_on d (c # cs) =
     (if c = d then [] # split_on d cs
      else case split_on d cs of [] \<Rightarrow> [[c]] | s # ss \<Rightarrow> (c # s) # ss)"

text \<open>The \<open>i\<close>-th call of \<open>next\<close> on the segments.\<close>

definition segment :: "string list \<Rightarrow> nat \<Rightarrow> string option" where
  "segment elts i = (if i < length elts then Some (elts ! i) else None)"

definition check_segment_absent :: "string option \<Rightarrow> nat \<Rightarrow> string \<Rightarrow> KVApiKeyError + unit" where
  "check_segment_absent elt i key = (if elt \<noteq> None then Inl (WrongNumberOfSegments i key) else Inr ())"

definition check_segment_present :: "string option \<Rightarrow> nat \<Rightarrow> string \<Rightarrow> KVApiKeyError + string" where
  "check_segment_present elt i key =
     (case elt of Some s \<Rightarrow> Inr s | None \<Rightarrow> Inl (WrongNumberOfSegments (i + 1) key))"

definition check_segment :: "string \<Rightarrow> nat \<Rightarrow> string \<Rightarrow> KVApiKeyError + unit" where
  "check_segment elt i expect = (if elt \<noteq> expect then Inl (InvalidSegment i expect elt) else Inr ())"

text \<open>\<open>str::parse::<u64>\<close>: an optional plus sign and decimal digits, checked for overflow.\<close>

fun parse_digits :: "nat \<Rightarrow> string \<Rightarrow> ParseIntError + nat" where
  "parse_digits acc [] = Inr acc"
| "parse_digits acc (c # cs) =
     (if acc * 10 \<ge> 2 ^ 64 then Inl PosOverflow
      else if \<not> (48 \<le> byte c \<and> byte c \<le> 57) then Inl InvalidDigit
      else if acc * 10 + (byte c - 48) \<ge> 2 ^ 64 then Inl PosOverflow
      else parse_digits (acc * 10 + (byte c - 48)) cs)"

definition parse_u64 :: "string \<Rightarrow> ParseIntError + u64" where
  "parse_u64 s =
     (case s of
        [] \<Rightarrow> Inl EmptyInt
      | c # cs \<Rightarrow>
          (if (c = CHR ''+'' \<or> c = CHR ''-'') \<and> cs = [] then Inl InvalidDigit
           else try_res (parse_digits 0 (if c = CHR ''+'' then cs else s)) (\<lambda>n. Inr (of_nat n))))"

definition decode_id :: "string \<Rightarrow> KVApiKeyError + u64" where
  "decode_id s = (case parse_u64 s of Inl e \<Rightarrow> Inl (InvalidId s e) | Inr i \<Rightarrow> Inr i)"

text \<open>\<open>Display\<close> of an unsigned integer.\<close>

fun dec :: "nat \<Rightarrow> string" where
  "dec n = (if n < 10 then [char_of (48 + n)] else dec (n div 10) @ [char_of (48 + n mod 10)])"

declare dec.simps [simp del]

definition dec64 :: "u64 \<Rightarrow> string" where
  "dec64 w = dec (unat w)"


section \<open>Structured keys\<close>

record DatabaseNameIdent =
  dn_tenant :: string
  dn_db_name :: string

record DatabaseId =
  db_id :: u64

record DBIdTableName =
  dt_db_id :: u64
  dt_table_name :: string

record TableId =
  table_id :: u64

definition PREFIX_DATABASE :: string where "PREFIX_DATABASE = ''__fd_database''"

definition PREFIX_DATABASE_BY_ID :: string where "PREFIX_DATABASE_BY_ID = ''__fd_database_by_id''"

definition PREFIX_TABLE :: string where "PREFIX_TABLE = ''__fd_table''"

definition PREFIX_TABLE_BY_ID :: string where "PREFIX_TABLE_BY_ID = ''__fd_table_by_id''"

definition PREFIX_ID_GEN :: string where "PREFIX_ID_GEN = ''__fd_id_gen''"

lemmas schema_prefixes =
  PREFIX_DATABASE_def PREFIX_DATABASE_BY_ID_def PREFIX_TABLE_def PREFIX_TABLE_BY_ID_def PREFIX_ID_GEN_def

definition DatabaseNameIdent_to_key :: "DatabaseNameIdent \<Rightarrow> string" where
  "DatabaseNameIdent_to_key self =
     PREFIX_DATABASE @ ''/'' @ escape (dn_tenant self) @ ''/'' @ escape (dn_db_name self)"

definition DatabaseNameIdent_from_key :: "string \<Rightarrow> KVApiKeyError + DatabaseNameIdent" where
  "DatabaseNameIdent_from_key s =
     (let elts = split_on (CHR ''/'') s
      in try_res (check_segment_present (segment elts 0) 0 s) (\<lambda>pre.
         try_res (check_segment pre 0 PREFIX_DATABASE) (\<lambda>_.
         try_res (check_segment_present (segment elts 1) 1 s) (\<lambda>tenant.
         try_res (check_segment_present (segment elts 2) 2 s) (\<lambda>db_name.
         try_res (check_segment_absent (segment elts 3) 3 s) (\<lambda>_.
         try_res (unescape tenant) (\<lambda>tenant.
         try_res (unescape db_name) (\<lambda>db_name.
         Inr \<lparr>dn_tenant = tenant, dn_db_name = db_name\<rparr>))))))))"

definition DatabaseId_to_key :: "DatabaseId \<Rightarrow> string" where
  "DatabaseId_to_key self = PREFIX_DATABASE_BY_ID @ ''/'' @ dec64 (db_id self)"

definition DatabaseId_from_key :: "string \<Rightarrow> KVApiKeyError + DatabaseId" where
  "DatabaseId_from_key s =
     (let elts = split_on (CHR ''/'') s
      in try_res (check_segment_present (segment elts 0) 0 s) (\<lambda>pre.
         try_res (check_segment pre 0 PREFIX_DATABASE_BY_ID) (\<lambda>_.
         try_res (check_segment_present (segment elts 1) 1 s) (\<lambda>d.
         try_res (decode_id d) (\<lambda>d.
         try_res (check_segment_absent (segment elts 2) 2 s) (\<lambda>_.
         Inr \<lparr>db_id = d\<rparr>))))))"

definition DBIdTableName_to_key :: "DBIdTableName \<Rightarrow> string" where
  "DBIdTableName_to_key self =
     PREFIX_TABLE @ ''/'' @ dec64 (dt_db_id self) @ ''/'' @ escape (dt_table_name self)"

definition DBIdTableName_from_key :: "string \<Rightarrow> KVApiKeyError + DBIdTableName" where
  "DBIdTableName_from_key s =
     (let elts = split_on (CHR ''/'') s
      in try_res (check_segment_present (segment elts 0) 0 s) (\<lambda>pre.
         try_res (check_segment pre 0 PREFIX_TABLE) (\<lambda>_.
         try_res (check_segment_present (segment elts 1) 1 s) (\<lambda>d.
         try_res (decode_id d) (\<lambda>d.
         try_res (check_segment_present (segment elts 2) 2 s) (\<lambda>tb_name.
         try_res (unescape tb_name) (\<lambda>tb_name.
         try_res (check_segment_absent (segment elts 3) 3 s) (\<lambda>_.
         Inr \<lparr>dt_db_id = d, dt_table_name = tb_name\<rparr>))))))))"

definition TableId_to_key :: "TableId \<Rightarrow> string" where
  "TableId_to_key self = PREFIX_TABLE_BY_ID @ ''/'' @ dec64 (table_id self)"

definition TableId_from_key :: "string \<Rightarrow> KVApiKeyError + TableId" where
  "TableId_from_key s =
     (let elts = split_on (CHR ''/'') s
      in try_res (check_segment_present (segment elts 0) 0 s) (\<lambda>pre.
         try_res (check_segment pre 0 PREFIX_TABLE_BY_ID) (\<lambda>_.
         try_res (check_segment_present (segment elts 1) 1 s) (\<lambda>d.
         try_res (decode_id d) (\<lambda>d.
         try_res (check_segment_absent (segment elts 2) 2 s) (\<lambda>_.
         Inr \<lparr>table_id = d\<rparr>))))))"

definition DatabaseIdGen_to_key :: string where
  "DatabaseIdGen_to_key = PREFIX_ID_GEN @ ''/database_id''"

definition TableIdGen_to_key :: string where
  "TableIdGen_to_key = PREFIX_ID_GEN @ ''/table_id''"

end
