(* ===== verification/Schema_Types.thy ===== *)
theory Schema_Types
  imports Schema_Keys Meta_Types Key_Space
begin

text \<open>
  The data of the schema layer: data types, fields and schemas of columns
  (\<open>common/datavalues/src\<close>), the metas, infos and requests of databases and tables
  (\<open>common/meta/types/src/database.rs\<close>, \<open>table.rs\<close>). A time stamp (\<open>chrono::DateTime<Utc>\<close>) is
  of any type \<open>'dt\<close>. A B-tree map is an ordered association list.
\<close>

section \<open>Column types\<close>

datatype IntervalKind =
    Kind_Year | Kind_Month | Kind_Day | Kind_Hour | Kind_Minute | Kind_Second | Kind_Doy | Kind_Dow

record IntervalType =
  iv_kind :: IntervalKind

record TimestampType =
  ts_precision :: u64

datatype DataTypeImpl =
    Null
  | Nullable NullableType
  | Boolean
  | Int8
  | Int16
  | Int32
  | Int64
  | UInt8
  | UInt16
  | UInt32
  | UInt64
  | Float32
  | Float64
  | Date
  | Timestamp TimestampType
  | StringT
  | Struct StructType
  | Array ArrayType
  | Variant
  | VariantArray
  | VariantObject
  | Interval IntervalType
and NullableType = NullableType (nullable_inner: DataTypeImpl)
and StructType = StructType (struct_names: "string list") (struct_types: "DataTypeImpl list")
and ArrayType = ArrayType (array_inner: DataTypeImpl)

type_synonym btree = "(string, string) kspace"

record DataField =
  df_name :: string
  df_default_expr :: "string option"
  df_data_type :: DataTypeImpl

definition DataField_new :: "string \<Rightarrow> DataTypeImpl \<Rightarrow> DataField" where
  "DataField_new name data_type = \<lparr>df_name = name, df_default_expr = None, df_data_type = data_type\<rparr>"

record DataSchema =
  ds_fields :: "DataField list"
  ds_metadata :: btree


section \<open>Databases and tables\<close>

record 'dt DatabaseMeta =
  dm_engine :: string
  dm_engine_options :: btree
  dm_options :: btree
  dm_created_on :: 'dt
  dm_updated_on :: 'dt
  dm_comment :: string

record DatabaseIdent =
  di_db_id :: u64
  di_seq :: u64

record 'dt DatabaseInfo =
  dinfo_ident :: DatabaseIdent
  dinfo_name_ident :: DatabaseNameIdent
  dinfo_meta :: "'dt DatabaseMeta"

record 'dt TableMeta =
  tm_schema :: DataSchema
  tm_engine :: string
  tm_engine_options :: btree
  tm_options :: btree
  tm_order_keys :: "string option"
  tm_created_on :: 'dt
  tm_updated_on :: 'dt
  tm_comment :: string

record TableIdent =
  ti_table_id :: u64
  ti_seq :: u64

record TableNameIdent =
  tn_tenant :: string
  tn_db_name :: string
  tn_table_name :: string

record 'dt TableInfo =
  tinfo_ident :: TableIdent
  tinfo_desc :: string
  tinfo_name :: string
  tinfo_meta :: "'dt TableMeta"

definition db_name_ident :: "TableNameIdent \<Rightarrow> DatabaseNameIdent" where
  "db_name_ident self = \<lparr>dn_tenant = tn_tenant self, dn_db_name = tn_db_name self\<rparr>"

text \<open>\<open>Display\<close> of the identifiers, used in the context of errors.\<close>

definition quoted :: "string \<Rightarrow> string" where
  "quoted s = CHR 0x27 # s @ [CHR 0x27]"

definition DatabaseNameIdent_display :: "DatabaseNameIdent \<Rightarrow> string" where
  "DatabaseNameIdent_display self = quoted (dn_tenant self) @ ''/'' @ quoted (dn_db_name self)"

definition TableNameIdent_display :: "TableNameIdent \<Rightarrow> string" where
  "TableNameIdent_display self =
     quoted (tn_tenant self) @ ''.'' @ quoted (tn_db_name self) @ ''.'' @ quoted (tn_table_name self)"

record 'dt CreateDatabaseReq =
  cd_if_not_exists :: bool
  cd_name_ident :: DatabaseNameIdent
  cd_meta :: "'dt DatabaseMeta"

record DropDatabaseReq =
  dd_if_exists :: bool
  dd_name_ident :: DatabaseNameIdent

record RenameDatabaseReq =
  rd_if_exists :: bool
  rd_name_ident :: DatabaseNameIdent
  rd_new_db_name :: string

record 'dt CreateTableReq =
  ct_if_not_exists :: bool
  ct_name_ident :: TableNameIdent
  ct_table_meta :: "'dt TableMeta"

record DropTableReq =
  dt_if_exists :: bool
  dt_name_ident :: TableNameIdent

record RenameTableReq =
  rt_if_exists :: bool
  rt_name_ident :: TableNameIdent
  rt_new_db_name :: string
  rt_new_table_name :: string

text \<open>The options of a request are a hash map: an association list in its order of iteration.\<close>

record UpsertTableOptionReq =
  uo_table_id :: u64
  uo_seq :: MatchSeq
  uo_options :: "(string \<times> string option) list"

end
