(* ===== verification/Proto_Conv.thy ===== *)
theory Proto_Conv
  imports Schema_Types
begin

text \<open>
  The conversion of the schema's metas to and from their protobuf messages
  (\<open>common/proto-conv/src\<close>): \<open>to_pb\<close> and \<open>from_pb\<close> of every type, with the version each message
  carries. The messages are those of \<open>common/protos/proto\<close>: a nested message is optional. The
  printer and the parser of time stamps (\<open>chrono\<close>) are a parameter. The \<open>todo!()\<close> of the source
  is the value \<open>ConvPanic\<close>. The debug assertions of \<open>StructType::create\<close> and
  \<open>NullableType::create\<close> do nothing in a release build and are left out.
\<close>

section \<open>Versions\<close>

datatype Incompatible = Incompatible string | ConvPanic string

definition VER :: u64 where "VER = 1"

definition OLDEST_COMPATIBLE_VER :: u64 where "OLDEST_COMPATIBLE_VER = 1"

definition check_ver :: "u64 \<Rightarrow> Incompatible + unit" where
  "check_ver ver =
     (if ver > VER \<or> ver < OLDEST_COMPATIBLE_VER then
        Inl (Incompatible (''ver='' @ dec64 ver @ '' is not compatible with ['' @
               dec64 OLDEST_COMPATIBLE_VER @ '', '' @ dec64 VER @ '']''))
      else Inr ())"

text \<open>\<open>Option::ok_or_else\<close> with the reason of a missing field.\<close>

definition missing :: "string \<Rightarrow> 'a option \<Rightarrow> Incompatible + 'a" where
  "missing reason x = (case x of None \<Rightarrow> Inl (Incompatible reason) | Some a \<Rightarrow> Inr a)"


section \<open>Messages\<close>

datatype pb_IntervalKind =
    PbKind_Year | PbKind_Month | PbKind_Day | PbKind_Hour | PbKind_Minute | PbKind_Second | PbKind_Doy | PbKind_Dow

text \<open>An enum field is an \<open>i32\<close>.\<close>

type_synonym i32 = "32 word"

record pb_IntervalType =
  pbi_ver :: u64
  pbi_kind :: i32

record pb_Timestamp =
  pbt_ver :: u64
  pbt_precision :: u64

record pb_Versioned =
  pbv_ver :: u64

datatype pb_DataType = pb_DataType (pbd_ver: u64) (pbd_dt: "pb_Dt option")
and pb_Dt =
    Dt_NullableType pb_NullableType
  | Dt_BoolType
  | Dt_Int8Type
  | Dt_Int16Type
  | Dt_Int32Type
  | Dt_Int64Type
  | Dt_Uint8Type
  | Dt_Uint16Type
  | Dt_Uint32Type
  | Dt_Uint64Type
  | Dt_Float32Type
  | Dt_Float64Type
  | Dt_DateType
  | Dt_TimestampType pb_Timestamp
  | Dt_StringType
  | Dt_StructType pb_Struct
  | Dt_ArrayType pb_Array
  | Dt_VariantType pb_Versioned
  | Dt_VariantArrayType pb_Versioned
  | Dt_VariantObjectType pb_Versioned
  | Dt_IntervalType pb_IntervalType
and pb_NullableType = pb_NullableType (pbn_ver: u64) (pbn_inner: "pb_DataType option")
and pb_Struct = pb_Struct (pbs_ver: u64) (pbs_names: "string list") (pbs_types: "pb_DataType list")
and pb_Array = pb_Array (pba_ver: u64) (pba_inner: "pb_DataType option")

record pb_DataField =
  pbf_ver :: u64
  pbf_name :: string
  pbf_default_expr :: "string option"
  pbf_data_type :: "pb_DataType option"

record pb_DataSchema =
  pbc_ver :: u64
  pbc_fields :: "pb_DataField list"
  pbc_metadata :: btree

record pb_DatabaseMeta =
  pbdm_ver :: u64
  pbdm_engine :: string
  pbdm_engine_options :: btree
  pbdm_options :: btree
  pbdm_created_on :: string
  pbdm_updated_on :: string
  pbdm_comment :: string

record pb_DatabaseIdent =
  pbdi_ver :: u64
  pbdi_db_id :: u64
  pbdi_seq :: u64

record pb_DatabaseNameIdent =
  pbdn_ver :: u64
  pbdn_tenant :: string
  pbdn_db_name :: string

record pb_DatabaseInfo =
  pbdf_ver :: u64
  pbdf_ident :: "pb_DatabaseIdent option"
  pbdf_name_ident :: "pb_DatabaseNameIdent option"
  pbdf_meta :: "pb_DatabaseMeta option"

record pb_TableMeta =
  pbtm_ver :: u64
  pbtm_schema :: "pb_DataSchema option"
  pbtm_engine :: string
  pbtm_engine_options :: btree
  pbtm_options :: btree
  pbtm_order_keys :: "string option"
  pbtm_created_on :: string
  pbtm_updated_on :: string
  pbtm_comment :: string

record pb_TableIdent =
  pbti_ver :: u64
  pbti_table_id :: u64
  pbti_seq :: u64

record pb_TableNameIdent =
  pbtn_ver :: u64
  pbtn_tenant :: string
  pbtn_db_name :: string
  pbtn_table_name :: string

record pb_TableInfo =
  pbtf_ver :: u64
  pbtf_ident :: "pb_TableIdent option"
  pbtf_desc :: string
  pbtf_name :: string
  pbtf_meta :: "pb_TableMeta option"


section \<open>Data types\<close>

fun IntervalKind_from_pb :: "pb_IntervalKind \<Rightarrow> Incompatible + IntervalKind" where
  "IntervalKind_from_pb PbKind_Year = Inr Kind_Year"
| "IntervalKind_from_pb PbKind_Month = Inr Kind_Month"
| "IntervalKind_from_pb PbKind_Day = Inr Kind_Day"
| "IntervalKind_from_pb PbKind_Hour = Inr Kind_Hour"
| "IntervalKind_from_pb PbKind_Minute = Inr Kind_Minute"
| "IntervalKind_from_pb PbKind_Second = Inr Kind_Second"
| "IntervalKind_from_pb PbKind_Doy = Inr Kind_Doy"
| "IntervalKind_from_pb PbKind_Dow = Inr Kind_Dow"

fun IntervalKind_to_pb :: "IntervalKind \<Rightarrow> Incompatible + pb_IntervalKind" where
  "IntervalKind_to_pb Kind_Year = Inr PbKind_Year"
| "IntervalKind_to_pb Kind_Month = Inr PbKind_Month"
| "IntervalKind_to_pb Kind_Day = Inr PbKind_Day"
| "IntervalKind_to_pb Kind_Hour = Inr PbKind_Hour"
| "IntervalKind_to_pb Kind_Minute = Inr PbKind_Minute"
| "IntervalKind_to_pb Kind_Second = Inr PbKind_Second"
| "IntervalKind_to_pb Kind_Doy = Inr PbKind_Doy"
| "IntervalKind_to_pb Kind_Dow = Inr PbKind_Dow"

text \<open>The numbers of the enum in \<open>datatype.proto\<close>, and \<open>FromPrimitive::from_i32\<close> on them.\<close>

fun IntervalKind_as_i32 :: "pb_IntervalKind \<Rightarrow> i32" where
  "IntervalKind_as_i32 PbKind_Year = 0"
| "IntervalKind_as_i32 PbKind_Month = 1"
| "IntervalKind_as_i32 PbKind_Day = 2"
| "IntervalKind_as_i32 PbKind_Hour = 3"
| "IntervalKind_as_i32 PbKind_Minute = 4"
| "IntervalKind_as_i32 PbKind_Second = 5"
| "IntervalKind_as_i32 PbKind_Doy = 6"
| "IntervalKind_as_i32 PbKind_Dow = 7"

definition IntervalKind_from_i32 :: "i32 \<Rightarrow> pb_IntervalKind option" where
  "IntervalKind_from_i32 k =
     map_of (map (\<lambda>p. (IntervalKind_as_i32 p, p))
       [PbKind_Year, PbKind_Month, PbKind_Day, PbKind_Hour, PbKind_Minute, PbKind_Second, PbKind_Doy, PbKind_Dow]) k"

text \<open>\<open>Display\<close> of a signed integer.\<close>

definition dec_i32 :: "i32 \<Rightarrow> string" where
  "dec_i32 k = (if sint k < 0 then CHR ''-'' # dec (nat (- sint k)) else dec (nat (sint k)))"

definition IntervalType_from_pb :: "pb_IntervalType \<Rightarrow> Incompatible + IntervalType" where
  "IntervalType_from_pb p =
     try_res (check_ver (pbi_ver p)) (\<lambda>_.
     try_res (missing (''invalid IntervalType: '' @ dec_i32 (pbi_kind p)) (IntervalKind_from_i32 (pbi_kind p))) (\<lambda>pb_kind.
     try_res (IntervalKind_from_pb pb_kind) (\<lambda>dv_kind.
     Inr \<lparr>iv_kind = dv_kind\<rparr>)))"

definition IntervalType_to_pb :: "IntervalType \<Rightarrow> Incompatible + pb_IntervalType" where
  "IntervalType_to_pb self =
     try_res (IntervalKind_to_pb (iv_kind self)) (\<lambda>pb_kind.
     Inr \<lparr>pbi_ver = VER, pbi_kind = IntervalKind_as_i32 pb_kind\<rparr>)"

definition TimestampType_from_pb :: "pb_Timestamp \<Rightarrow> Incompatible + TimestampType" where
  "TimestampType_from_pb p = try_res (check_ver (pbt_ver p)) (\<lambda>_. Inr \<lparr>ts_precision = pbt_precision p\<rparr>)"

definition TimestampType_to_pb :: "TimestampType \<Rightarrow> Incompatible + pb_Timestamp" where
  "TimestampType_to_pb self = Inr \<lparr>pbt_ver = VER, pbt_precision = ts_precision self\<rparr>"

text \<open>\<open>to_pb\<close> of \<open>VariantType\<close>, \<open>VariantArrayType\<close> and \<open>VariantObjectType\<close>, types without fields.\<close>

definition VariantType_to_pb :: "Incompatible + pb_Versioned" where
  "VariantType_to_pb = Inr \<lparr>pbv_ver = VER\<rparr>"

definition VariantArrayType_to_pb :: "Incompatible + pb_Versioned" where
  "VariantArrayType_to_pb = Inr \<lparr>pbv_ver = VER\<rparr>"

definition VariantObjectType_to_pb :: "Incompatible + pb_Versioned" where
  "VariantObjectType_to_pb = Inr \<lparr>pbv_ver = VER\<rparr>"

fun DataTypeImpl_from_pb :: "pb_DataType \<Rightarrow> Incompatible + DataTypeImpl"
and NullableType_from_pb :: "pb_NullableType \<Rightarrow> Incompatible + NullableType"
and StructType_from_pb :: "pb_Struct \<Rightarrow> Incompatible + StructType"
and ArrayType_from_pb :: "pb_Array \<Rightarrow> Incompatible + ArrayType" where
  "DataTypeImpl_from_pb (pb_DataType ver p_dt) =
     try_res (check_ver ver) (\<lambda>_.
     case p_dt of
       None \<Rightarrow> Inl (Incompatible ''DataType is None'')
     | Some dt \<Rightarrow>
         (case dt of
            Dt_NullableType x \<Rightarrow> try_res (NullableType_from_pb x) (\<lambda>v. Inr (Nullable v))
          | Dt_BoolType \<Rightarrow> Inr Boolean
          | Dt_Int8Type \<Rightarrow> Inr Int8
          | Dt_Int16Type \<Rightarrow> Inr Int16
          | Dt_Int32Type \<Rightarrow> Inr Int32
          | Dt_Int64Type \<Rightarrow> Inr Int64
          | Dt_Uint8Type \<Rightarrow> Inr UInt8
          | Dt_Uint16Type \<Rightarrow> Inr UInt16
          | Dt_Uint32Type \<Rightarrow> Inr UInt32
          | Dt_Uint64Type \<Rightarrow> Inr UInt64
          | Dt_Float32Type \<Rightarrow> Inr Float32
          | Dt_Float64Type \<Rightarrow> Inr Float64
          | Dt_DateType \<Rightarrow> Inr Date
          | Dt_TimestampType x \<Rightarrow> try_res (TimestampType_from_pb x) (\<lambda>v. Inr (Timestamp v))
          | Dt_StringType \<Rightarrow> Inr StringT
          | Dt_StructType x \<Rightarrow> try_res (StructType_from_pb x) (\<lambda>v. Inr (Struct v))
          | Dt_ArrayType x \<Rightarrow> try_res (ArrayType_from_pb x) (\<lambda>v. Inr (Array v))
          | Dt_VariantType _ \<Rightarrow> Inr Variant
          | Dt_VariantArrayType _ \<Rightarrow> Inr VariantArray
          | Dt_VariantObjectType _ \<Rightarrow> Inr VariantObject
          | Dt_IntervalType x \<Rightarrow> try_res (IntervalType_from_pb x) (\<lambda>v. Inr (Interval v))))"
| "NullableType_from_pb (pb_NullableType ver p_inner) =
     try_res (check_ver ver) (\<lambda>_.
     case p_inner of
       None \<Rightarrow> Inl (Incompatible ''NullableType.inner can not be None'')
     | Some inner \<Rightarrow> try_res (DataTypeImpl_from_pb inner) (\<lambda>inner_dt. Inr (NullableType inner_dt)))"
| "StructType_from_pb (pb_Struct ver names p_types) =
     try_res (check_ver ver) (\<lambda>_.
     try_res (collect_res DataTypeImpl_from_pb p_types) (\<lambda>types. Inr (StructType names types)))"
| "ArrayType_from_pb (pb_Array ver p_inner) =
     try_res (check_ver ver) (\<lambda>_.
     case p_inner of
       None \<Rightarrow> Inl (Incompatible ''Array.inner can not be None'')
     | Some inner \<Rightarrow> try_res (DataTypeImpl_from_pb inner) (\<lambda>inner_dt. Inr (ArrayType inner_dt)))"

fun DataTypeImpl_to_pb :: "DataTypeImpl \<Rightarrow> Incompatible + pb_DataType"
and NullableType_to_pb :: "NullableType \<Rightarrow> Incompatible + pb_NullableType"
and StructType_to_pb :: "StructType \<Rightarrow> Incompatible + pb_Struct"
and ArrayType_to_pb :: "ArrayType \<Rightarrow> Incompatible + pb_Array" where
  "DataTypeImpl_to_pb Null = Inl (ConvPanic ''todo'')"
| "DataTypeImpl_to_pb (Nullable x) =
     try_res (NullableType_to_pb x) (\<lambda>inn. Inr (pb_DataType VER (Some (Dt_NullableType inn))))"
| "DataTypeImpl_to_pb Boolean = Inr (pb_DataType VER (Some Dt_BoolType))"
| "DataTypeImpl_to_pb Int8 = Inr (pb_DataType VER (Some Dt_Int8Type))"
| "DataTypeImpl_to_pb Int16 = Inr (pb_DataType VER (Some Dt_Int16Type))"
| "DataTypeImpl_to_pb Int32 = Inr (pb_DataType VER (Some Dt_Int32Type))"
| "DataTypeImpl_to_pb Int64 = Inr (pb_DataType VER (Some Dt_Int64Type))"
| "DataTypeImpl_to_pb UInt8 = Inr (pb_DataType VER (Some Dt_Uint8Type))"
| "DataTypeImpl_to_pb UInt16 = Inr (pb_DataType VER (Some Dt_Uint16Type))"
| "DataTypeImpl_to_pb UInt32 = Inr (pb_DataType VER (Some Dt_Uint32Type))"
| "DataTypeImpl_to_pb UInt64 = Inr (pb_DataType VER (Some Dt_Uint64Type))"
| "DataTypeImpl_to_pb Float32 = Inr (pb_DataType VER (Some Dt_Float32Type))"
| "DataTypeImpl_to_pb Float64 = Inr (pb_DataType VER (Some Dt_Float64Type))"
| "DataTypeImpl_to_pb Date = Inr (pb_DataType VER (Some Dt_DateType))"
| "DataTypeImpl_to_pb (Timestamp x) =
     try_res (TimestampType_to_pb x) (\<lambda>inn. Inr (pb_DataType VER (Some (Dt_TimestampType inn))))"
| "DataTypeImpl_to_pb StringT = Inr (pb_DataType VER (Some Dt_StringType))"
| "DataTypeImpl_to_pb (Struct x) =
     try_res (StructType_to_pb x) (\<lambda>inn. Inr (pb_DataType VER (Some (Dt_StructType inn))))"
| "DataTypeImpl_to_pb (Array x) =
     try_res (ArrayType_to_pb x) (\<lambda>inn. Inr (pb_DataType VER (Some (Dt_ArrayType inn))))"
| "DataTypeImpl_to_pb Variant =
     try_res VariantType_to_pb (\<lambda>inn. Inr (pb_DataType VER (Some (Dt_VariantType inn))))"
| "DataTypeImpl_to_pb VariantArray =
     try_res VariantArrayType_to_pb (\<lambda>inn. Inr (pb_DataType VER (Some (Dt_VariantArrayType inn))))"
| "DataTypeImpl_to_pb VariantObject =
     try_res VariantObjectType_to_pb (\<lambda>inn. Inr (pb_DataType VER (Some (Dt_VariantObjectType inn))))"
| "DataTypeImpl_to_pb (Interval x) =
     try_res (IntervalType_to_pb x) (\<lambda>inn. Inr (pb_DataType VER (Some (Dt_IntervalType inn))))"
| "NullableType_to_pb (NullableType inner) =
     try_res (DataTypeImpl_to_pb inner) (\<lambda>inner_pb_type. Inr (pb_NullableType VER (Some inner_pb_type)))"
| "StructType_to_pb (StructType names types) =
     try_res (collect_res DataTypeImpl_to_pb types) (\<lambda>ts. Inr (pb_Struct VER names ts))"
| "ArrayType_to_pb (ArrayType inner) =
     try_res (DataTypeImpl_to_pb inner) (\<lambda>inner_pb_type. Inr (pb_Array VER (Some inner_pb_type)))"



section \<open>Schemas, databases and tables\<close>

definition DataField_from_pb :: "pb_DataField \<Rightarrow> Incompatible + DataField" where
  "DataField_from_pb p =
     try_res (check_ver (pbf_ver p)) (\<lambda>_.
     try_res (missing ''DataField.data_type can not be None'' (pbf_data_type p)) (\<lambda>t.
     try_res (DataTypeImpl_from_pb t) (\<lambda>data_type.
     Inr ((DataField_new (pbf_name p) data_type)\<lparr>df_default_expr := pbf_default_expr p\<rparr>))))"

definition DataField_to_pb :: "DataField \<Rightarrow> Incompatible + pb_DataField" where
  "DataField_to_pb self =
     try_res (DataTypeImpl_to_pb (df_data_type self)) (\<lambda>t.
     Inr \<lparr>pbf_ver = VER, pbf_name = df_name self, pbf_default_expr = df_default_expr self, pbf_data_type = Some t\<rparr>)"

definition DataSchema_from_pb :: "pb_DataSchema \<Rightarrow> Incompatible + DataSchema" where
  "DataSchema_from_pb p =
     try_res (check_ver (pbc_ver p)) (\<lambda>_.
     try_res (collect_res DataField_from_pb (pbc_fields p)) (\<lambda>fs.
     Inr \<lparr>ds_fields = fs, ds_metadata = pbc_metadata p\<rparr>))"

definition DataSchema_to_pb :: "DataSchema \<Rightarrow> Incompatible + pb_DataSchema" where
  "DataSchema_to_pb self =
     try_res (collect_res DataField_to_pb (ds_fields self)) (\<lambda>fs.
     Inr \<lparr>pbc_ver = VER, pbc_fields = fs, pbc_metadata = ds_metadata self\<rparr>)"

text \<open>\<open>ToString\<close> and \<open>FromStr\<close> of \<open>DateTime<Utc>\<close>.\<close>

record 'dt chrono =
  date_to_string :: "'dt \<Rightarrow> string"
  date_from_str :: "string \<Rightarrow> string + 'dt"

definition DateTime_from_pb :: "('dt, 'z) chrono_scheme \<Rightarrow> string \<Rightarrow> Incompatible + 'dt" where
  "DateTime_from_pb C p =
     (case date_from_str C p of Inl e \<Rightarrow> Inl (Incompatible (''DateTime error: '' @ e)) | Inr v \<Rightarrow> Inr v)"

definition DateTime_to_pb :: "('dt, 'z) chrono_scheme \<Rightarrow> 'dt \<Rightarrow> Incompatible + string" where
  "DateTime_to_pb C self = Inr (date_to_string C self)"

definition DatabaseNameIdent_from_pb :: "pb_DatabaseNameIdent \<Rightarrow> Incompatible + DatabaseNameIdent" where
  "DatabaseNameIdent_from_pb p =
     try_res (check_ver (pbdn_ver p)) (\<lambda>_. Inr \<lparr>dn_tenant = pbdn_tenant p, dn_db_name = pbdn_db_name p\<rparr>)"

definition DatabaseNameIdent_to_pb :: "DatabaseNameIdent \<Rightarrow> Incompatible + pb_DatabaseNameIdent" where
  "DatabaseNameIdent_to_pb self =
     Inr \<lparr>pbdn_ver = VER, pbdn_tenant = dn_tenant self, pbdn_db_name = dn_db_name self\<rparr>"

definition DatabaseIdent_from_pb :: "pb_DatabaseIdent \<Rightarrow> Incompatible + DatabaseIdent" where
  "DatabaseIdent_from_pb p =
     try_res (check_ver (pbdi_ver p)) (\<lambda>_. Inr \<lparr>di_db_id = pbdi_db_id p, di_seq = pbdi_seq p\<rparr>)"

definition DatabaseIdent_to_pb :: "DatabaseIdent \<Rightarrow> Incompatible + pb_DatabaseIdent" where
  "DatabaseIdent_to_pb self = Inr \<lparr>pbdi_ver = VER, pbdi_db_id = di_db_id self, pbdi_seq = di_seq self\<rparr>"

definition DatabaseMeta_from_pb :: "('dt, 'z) chrono_scheme \<Rightarrow> pb_DatabaseMeta \<Rightarrow> Incompatible + 'dt DatabaseMeta" where
  "DatabaseMeta_from_pb C p =
     try_res (check_ver (pbdm_ver p)) (\<lambda>_.
     try_res (DateTime_from_pb C (pbdm_created_on p)) (\<lambda>created_on.
     try_res (DateTime_from_pb C (pbdm_updated_on p)) (\<lambda>updated_on.
     Inr \<lparr>dm_engine = pbdm_engine p, dm_engine_options = pbdm_engine_options p, dm_options = pbdm_options p,
          dm_created_on = created_on, dm_updated_on = updated_on, dm_comment = pbdm_comment p\<rparr>)))"

definition DatabaseMeta_to_pb :: "('dt, 'z) chrono_scheme \<Rightarrow> 'dt DatabaseMeta \<Rightarrow> Incompatible + pb_DatabaseMeta" where
  "DatabaseMeta_to_pb C self =
     try_res (DateTime_to_pb C (dm_created_on self)) (\<lambda>created_on.
     try_res (DateTime_to_pb C (dm_updated_on self)) (\<lambda>updated_on.
     Inr \<lparr>pbdm_ver = VER, pbdm_engine = dm_engine self, pbdm_engine_options = dm_engine_options self,
          pbdm_options = dm_options self, pbdm_created_on = created_on, pbdm_updated_on = updated_on,
          pbdm_comment = dm_comment self\<rparr>))"

definition DatabaseInfo_from_pb :: "('dt, 'z) chrono_scheme \<Rightarrow> pb_DatabaseInfo \<Rightarrow> Incompatible + 'dt DatabaseInfo" where
  "DatabaseInfo_from_pb C p =
     try_res (check_ver (pbdf_ver p)) (\<lambda>_.
     try_res (missing ''DatabaseInfo.meta can not be None'' (pbdf_meta p)) (\<lambda>meta.
     try_res (missing ''DatabaseInfo.ident'' (pbdf_ident p)) (\<lambda>i.
     try_res (DatabaseIdent_from_pb i) (\<lambda>ident.
     try_res (missing ''DatabaseInfo.name_ident'' (pbdf_name_ident p)) (\<lambda>n.
     try_res (DatabaseNameIdent_from_pb n) (\<lambda>name_ident.
     try_res (DatabaseMeta_from_pb C meta) (\<lambda>meta.
     Inr \<lparr>dinfo_ident = ident, dinfo_name_ident = name_ident, dinfo_meta = meta\<rparr>)))))))"

definition DatabaseInfo_to_pb :: "('dt, 'z) chrono_scheme \<Rightarrow> 'dt DatabaseInfo \<Rightarrow> Incompatible + pb_DatabaseInfo" where
  "DatabaseInfo_to_pb C self =
     try_res (DatabaseIdent_to_pb (dinfo_ident self)) (\<lambda>ident.
     try_res (DatabaseNameIdent_to_pb (dinfo_name_ident self)) (\<lambda>name_ident.
     try_res (DatabaseMeta_to_pb C (dinfo_meta self)) (\<lambda>meta.
     Inr \<lparr>pbdf_ver = VER, pbdf_ident = Some ident, pbdf_name_ident = Some name_ident, pbdf_meta = Some meta\<rparr>)))"

definition TableNameIdent_from_pb :: "pb_TableNameIdent \<Rightarrow> Incompatible + TableNameIdent" where
  "TableNameIdent_from_pb p =
     try_res (check_ver (pbtn_ver p)) (\<lambda>_.
     Inr \<lparr>tn_tenant = pbtn_tenant p, tn_db_name = pbtn_db_name p, tn_table_name = pbtn_table_name p\<rparr>)"

definition TableNameIdent_to_pb :: "TableNameIdent \<Rightarrow> Incompatible + pb_TableNameIdent" where
  "TableNameIdent_to_pb self =
     Inr \<lparr>pbtn_ver = VER, pbtn_tenant = tn_tenant self, pbtn_db_name = tn_db_name self,
          pbtn_table_name = tn_table_name self\<rparr>"

definition TableIdent_from_pb :: "pb_TableIdent \<Rightarrow> Incompatible + TableIdent" where
  "TableIdent_from_pb p =
     try_res (check_ver (pbti_ver p)) (\<lambda>_. Inr \<lparr>ti_table_id = pbti_table_id p, ti_seq = pbti_seq p\<rparr>)"

definition TableIdent_to_pb :: "TableIdent \<Rightarrow> Incompatible + pb_TableIdent" where
  "TableIdent_to_pb self = Inr \<lparr>pbti_ver = VER, pbti_table_id = ti_table_id self, pbti_seq = ti_seq self\<rparr>"

definition TableMeta_from_pb :: "('dt, 'z) chrono_scheme \<Rightarrow> pb_TableMeta \<Rightarrow> Incompatible + 'dt TableMeta" where
  "TableMeta_from_pb C p =
     try_res (check_ver (pbtm_ver p)) (\<lambda>_.
     try_res (missing ''TableMeta.schema can not be None'' (pbtm_schema p)) (\<lambda>x.
     try_res (DataSchema_from_pb x) (\<lambda>schema.
     try_res (DateTime_from_pb C (pbtm_created_on p)) (\<lambda>created_on.
     try_res (DateTime_from_pb C (pbtm_updated_on p)) (\<lambda>updated_on.
     Inr \<lparr>tm_schema = schema, tm_engine = pbtm_engine p, tm_engine_options = pbtm_engine_options p,
          tm_options = pbtm_options p, tm_order_keys = pbtm_order_keys p, tm_created_on = created_on,
          tm_updated_on = updated_on, tm_comment = pbtm_comment p\<rparr>)))))"

definition TableMeta_to_pb :: "('dt, 'z) chrono_scheme \<Rightarrow> 'dt TableMeta \<Rightarrow> Incompatible + pb_TableMeta" where
  "TableMeta_to_pb C self =
     try_res (DataSchema_to_pb (tm_schema self)) (\<lambda>schema.
     try_res (DateTime_to_pb C (tm_created_on self)) (\<lambda>created_on.
     try_res (DateTime_to_pb C (tm_updated_on self)) (\<lambda>updated_on.
     Inr \<lparr>pbtm_ver = VER, pbtm_schema = Some schema, pbtm_engine = tm_engine self,
          pbtm_engine_options = tm_engine_options self, pbtm_options = tm_options self,
          pbtm_order_keys = tm_order_keys self, pbtm_created_on = created_on, pbtm_updated_on = updated_on,
          pbtm_comment = tm_comment self\<rparr>)))"

definition TableInfo_from_pb :: "('dt, 'z) chrono_scheme \<Rightarrow> pb_TableInfo \<Rightarrow> Incompatible + 'dt TableInfo" where
  "TableInfo_from_pb C p =
     try_res (check_ver (pbtf_ver p)) (\<lambda>_.
     try_res (missing ''TableInfo.ident can not be None'' (pbtf_ident p)) (\<lambda>i.
     try_res (TableIdent_from_pb i) (\<lambda>ident.
     try_res (missing ''TableInfo.meta can not be None'' (pbtf_meta p)) (\<lambda>m.
     try_res (TableMeta_from_pb C m) (\<lambda>meta.
     Inr \<lparr>tinfo_ident = ident, tinfo_desc = pbtf_desc p, tinfo_name = pbtf_name p, tinfo_meta = meta\<rparr>)))))"

definition TableInfo_to_pb :: "('dt, 'z) chrono_scheme \<Rightarrow> 'dt TableInfo \<Rightarrow> Incompatible + pb_TableInfo" where
  "TableInfo_to_pb C self =
     try_res (TableIdent_to_pb (tinfo_ident self)) (\<lambda>ident.
     try_res (TableMeta_to_pb C (tinfo_meta self)) (\<lambda>meta.
     Inr \<lparr>pbtf_ver = VER, pbtf_ident = Some ident, pbtf_desc = tinfo_desc self, pbtf_name = tinfo_name self,
          pbtf_meta = Some meta\<rparr>))"

end
