(* ===== verification/Schema_Api.thy ===== *)
theory Schema_Api
  imports KV_Api Proto_Conv
begin

text \<open>
  The schema layer (\<open>common/meta/api/src/schema_api_impl.rs\<close>): databases and tables on top of
  any \<open>KVApi\<close>. Every operation that loops until its transaction is accepted is a step, one
  turn of the loop, run by \<open>retry\<close> with fuel. The serialization of ids (serde_json) and of
  the protobuf messages (prost) is a parameter, the record \<open>schema_codec\<close>.
\<close>

section \<open>Serialization\<close>

record 'dt schema_codec = "'dt chrono" +
  id_to_vec :: "u64 \<Rightarrow> string + bytes"
  id_from_slice :: "bytes \<Rightarrow> string + u64"
  db_msg_encode :: "pb_DatabaseMeta \<Rightarrow> string + bytes"
  db_msg_decode :: "bytes \<Rightarrow> string + pb_DatabaseMeta"
  tb_msg_encode :: "pb_TableMeta \<Rightarrow> string + bytes"
  tb_msg_decode :: "bytes \<Rightarrow> string + pb_TableMeta"
  err_from_str :: "string \<Rightarrow> MetaError option"

definition meta_encode_err :: "string + 'a \<Rightarrow> MetaError + 'a" where
  "meta_encode_err r = (case r of Inl e \<Rightarrow> Inl (EncodeError e) | Inr a \<Rightarrow> Inr a)"

text \<open>\<open>map_err(meta_encode_err)\<close> on the result of a conversion, which may also have panicked.\<close>

definition conv_encode_err :: "Incompatible + 'a \<Rightarrow> MetaError + 'a" where
  "conv_encode_err r = (case r of
      Inr a \<Rightarrow> Inr a
    | Inl (Incompatible reason) \<Rightarrow> Inl (EncodeError (''Incompatible: '' @ reason))
    | Inl (ConvPanic m) \<Rightarrow> Inl (Panic m))"

definition serialize_id :: "'dt schema_codec \<Rightarrow> u64 \<Rightarrow> MetaError + bytes" where
  "serialize_id C i = meta_encode_err (id_to_vec C i)"

definition deserialize_id :: "'dt schema_codec \<Rightarrow> bytes \<Rightarrow> MetaError + u64" where
  "deserialize_id C v = meta_encode_err (id_from_slice C v)"

text \<open>\<open>serialize_struct\<close> and \<open>deserialize_struct\<close>, for any message type.\<close>

definition serialize_struct ::
  "('a \<Rightarrow> Incompatible + 'pb) \<Rightarrow> ('pb \<Rightarrow> string + bytes) \<Rightarrow> 'a \<Rightarrow> MetaError + bytes" where
  "serialize_struct to_pb encode v =
     try_res (conv_encode_err (to_pb v)) (\<lambda>p. meta_encode_err (encode p))"

definition deserialize_struct ::
  "(bytes \<Rightarrow> string + 'pb) \<Rightarrow> ('pb \<Rightarrow> Incompatible + 'a) \<Rightarrow> bytes \<Rightarrow> MetaError + 'a" where
  "deserialize_struct decode from_pb buf =
     try_res (meta_encode_err (decode buf)) (\<lambda>p. conv_encode_err (from_pb p))"

abbreviation serialize_db_meta :: "'dt schema_codec \<Rightarrow> 'dt DatabaseMeta \<Rightarrow> MetaError + bytes" where
  "serialize_db_meta C \<equiv> serialize_struct (DatabaseMeta_to_pb C) (db_msg_encode C)"

abbreviation deserialize_db_meta :: "'dt schema_codec \<Rightarrow> bytes \<Rightarrow> MetaError + 'dt DatabaseMeta" where
  "deserialize_db_meta C \<equiv> deserialize_struct (db_msg_decode C) (DatabaseMeta_from_pb C)"

abbreviation serialize_table_meta :: "'dt schema_codec \<Rightarrow> 'dt TableMeta \<Rightarrow> MetaError + bytes" where
  "serialize_table_meta C \<equiv> serialize_struct (TableMeta_to_pb C) (tb_msg_encode C)"

abbreviation deserialize_table_meta :: "'dt schema_codec \<Rightarrow> bytes \<Rightarrow> MetaError + 'dt TableMeta" where
  "deserialize_table_meta C \<equiv> deserialize_struct (tb_msg_decode C) (TableMeta_from_pb C)"


section \<open>Helpers on the key-value store\<close>

definition get_id_value ::
  "'s kv_api \<Rightarrow> 'dt schema_codec \<Rightarrow> string \<Rightarrow> 's \<Rightarrow> (MetaError, u64 \<times> u64, 's) st_result" where
  "get_id_value api C key s =
     try_st (api_get_kv api key s) (\<lambda>res s.
       case res of
         Some seq_v \<Rightarrow> (try_res (deserialize_id C (sv_data seq_v)) (\<lambda>i. Inr (sv_seq seq_v, i)), s)
       | None \<Rightarrow> (Inr (0, 0), s))"

text \<open>\<open>from_key\<close> is the parser of the structured key; its error is an encode error.\<close>

definition key_encode_err :: "KVApiKeyError + 'a \<Rightarrow> MetaError + 'a" where
  "key_encode_err r = (case r of
      Inr a \<Rightarrow> Inr a
    | Inl (KeyPanic m) \<Rightarrow> Inl (Panic m)
    | Inl _ \<Rightarrow> Inl (EncodeError ''invalid key''))"

definition list_id_value ::
  "'s kv_api \<Rightarrow> 'dt schema_codec \<Rightarrow> (string \<Rightarrow> KVApiKeyError + 'k) \<Rightarrow> string \<Rightarrow> 's
     \<Rightarrow> (MetaError, 'k list \<times> u64 list, 's) st_result" where
  "list_id_value api C from_key key s =
     try_st (api_prefix_list_kv api key s) (\<lambda>res s.
       (try_res (collect_res (\<lambda>(str_key, seq_id).
            try_res (deserialize_id C (sv_data seq_id)) (\<lambda>i.
            try_res (key_encode_err (from_key str_key)) (\<lambda>k. Inr (k, i)))) res)
          (\<lambda>kis. Inr (map fst kis, map snd kis)), s))"

definition get_db_value ::
  "'s kv_api \<Rightarrow> 'dt schema_codec \<Rightarrow> DatabaseId \<Rightarrow> 's
     \<Rightarrow> (MetaError, u64 \<times> 'dt DatabaseMeta option, 's) st_result" where
  "get_db_value api C k s =
     try_st (api_get_kv api (DatabaseId_to_key k) s) (\<lambda>res s.
       case res of
         Some seq_v \<Rightarrow> (try_res (deserialize_db_meta C (sv_data seq_v)) (\<lambda>m. Inr (sv_seq seq_v, Some m)), s)
       | None \<Rightarrow> (Inr (0, None), s))"

definition get_table_value ::
  "'s kv_api \<Rightarrow> 'dt schema_codec \<Rightarrow> TableId \<Rightarrow> 's
     \<Rightarrow> (MetaError, u64 \<times> 'dt TableMeta option, 's) st_result" where
  "get_table_value api C k s =
     try_st (api_get_kv api (TableId_to_key k) s) (\<lambda>res s.
       case res of
         Some seq_v \<Rightarrow> (try_res (deserialize_table_meta C (sv_data seq_v)) (\<lambda>m. Inr (sv_seq seq_v, Some m)), s)
       | None \<Rightarrow> (Inr (0, None), s))"

definition db_has_to_exist :: "u64 \<Rightarrow> DatabaseNameIdent \<Rightarrow> string \<Rightarrow> MetaError + unit" where
  "db_has_to_exist sq ident msg =
     (if sq = 0 then Inl (AppErr (UnknownDatabase (dn_db_name ident) (msg @ '': '' @ DatabaseNameIdent_display ident)))
      else Inr ())"

definition table_has_to_exist :: "u64 \<Rightarrow> TableNameIdent \<Rightarrow> string \<Rightarrow> MetaError + unit" where
  "table_has_to_exist sq ident ctx =
     (if sq = 0 then Inl (AppErr (UnknownTable (tn_table_name ident) (ctx @ '': '' @ TableNameIdent_display ident)))
      else Inr ())"

definition db_has_to_not_exist :: "u64 \<Rightarrow> DatabaseNameIdent \<Rightarrow> string \<Rightarrow> MetaError + unit" where
  "db_has_to_not_exist sq ident ctx =
     (if sq = 0 then Inr ()
      else Inl (AppErr (DatabaseAlreadyExists (dn_db_name ident) (ctx @ '': '' @ DatabaseNameIdent_display ident))))"

definition table_has_to_not_exist :: "u64 \<Rightarrow> TableNameIdent \<Rightarrow> string \<Rightarrow> MetaError + unit" where
  "table_has_to_not_exist sq ident ctx =
     (if sq = 0 then Inr ()
      else Inl (AppErr (TableAlreadyExists (tn_table_name ident) (ctx @ '': '' @ TableNameIdent_display ident))))"

text \<open>Returns \<open>(db_id_seq, db_id, db_meta_seq, db_meta)\<close>.\<close>

definition get_db_or_err ::
  "'s kv_api \<Rightarrow> 'dt schema_codec \<Rightarrow> DatabaseNameIdent \<Rightarrow> string \<Rightarrow> 's
     \<Rightarrow> (MetaError, u64 \<times> u64 \<times> u64 \<times> 'dt DatabaseMeta, 's) st_result" where
  "get_db_or_err api C name_key msg s =
     try_st (get_id_value api C (DatabaseNameIdent_to_key name_key) s) (\<lambda>(db_id_seq, d) s.
     try_st (lift_res (db_has_to_exist db_id_seq name_key msg) s) (\<lambda>_ s.
     try_st (get_db_value api C \<lparr>db_id = d\<rparr> s) (\<lambda>(db_meta_seq, db_meta) s.
     try_st (lift_res (db_has_to_exist db_meta_seq name_key msg) s) (\<lambda>_ s.
     case db_meta of
       Some m \<Rightarrow> (Inr (db_id_seq, d, db_meta_seq, m), s)
     | None \<Rightarrow> (Inl (Panic ''unwrap''), s)))))"

definition fetch_id :: "'s kv_api \<Rightarrow> string \<Rightarrow> 's \<Rightarrow> (MetaError, u64, 's) st_result" where
  "fetch_id api generator s =
     try_st (api_upsert_kv api
       \<lparr>up_key = generator, up_seq = Any, up_value = Update '''', up_value_meta = None\<rparr> s) (\<lambda>res s.
     case ch_result res of
       Some seq_v \<Rightarrow> (Inr (sv_seq seq_v), s)
     | None \<Rightarrow> (Inl (Panic ''unwrap''), s))"

definition txn_cond_seq :: "string \<Rightarrow> ConditionResult \<Rightarrow> u64 \<Rightarrow> TxnCondition" where
  "txn_cond_seq key op sq =
     \<lparr>tc_key = key, tc_target = Some (Target_Seq sq), tc_expected = ConditionResult_as_i32 op\<rparr>"

definition txn_op_put :: "string \<Rightarrow> bytes \<Rightarrow> TxnOp" where
  "txn_op_put key v = Some (Req_Put \<lparr>put_key = key, put_value = v, put_prev_value = True\<rparr>)"

definition txn_op_del :: "string \<Rightarrow> TxnOp" where
  "txn_op_del key = Some (Req_Delete \<lparr>del_key = key, del_prev_value = True\<rparr>)"

definition send_txn ::
  "'s kv_api \<Rightarrow> 'dt schema_codec \<Rightarrow> TxnRequest \<Rightarrow> 's
     \<Rightarrow> (MetaError, bool \<times> TxnOpResponse list, 's) st_result" where
  "send_txn api C txn_req s =
     try_st (api_transaction api txn_req s) (\<lambda>tx_reply s. (TxnReply_into (err_from_str C) tx_reply, s))"


section \<open>Databases\<close>

text \<open>
  The transaction of \<open>create_database\<close>: \<open>(tenant, db_name) -> db_id\<close> and \<open>db_id -> meta\<close>, on
  condition that the name is not taken.
\<close>

definition create_database_txn ::
  "'dt schema_codec \<Rightarrow> DatabaseNameIdent \<Rightarrow> u64 \<Rightarrow> 'dt DatabaseMeta \<Rightarrow> MetaError + TxnRequest" where
  "create_database_txn C name_key d meta =
     try_res (serialize_id C d) (\<lambda>idv.
     try_res (serialize_db_meta C meta) (\<lambda>mv.
     Inr \<lparr>txn_condition = [txn_cond_seq (DatabaseNameIdent_to_key name_key) CEq 0],
          txn_if_then = [txn_op_put (DatabaseNameIdent_to_key name_key) idv,
                         txn_op_put (DatabaseId_to_key \<lparr>db_id = d\<rparr>) mv],
          txn_else_then = []\<rparr>))"

definition create_database_step ::
  "'s kv_api \<Rightarrow> 'dt schema_codec \<Rightarrow> 'dt CreateDatabaseReq \<Rightarrow> 's
     \<Rightarrow> (MetaError, u64 option, 's) st_result" where
  "create_database_step api C req s =
     (let name_key = cd_name_ident req
      in try_st (get_id_value api C (DatabaseNameIdent_to_key name_key) s) (\<lambda>(db_id_seq, d) s.
         if db_id_seq > 0 then
           (if cd_if_not_exists req then (Inr (Some d), s)
            else (Inl (AppErr (DatabaseAlreadyExists (dn_db_name name_key)
                    (''create db: tenant: '' @ dn_tenant name_key))), s))
         else
           try_st (fetch_id api DatabaseIdGen_to_key s) (\<lambda>d s.
           try_st (lift_res (create_database_txn C name_key d (cd_meta req)) s) (\<lambda>txn_req s.
           try_st (send_txn api C txn_req s) (\<lambda>(succ, _) s.
           (Inr (if succ then Some d else None), s))))))"

definition create_database ::
  "nat \<Rightarrow> 's kv_api \<Rightarrow> 'dt schema_codec \<Rightarrow> 'dt CreateDatabaseReq \<Rightarrow> 's
     \<Rightarrow> (MetaError + u64) option \<times> 's" where
  "create_database fuel api C req s = retry fuel (create_database_step api C req) s"

definition drop_database_txn :: "DatabaseNameIdent \<Rightarrow> u64 \<Rightarrow> u64 \<Rightarrow> u64 \<Rightarrow> TxnRequest" where
  "drop_database_txn tenant_dbname db_id_seq d db_meta_seq =
     \<lparr>txn_condition = [txn_cond_seq (DatabaseNameIdent_to_key tenant_dbname) CEq db_id_seq,
                       txn_cond_seq (DatabaseId_to_key \<lparr>db_id = d\<rparr>) CEq db_meta_seq],
      txn_if_then = [txn_op_del (DatabaseNameIdent_to_key tenant_dbname),
                     txn_op_del (DatabaseId_to_key \<lparr>db_id = d\<rparr>)],
      txn_else_then = []\<rparr>"

definition drop_database_step ::
  "'s kv_api \<Rightarrow> 'dt schema_codec \<Rightarrow> DropDatabaseReq \<Rightarrow> 's \<Rightarrow> (MetaError, unit option, 's) st_result" where
  "drop_database_step api C req s =
     (let tenant_dbname = dd_name_ident req
      in case get_db_or_err api C tenant_dbname
                (''drop_database: '' @ DatabaseNameIdent_display tenant_dbname) s of
           (Inl e, s) \<Rightarrow>
             (case e of
                AppErr (UnknownDatabase _ _) \<Rightarrow> (if dd_if_exists req then (Inr (Some ()), s) else (Inl e, s))
              | _ \<Rightarrow> (Inl e, s))
         | (Inr (db_id_seq, d, db_meta_seq, _), s) \<Rightarrow>
             try_st (send_txn api C (drop_database_txn tenant_dbname db_id_seq d db_meta_seq) s) (\<lambda>(succ, _) s.
             (Inr (if succ then Some () else None), s)))"

definition drop_database ::
  "nat \<Rightarrow> 's kv_api \<Rightarrow> 'dt schema_codec \<Rightarrow> DropDatabaseReq \<Rightarrow> 's \<Rightarrow> (MetaError + unit) option \<times> 's" where
  "drop_database fuel api C req s = retry fuel (drop_database_step api C req) s"

definition rename_database_txn ::
  "'dt schema_codec \<Rightarrow> DatabaseNameIdent \<Rightarrow> DatabaseNameIdent \<Rightarrow> u64 \<Rightarrow> u64 \<Rightarrow> MetaError + TxnRequest" where
  "rename_database_txn C tenant_dbname tenant_newdbname old_db_id_seq old_db_id =
     try_res (serialize_id C old_db_id) (\<lambda>idv.
     Inr \<lparr>txn_condition = [txn_cond_seq (DatabaseNameIdent_to_key tenant_dbname) CEq old_db_id_seq,
                           txn_cond_seq (DatabaseNameIdent_to_key tenant_newdbname) CEq 0],
          txn_if_then = [txn_op_del (DatabaseNameIdent_to_key tenant_dbname),
                         txn_op_put (DatabaseNameIdent_to_key tenant_newdbname) idv],
          txn_else_then = []\<rparr>)"

definition rename_database_step ::
  "'s kv_api \<Rightarrow> 'dt schema_codec \<Rightarrow> RenameDatabaseReq \<Rightarrow> 's \<Rightarrow> (MetaError, unit option, 's) st_result" where
  "rename_database_step api C req s =
     (let tenant_dbname = rd_name_ident req;
          tenant_newdbname = \<lparr>dn_tenant = dn_tenant tenant_dbname, dn_db_name = rd_new_db_name req\<rparr>
      in try_st (get_id_value api C (DatabaseNameIdent_to_key tenant_dbname) s) (\<lambda>(old_db_id_seq, old_db_id) s.
         if rd_if_exists req \<and> old_db_id_seq = 0 then (Inr (Some ()), s)
         else
           try_st (lift_res (if rd_if_exists req then Inr ()
                             else db_has_to_exist old_db_id_seq tenant_dbname ''rename_database: src (db)'') s) (\<lambda>_ s.
           try_st (get_id_value api C (DatabaseNameIdent_to_key tenant_newdbname) s) (\<lambda>(db_id_seq, _) s.
           try_st (lift_res (db_has_to_not_exist db_id_seq tenant_newdbname ''rename_database'') s) (\<lambda>_ s.
           try_st (lift_res (rename_database_txn C tenant_dbname tenant_newdbname old_db_id_seq old_db_id) s) (\<lambda>txn_req s.
           try_st (send_txn api C txn_req s) (\<lambda>(succ, _) s.
           (Inr (if succ then Some () else None), s))))))))"

definition rename_database ::
  "nat \<Rightarrow> 's kv_api \<Rightarrow> 'dt schema_codec \<Rightarrow> RenameDatabaseReq \<Rightarrow> 's \<Rightarrow> (MetaError + unit) option \<times> 's" where
  "rename_database fuel api C req s = retry fuel (rename_database_step api C req) s"

definition get_database ::
  "'s kv_api \<Rightarrow> 'dt schema_codec \<Rightarrow> DatabaseNameIdent \<Rightarrow> 's \<Rightarrow> (MetaError, 'dt DatabaseInfo, 's) st_result" where
  "get_database api C name_key s =
     try_st (get_db_or_err api C name_key ''get_database'' s) (\<lambda>(_, d, db_meta_seq, db_meta) s.
     (Inr \<lparr>dinfo_ident = \<lparr>di_db_id = d, di_seq = db_meta_seq\<rparr>,
           dinfo_name_ident = name_key, dinfo_meta = db_meta\<rparr>, s))"

text \<open>One pass over the metas that were fetched: those deleted meanwhile are skipped.\<close>

fun collect_databases ::
  "'dt schema_codec \<Rightarrow> string \<Rightarrow> (DatabaseNameIdent \<times> u64 \<times> bytes SeqV option) list
     \<Rightarrow> MetaError + 'dt DatabaseInfo list" where
  "collect_databases C tenant [] = Inr []"
| "collect_databases C tenant ((name, d, None) # rest) = collect_databases C tenant rest"
| "collect_databases C tenant ((name, d, Some seq_meta) # rest) =
     try_res (deserialize_db_meta C (sv_data seq_meta)) (\<lambda>db_meta.
     try_res (collect_databases C tenant rest) (\<lambda>infos.
     Inr (\<lparr>dinfo_ident = \<lparr>di_db_id = d, di_seq = sv_seq seq_meta\<rparr>,
            dinfo_name_ident = \<lparr>dn_tenant = tenant, dn_db_name = dn_db_name name\<rparr>,
            dinfo_meta = db_meta\<rparr> # infos)))"

definition list_databases ::
  "'s kv_api \<Rightarrow> 'dt schema_codec \<Rightarrow> string \<Rightarrow> 's \<Rightarrow> (MetaError, 'dt DatabaseInfo list, 's) st_result" where
  "list_databases api C tenant s =
     (let name_key = \<lparr>dn_tenant = tenant, dn_db_name = ''''\<rparr>
      in try_st (list_id_value api C DatabaseNameIdent_from_key (DatabaseNameIdent_to_key name_key) s)
           (\<lambda>(tenant_dbnames, db_ids) s.
         try_st (api_mget_kv api (map (\<lambda>d. DatabaseId_to_key \<lparr>db_id = d\<rparr>) db_ids) s) (\<lambda>seq_metas s.
         (collect_databases C tenant (zip tenant_dbnames (zip db_ids seq_metas)), s))))"


section \<open>Tables\<close>

definition create_table_txn ::
  "'dt schema_codec \<Rightarrow> u64 \<Rightarrow> u64 \<Rightarrow> 'dt DatabaseMeta \<Rightarrow> DBIdTableName \<Rightarrow> u64
     \<Rightarrow> 'dt TableMeta \<Rightarrow> MetaError + TxnRequest" where
  "create_table_txn C d db_meta_seq db_meta dbid_tbname t tb_meta =
     try_res (serialize_db_meta C db_meta) (\<lambda>dv.
     try_res (serialize_id C t) (\<lambda>idv.
     try_res (serialize_table_meta C tb_meta) (\<lambda>tv.
     Inr \<lparr>txn_condition = [txn_cond_seq (DatabaseId_to_key \<lparr>db_id = d\<rparr>) CEq db_meta_seq,
                           txn_cond_seq (DBIdTableName_to_key dbid_tbname) CEq 0],
          txn_if_then = [txn_op_put (DatabaseId_to_key \<lparr>db_id = d\<rparr>) dv,
                         txn_op_put (DBIdTableName_to_key dbid_tbname) idv,
                         txn_op_put (TableId_to_key \<lparr>table_id = t\<rparr>) tv],
          txn_else_then = []\<rparr>)))"

definition create_table_step ::
  "'s kv_api \<Rightarrow> 'dt schema_codec \<Rightarrow> 'dt CreateTableReq \<Rightarrow> 's
     \<Rightarrow> (MetaError, u64 option, 's) st_result" where
  "create_table_step api C req s =
     (let name = ct_name_ident req
      in try_st (get_db_or_err api C (db_name_ident name) ''create_table'' s) (\<lambda>(_, d, db_meta_seq, db_meta) s.
         let dbid_tbname = \<lparr>dt_db_id = d, dt_table_name = tn_table_name name\<rparr>
         in try_st (get_id_value api C (DBIdTableName_to_key dbid_tbname) s) (\<lambda>(tb_id_seq, tb_id) s.
            if tb_id_seq > 0 then
              (if ct_if_not_exists req then (Inr (Some tb_id), s)
               else (Inl (AppErr (TableAlreadyExists (tn_table_name name)
                       (''create_table: '' @ TableNameIdent_display name))), s))
            else
              try_st (fetch_id api TableIdGen_to_key s) (\<lambda>t s.
              try_st (lift_res (create_table_txn C d db_meta_seq db_meta dbid_tbname t (ct_table_meta req)) s) (\<lambda>txn_req s.
              try_st (send_txn api C txn_req s) (\<lambda>(succ, _) s.
              (Inr (if succ then Some t else None), s)))))))"

definition create_table ::
  "nat \<Rightarrow> 's kv_api \<Rightarrow> 'dt schema_codec \<Rightarrow> 'dt CreateTableReq \<Rightarrow> 's
     \<Rightarrow> (MetaError + u64) option \<times> 's" where
  "create_table fuel api C req s = retry fuel (create_table_step api C req) s"

definition drop_table_txn ::
  "'dt schema_codec \<Rightarrow> u64 \<Rightarrow> u64 \<Rightarrow> 'dt DatabaseMeta \<Rightarrow> DBIdTableName \<Rightarrow> u64 \<Rightarrow> u64 \<Rightarrow> u64
     \<Rightarrow> MetaError + TxnRequest" where
  "drop_table_txn C d db_meta_seq db_meta dbid_tbname tb_id_seq t tb_meta_seq =
     try_res (serialize_db_meta C db_meta) (\<lambda>dv.
     Inr \<lparr>txn_condition = [txn_cond_seq (DatabaseId_to_key \<lparr>db_id = d\<rparr>) CEq db_meta_seq,
                           txn_cond_seq (DBIdTableName_to_key dbid_tbname) CEq tb_id_seq,
                           txn_cond_seq (TableId_to_key \<lparr>table_id = t\<rparr>) CEq tb_meta_seq],
          txn_if_then = [txn_op_put (DatabaseId_to_key \<lparr>db_id = d\<rparr>) dv,
                         txn_op_del (DBIdTableName_to_key dbid_tbname),
                         txn_op_del (TableId_to_key \<lparr>table_id = t\<rparr>)],
          txn_else_then = []\<rparr>)"

definition drop_table_step ::
  "'s kv_api \<Rightarrow> 'dt schema_codec \<Rightarrow> DropTableReq \<Rightarrow> 's \<Rightarrow> (MetaError, unit option, 's) st_result" where
  "drop_table_step api C req s =
     (let name = dt_name_ident req
      in try_st (get_db_or_err api C (db_name_ident name) ''drop_table'' s) (\<lambda>(_, d, db_meta_seq, db_meta) s.
         let dbid_tbname = \<lparr>dt_db_id = d, dt_table_name = tn_table_name name\<rparr>
         in try_st (get_id_value api C (DBIdTableName_to_key dbid_tbname) s) (\<lambda>(tb_id_seq, t) s.
            if tb_id_seq = 0 then
              (if dt_if_exists req then (Inr (Some ()), s)
               else (Inl (AppErr (UnknownTable (tn_table_name name)
                       (''drop_table: '' @ TableNameIdent_display name))), s))
            else
              try_st (get_table_value api C \<lparr>table_id = t\<rparr> s) (\<lambda>(tb_meta_seq, _) s.
              try_st (lift_res (drop_table_txn C d db_meta_seq db_meta dbid_tbname tb_id_seq t tb_meta_seq) s) (\<lambda>txn_req s.
              try_st (send_txn api C txn_req s) (\<lambda>(succ, _) s.
              (Inr (if succ then Some () else None), s)))))))"

definition drop_table ::
  "nat \<Rightarrow> 's kv_api \<Rightarrow> 'dt schema_codec \<Rightarrow> DropTableReq \<Rightarrow> 's \<Rightarrow> (MetaError + unit) option \<times> 's" where
  "drop_table fuel api C req s = retry fuel (drop_table_step api C req) s"

definition rename_table_txn ::
  "'dt schema_codec \<Rightarrow> u64 \<Rightarrow> u64 \<Rightarrow> 'dt DatabaseMeta \<Rightarrow> u64 \<Rightarrow> u64 \<Rightarrow> 'dt DatabaseMeta
     \<Rightarrow> DBIdTableName \<Rightarrow> u64 \<Rightarrow> u64 \<Rightarrow> DBIdTableName \<Rightarrow> MetaError + TxnRequest" where
  "rename_table_txn C d db_meta_seq db_meta new_d new_db_meta_seq new_db_meta dbid_tbname tb_id_seq t newdbid_newtbname =
     try_res (serialize_id C t) (\<lambda>idv.
     try_res (serialize_db_meta C db_meta) (\<lambda>dv.
     try_res (if d \<noteq> new_d
              then try_res (serialize_db_meta C new_db_meta) (\<lambda>nv.
                   Inr [txn_op_put (DatabaseId_to_key \<lparr>db_id = new_d\<rparr>) nv])
              else Inr []) (\<lambda>more.
     Inr \<lparr>txn_condition = [txn_cond_seq (DatabaseId_to_key \<lparr>db_id = d\<rparr>) CEq db_meta_seq,
                           txn_cond_seq (DatabaseId_to_key \<lparr>db_id = new_d\<rparr>) CEq new_db_meta_seq,
                           txn_cond_seq (DBIdTableName_to_key dbid_tbname) CEq tb_id_seq,
                           txn_cond_seq (DBIdTableName_to_key newdbid_newtbname) CEq 0],
          txn_if_then = [txn_op_del (DBIdTableName_to_key dbid_tbname),
                         txn_op_put (DBIdTableName_to_key newdbid_newtbname) idv,
                         txn_op_put (DatabaseId_to_key \<lparr>db_id = d\<rparr>) dv] @ more,
          txn_else_then = []\<rparr>)))"

definition rename_table_step ::
  "'s kv_api \<Rightarrow> 'dt schema_codec \<Rightarrow> RenameTableReq \<Rightarrow> 's \<Rightarrow> (MetaError, u64 option, 's) st_result" where
  "rename_table_step api C req s =
     (let name = rt_name_ident req;
          new_name = \<lparr>tn_tenant = tn_tenant name, tn_db_name = rt_new_db_name req,
                      tn_table_name = rt_new_table_name req\<rparr>
      in try_st (get_db_or_err api C (db_name_ident name) ''rename_table'' s) (\<lambda>(_, d, db_meta_seq, db_meta) s.
         let dbid_tbname = \<lparr>dt_db_id = d, dt_table_name = tn_table_name name\<rparr>
         in try_st (get_id_value api C (DBIdTableName_to_key dbid_tbname) s) (\<lambda>(tb_id_seq, t) s.
            if rt_if_exists req \<and> tb_id_seq = 0 then (Inr (Some 0), s)
            else
              try_st (lift_res (if rt_if_exists req then Inr ()
                                else table_has_to_exist tb_id_seq name ''rename_table: src (db,table)'') s) (\<lambda>_ s.
              try_st (get_db_or_err api C \<lparr>dn_tenant = tn_tenant name, dn_db_name = rt_new_db_name req\<rparr>
                        ''rename_table: new db'' s) (\<lambda>(_, new_d, new_db_meta_seq, new_db_meta) s.
              let newdbid_newtbname = \<lparr>dt_db_id = new_d, dt_table_name = rt_new_table_name req\<rparr>
              in try_st (get_id_value api C (DBIdTableName_to_key newdbid_newtbname) s) (\<lambda>(new_tb_id_seq, _) s.
                 try_st (lift_res (table_has_to_not_exist new_tb_id_seq new_name ''rename_table'') s) (\<lambda>_ s.
                 try_st (lift_res (rename_table_txn C d db_meta_seq db_meta new_d new_db_meta_seq new_db_meta
                                     dbid_tbname tb_id_seq t newdbid_newtbname) s) (\<lambda>txn_req s.
                 try_st (send_txn api C txn_req s) (\<lambda>(succ, _) s.
                 (Inr (if succ then Some t else None), s)))))))))) "

definition rename_table ::
  "nat \<Rightarrow> 's kv_api \<Rightarrow> 'dt schema_codec \<Rightarrow> RenameTableReq \<Rightarrow> 's \<Rightarrow> (MetaError + u64) option \<times> 's" where
  "rename_table fuel api C req s = retry fuel (rename_table_step api C req) s"

definition get_table ::
  "'s kv_api \<Rightarrow> 'dt schema_codec \<Rightarrow> TableNameIdent \<Rightarrow> 's \<Rightarrow> (MetaError, 'dt TableInfo, 's) st_result" where
  "get_table api C name s =
     try_st (get_id_value api C (DatabaseNameIdent_to_key (db_name_ident name)) s) (\<lambda>(db_id_seq, d) s.
     try_st (lift_res (db_has_to_exist db_id_seq (db_name_ident name)
               (''get_table: '' @ TableNameIdent_display name)) s) (\<lambda>_ s.
     try_st (get_id_value api C (DBIdTableName_to_key \<lparr>dt_db_id = d, dt_table_name = tn_table_name name\<rparr>) s)
       (\<lambda>(tb_id_seq, t) s.
     try_st (lift_res (table_has_to_exist tb_id_seq name ''get_table'') s) (\<lambda>_ s.
     try_st (get_table_value api C \<lparr>table_id = t\<rparr> s) (\<lambda>(tb_meta_seq, tb_meta) s.
     try_st (lift_res (table_has_to_exist tb_meta_seq name (''get_table meta by: '' @ dec64 t)) s) (\<lambda>_ s.
     case tb_meta of
       Some m \<Rightarrow> (Inr \<lparr>tinfo_ident = \<lparr>ti_table_id = t, ti_seq = tb_meta_seq\<rparr>,
                       tinfo_desc = TableNameIdent_display name,
                       tinfo_name = tn_table_name name, tinfo_meta = m\<rparr>, s)
     | None \<Rightarrow> (Inl (Panic ''unwrap''), s)))))))"

fun collect_tables ::
  "'dt schema_codec \<Rightarrow> string \<Rightarrow> (DBIdTableName \<times> u64 \<times> bytes SeqV option) list
     \<Rightarrow> MetaError + 'dt TableInfo list" where
  "collect_tables C db_name [] = Inr []"
| "collect_tables C db_name ((name, t, None) # rest) = collect_tables C db_name rest"
| "collect_tables C db_name ((name, t, Some seq_meta) # rest) =
     try_res (deserialize_table_meta C (sv_data seq_meta)) (\<lambda>tb_meta.
     try_res (collect_tables C db_name rest) (\<lambda>infos.
     Inr (\<lparr>tinfo_ident = \<lparr>ti_table_id = t, ti_seq = sv_seq seq_meta\<rparr>,
            tinfo_desc = quoted db_name @ ''.'' @ quoted (dt_table_name name),
            tinfo_name = dt_table_name name, tinfo_meta = tb_meta\<rparr> # infos)))"

definition list_tables ::
  "'s kv_api \<Rightarrow> 'dt schema_codec \<Rightarrow> DatabaseNameIdent \<Rightarrow> 's
     \<Rightarrow> (MetaError, 'dt TableInfo list, 's) st_result" where
  "list_tables api C tenant_dbname s =
     try_st (get_id_value api C (DatabaseNameIdent_to_key tenant_dbname) s) (\<lambda>(db_id_seq, d) s.
     try_st (lift_res (db_has_to_exist db_id_seq tenant_dbname ''list_tables'') s) (\<lambda>_ s.
     try_st (list_id_value api C DBIdTableName_from_key
               (DBIdTableName_to_key \<lparr>dt_db_id = d, dt_table_name = ''''\<rparr>) s) (\<lambda>(dbid_tbnames, ids) s.
     try_st (api_mget_kv api (map (\<lambda>t. TableId_to_key \<lparr>table_id = t\<rparr>) ids) s) (\<lambda>seq_tb_metas s.
     (collect_tables C (dn_db_name tenant_dbname) (zip dbid_tbnames (zip ids seq_tb_metas)), s)))))"

definition get_table_by_id ::
  "'s kv_api \<Rightarrow> 'dt schema_codec \<Rightarrow> u64 \<Rightarrow> 's \<Rightarrow> (MetaError, TableIdent \<times> 'dt TableMeta, 's) st_result" where
  "get_table_by_id api C t s =
     try_st (get_table_value api C \<lparr>table_id = t\<rparr> s) (\<lambda>(tb_meta_seq, table_meta) s.
     case table_meta of
       Some m \<Rightarrow> (if tb_meta_seq = 0 then (Inl (AppErr (UnknownTableId t ''get_table_by_id'')), s)
                  else (Inr (\<lparr>ti_table_id = t, ti_seq = tb_meta_seq\<rparr>, m), s))
     | None \<Rightarrow> (Inl (AppErr (UnknownTableId t ''get_table_by_id'')), s))"

fun update_options :: "(string \<times> string option) list \<Rightarrow> btree \<Rightarrow> btree" where
  "update_options [] opts = opts"
| "update_options ((k, None) # rest) opts = update_options rest (ks_del k opts)"
| "update_options ((k, Some v) # rest) opts = update_options rest (ks_put k v opts)"

definition upsert_table_option_txn ::
  "'dt schema_codec \<Rightarrow> u64 \<Rightarrow> u64 \<Rightarrow> 'dt TableMeta \<Rightarrow> MetaError + TxnRequest" where
  "upsert_table_option_txn C t tb_meta_seq table_meta =
     try_res (serialize_table_meta C table_meta) (\<lambda>tv.
     Inr \<lparr>txn_condition = [txn_cond_seq (TableId_to_key \<lparr>table_id = t\<rparr>) CEq tb_meta_seq],
          txn_if_then = [txn_op_put (TableId_to_key \<lparr>table_id = t\<rparr>) tv],
          txn_else_then = []\<rparr>)"

definition upsert_table_option_step ::
  "'s kv_api \<Rightarrow> 'dt schema_codec \<Rightarrow> UpsertTableOptionReq \<Rightarrow> 's \<Rightarrow> (MetaError, unit option, 's) st_result" where
  "upsert_table_option_step api C req s =
     try_st (get_table_value api C \<lparr>table_id = uo_table_id req\<rparr> s) (\<lambda>(tb_meta_seq, table_meta) s.
     case (if tb_meta_seq = 0 then None else table_meta) of
       None \<Rightarrow> (Inl (AppErr (UnknownTableId (uo_table_id req) ''upsert_table_option'')), s)
     | Some m \<Rightarrow>
         (if \<not> is_ok (match_seq (uo_seq req) tb_meta_seq) then
            (Inl (AppErr (TableVersionMismatched (uo_table_id req) (uo_seq req) tb_meta_seq ''upsert_table_option'')), s)
          else
            try_st (lift_res (upsert_table_option_txn C (uo_table_id req) tb_meta_seq
                      (m\<lparr>tm_options := update_options (uo_options req) (tm_options m)\<rparr>)) s) (\<lambda>txn_req s.
            try_st (send_txn api C txn_req s) (\<lambda>(succ, _) s.
            (Inr (if succ then Some () else None), s)))))"

definition upsert_table_option ::
  "nat \<Rightarrow> 's kv_api \<Rightarrow> 'dt schema_codec \<Rightarrow> UpsertTableOptionReq \<Rightarrow> 's \<Rightarrow> (MetaError + unit) option \<times> 's" where
  "upsert_table_option fuel api C req s = retry fuel (upsert_table_option_step api C req) s"

end
