(* ===== verification/Schema_Keys_Laws.thy ===== *)
theory Schema_Keys_Laws
  imports Schema_Keys
begin

text \<open>
  The keys of the schema layer are unambiguous: every structured key can be read back from
  its string, the families of keys are disjoint, and the prefix used to list the databases of
  a tenant, or the tables of a database, selects exactly those.
\<close>

section \<open>Escaping is reversible\<close>

lemma byte_less: "byte c < 256"
  by (rule nat_of_char_less_256)

lemma hex_range: "n < 16 \<Longrightarrow> 48 \<le> hex n \<and> hex n \<le> 102 \<and> safe_byte (hex n)"
  by (auto simp: hex_def safe_byte_def)

lemma unhex_hex: "n < 16 \<Longrightarrow> unhex (char_of (hex n)) = Inr n"
  by (auto simp: unhex_def hex_def take_bit_eq_mod)

lemma escape_byte_chars:
  "c' \<in> set (escape_byte c) \<Longrightarrow> safe_byte (byte c') \<or> c' = CHR ''%''"
  using hex_range[of "byte c div 16"] hex_range[of "byte c mod 16"] byte_less[of c]
  by (auto simp: escape_byte_def take_bit_eq_mod less_mult_imp_div_less split: if_splits)

lemma escape_chars: "c \<in> set (escape s) \<Longrightarrow> safe_byte (byte c) \<or> c = CHR ''%''"
  by (auto simp: escape_def dest: escape_byte_chars)

lemma escape_no_slash: "CHR ''/'' \<notin> set (escape s)"
  by (auto dest!: escape_chars simp: safe_byte_def)

text \<open>The \<open>unwrap\<close> at the end of \<open>escape\<close> is safe: what it makes is ASCII.\<close>

lemma escape_valid_utf8: "valid_utf8 (escape s)"
  by (rule valid_utf8_ascii) (auto dest!: escape_chars simp: safe_byte_def)

lemma unescape_escape_byte:
  "unescape_bytes (escape_byte c @ rest) = try_res (unescape_bytes rest) (\<lambda>r. Inr (c # r))"
proof (cases "safe_byte (byte c)")
  case True
  then have "c \<noteq> CHR ''%''" by (auto simp: safe_byte_def)
  with True show ?thesis by (simp add: escape_byte_def)
next
  case False
  have "byte c div 16 < 16" using byte_less[of c] by (simp add: less_mult_imp_div_less)
  then show ?thesis
    using False by (simp add: escape_byte_def unhex_hex)
qed

lemma unescape_bytes_escape: "unescape_bytes (escape s) = Inr s"
  by (induction s) (simp_all add: escape_def unescape_escape_byte)

lemma escape_inj: "escape s = escape t \<longleftrightarrow> s = t"
  by (metis unescape_bytes_escape sum.inject(2))

lemma unescape_escape: "valid_utf8 s \<Longrightarrow> unescape (escape s) = Inr s"
  by (simp add: unescape_def unescape_bytes_escape)


section \<open>Ids are reversible\<close>

lemma dec_digits: "c \<in> set (dec n) \<Longrightarrow> 48 \<le> byte c \<and> byte c \<le> 57"
proof (induction n rule: dec.induct)
  case (1 n)
  then show ?case
    by (cases "n < 10") (auto simp: dec.simps[of n] take_bit_eq_mod)
qed

lemma dec_not_Nil: "dec n \<noteq> []"
  by (simp add: dec.simps[of n])

lemma parse_digits_append:
  "parse_digits a (xs @ ys) = try_res (parse_digits a xs) (\<lambda>b. parse_digits b ys)"
  by (induction a xs rule: parse_digits.induct) simp_all

lemma parse_digits_dec: "n < 2 ^ 64 \<Longrightarrow> parse_digits 0 (dec n) = Inr n"
proof (induction n rule: dec.induct)
  case (1 n)
  show ?case
  proof (cases "n < 10")
    case True
    then show ?thesis by (simp add: dec.simps[of n] take_bit_eq_mod)
  next
    case False
    have IH: "parse_digits 0 (dec (n div 10)) = Inr (n div 10)"
      using 1 False by simp
    have "n div 10 * 10 + n mod 10 = n" by simp
    moreover have "n div 10 * 10 < 2 ^ 64" using 1(2) by linarith
    moreover have "n mod 10 < 10" by simp
    ultimately show ?thesis
      using 1(2) False
      by (simp add: dec.simps[of n] parse_digits_append IH take_bit_eq_mod)
  qed
qed

lemma decode_id_dec64: "decode_id (dec64 w) = Inr w"
proof -
  obtain c cs where d: "dec (unat w) = c # cs" using dec_not_Nil[of "unat w"] by (cases "dec (unat w)") auto
  then have "48 \<le> byte c \<and> byte c \<le> 57" using dec_digits[of c "unat w"] by simp
  then have "c \<noteq> CHR ''+'' \<and> c \<noteq> CHR ''-''" by auto
  moreover have "unat w < 2 ^ 64" using unsigned_less[of w] by simp
  ultimately show ?thesis
    using d parse_digits_dec[of "unat w"] by (simp add: decode_id_def parse_u64_def dec64_def)
qed

lemma dec64_inj: "dec64 v = dec64 w \<longleftrightarrow> v = w"
  by (metis decode_id_dec64 sum.inject(2))

lemma dec64_no_slash: "CHR ''/'' \<notin> set (dec64 w)"
  by (auto simp: dec64_def dest!: dec_digits)


section \<open>Segments\<close>

lemma split_on_no_sep: "d \<notin> set s \<Longrightarrow> split_on d s = [s]"
  by (induction s) auto

lemma split_on_append: "d \<notin> set s \<Longrightarrow> split_on d (s @ d # t) = s # split_on d t"
  by (induction s) auto

lemma append_sep_inj:
  assumes "d \<notin> set a" and "d \<notin> set a'"
  shows "a @ d # b = a' @ d # b' \<longleftrightarrow> a = a' \<and> b = b'"
  using assms
proof (induction a arbitrary: a')
  case Nil
  then show ?case by (cases a') auto
next
  case (Cons c a)
  then show ?case by (cases a') auto
qed

lemma prefix_sep:
  assumes "d \<notin> set a" and "d \<notin> set a'"
  shows "prefix (a @ d # b) (a' @ d # b') \<longleftrightarrow> a = a' \<and> prefix b b'"
  using assms
proof (induction a arbitrary: a')
  case Nil
  then show ?case by (cases a') auto
next
  case (Cons c a)
  then show ?case by (cases a') auto
qed


section \<open>Structured keys\<close>

lemma schema_prefix_no_slash:
  "CHR ''/'' \<notin> set PREFIX_DATABASE" "CHR ''/'' \<notin> set PREFIX_DATABASE_BY_ID"
  "CHR ''/'' \<notin> set PREFIX_TABLE" "CHR ''/'' \<notin> set PREFIX_TABLE_BY_ID" "CHR ''/'' \<notin> set PREFIX_ID_GEN"
  by (simp_all add: schema_prefixes)

lemmas schema_key_defs =
  DatabaseNameIdent_to_key_def DatabaseId_to_key_def DBIdTableName_to_key_def TableId_to_key_def
  DatabaseIdGen_to_key_def TableIdGen_to_key_def

lemmas no_slash = schema_prefix_no_slash escape_no_slash dec64_no_slash

lemmas segment_simps = segment_def check_segment_def check_segment_present_def check_segment_absent_def

lemma from_key_to_key:
  assumes "valid_utf8 (dn_tenant dn)" and "valid_utf8 (dn_db_name dn)" and "valid_utf8 (dt_table_name dt)"
  shows "DatabaseNameIdent_from_key (DatabaseNameIdent_to_key dn) = Inr dn
    \<and> DatabaseId_from_key (DatabaseId_to_key di) = Inr di
    \<and> DBIdTableName_from_key (DBIdTableName_to_key dt) = Inr dt
    \<and> TableId_from_key (TableId_to_key ti) = Inr ti"
proof (intro conjI)
  have s: "split_on (CHR ''/'') (DatabaseNameIdent_to_key dn)
             = [PREFIX_DATABASE, escape (dn_tenant dn), escape (dn_db_name dn)]"
    by (simp add: schema_key_defs split_on_append split_on_no_sep no_slash)
  show "DatabaseNameIdent_from_key (DatabaseNameIdent_to_key dn) = Inr dn"
    by (simp add: DatabaseNameIdent_from_key_def s segment_simps unescape_escape assms)
  have s: "split_on (CHR ''/'') (DatabaseId_to_key di) = [PREFIX_DATABASE_BY_ID, dec64 (db_id di)]"
    by (simp add: schema_key_defs split_on_append split_on_no_sep no_slash)
  show "DatabaseId_from_key (DatabaseId_to_key di) = Inr di"
    by (simp add: DatabaseId_from_key_def s segment_simps decode_id_dec64)
  have s: "split_on (CHR ''/'') (DBIdTableName_to_key dt)
             = [PREFIX_TABLE, dec64 (dt_db_id dt), escape (dt_table_name dt)]"
    by (simp add: schema_key_defs split_on_append split_on_no_sep no_slash)
  show "DBIdTableName_from_key (DBIdTableName_to_key dt) = Inr dt"
    by (simp add: DBIdTableName_from_key_def s segment_simps decode_id_dec64 unescape_escape assms)
  have s: "split_on (CHR ''/'') (TableId_to_key ti) = [PREFIX_TABLE_BY_ID, dec64 (table_id ti)]"
    by (simp add: schema_key_defs split_on_append split_on_no_sep no_slash)
  show "TableId_from_key (TableId_to_key ti) = Inr ti"
    by (simp add: TableId_from_key_def s segment_simps decode_id_dec64)
qed

text \<open>
  C22: every structured key of the schema layer is recovered from its string: \<open>from_key\<close> after
  \<open>to_key\<close> is the identity, for database names, database ids, table names and table ids,
  whatever characters the names contain.
\<close>

theorem schema_key_round_trip:
  assumes "valid_utf8 (dn_tenant dn)" and "valid_utf8 (dn_db_name dn)" and "valid_utf8 (dt_table_name dt)"
  shows "DatabaseNameIdent_from_key (DatabaseNameIdent_to_key dn) = Inr dn
    \<and> DatabaseId_from_key (DatabaseId_to_key di) = Inr di
    \<and> DBIdTableName_from_key (DBIdTableName_to_key dt) = Inr dt
    \<and> TableId_from_key (TableId_to_key ti) = Inr ti"
  by (rule from_key_to_key[OF assms])

theorem schema_key_round_trip_witness:
  "DatabaseNameIdent_to_key \<lparr>dn_tenant = ''a/b'', dn_db_name = ''x%y''\<rparr> = ''__fd_database/a%2fb/x%25y''
   \<and> DatabaseNameIdent_from_key ''__fd_database/a%2fb/x%25y'' = Inr \<lparr>dn_tenant = ''a/b'', dn_db_name = ''x%y''\<rparr>"
proof
  show k: "DatabaseNameIdent_to_key \<lparr>dn_tenant = ''a/b'', dn_db_name = ''x%y''\<rparr> = ''__fd_database/a%2fb/x%25y''"
    by code_simp
  show "DatabaseNameIdent_from_key ''__fd_database/a%2fb/x%25y'' = Inr \<lparr>dn_tenant = ''a/b'', dn_db_name = ''x%y''\<rparr>"
    using schema_key_round_trip[of "\<lparr>dn_tenant = ''a/b'', dn_db_name = ''x%y''\<rparr>"
        "\<lparr>dt_db_id = 1, dt_table_name = ''t''\<rparr>"]
    unfolding k by simp
qed

lemma key_inj [simp]:
  "DatabaseNameIdent_to_key a = DatabaseNameIdent_to_key b \<longleftrightarrow> a = b"
  "DatabaseId_to_key i = DatabaseId_to_key j \<longleftrightarrow> i = j"
  "DBIdTableName_to_key c = DBIdTableName_to_key d \<longleftrightarrow> c = d"
  "TableId_to_key k = TableId_to_key l \<longleftrightarrow> k = l"
  by (auto simp: schema_key_defs append_sep_inj no_slash escape_inj dec64_inj)

lemma key_families_distinct [simp]:
  "DatabaseNameIdent_to_key a \<noteq> DatabaseId_to_key i" "DatabaseNameIdent_to_key a \<noteq> DBIdTableName_to_key c"
  "DatabaseNameIdent_to_key a \<noteq> TableId_to_key k" "DatabaseNameIdent_to_key a \<noteq> DatabaseIdGen_to_key"
  "DatabaseNameIdent_to_key a \<noteq> TableIdGen_to_key" "DatabaseId_to_key i \<noteq> DBIdTableName_to_key c"
  "DatabaseId_to_key i \<noteq> TableId_to_key k" "DatabaseId_to_key i \<noteq> DatabaseIdGen_to_key"
  "DatabaseId_to_key i \<noteq> TableIdGen_to_key" "DBIdTableName_to_key c \<noteq> TableId_to_key k"
  "DBIdTableName_to_key c \<noteq> DatabaseIdGen_to_key" "DBIdTableName_to_key c \<noteq> TableIdGen_to_key"
  "TableId_to_key k \<noteq> DatabaseIdGen_to_key" "TableId_to_key k \<noteq> TableIdGen_to_key"
  "DatabaseIdGen_to_key \<noteq> TableIdGen_to_key"
  by (simp_all add: schema_key_defs schema_prefixes)

lemmas key_families_distinct' [simp] = key_families_distinct[symmetric]

text \<open>All the keys the schema layer uses.\<close>

inductive schema_key :: "string \<Rightarrow> bool" where
  "schema_key (DatabaseNameIdent_to_key a)"
| "schema_key (DatabaseId_to_key i)"
| "schema_key (DBIdTableName_to_key c)"
| "schema_key (TableId_to_key k)"
| "schema_key DatabaseIdGen_to_key"
| "schema_key TableIdGen_to_key"

lemma listing_prefix_iff:
  assumes "schema_key key"
  shows "(prefix (DatabaseNameIdent_to_key \<lparr>dn_tenant = t, dn_db_name = ''''\<rparr>) key
            \<longleftrightarrow> (\<exists>n. key = DatabaseNameIdent_to_key \<lparr>dn_tenant = t, dn_db_name = n\<rparr>))
    \<and> (prefix (DBIdTableName_to_key \<lparr>dt_db_id = d, dt_table_name = ''''\<rparr>) key
            \<longleftrightarrow> (\<exists>n. key = DBIdTableName_to_key \<lparr>dt_db_id = d, dt_table_name = n\<rparr>))"
  using assms
proof (cases rule: schema_key.cases)
  case (1 a)
  then show ?thesis
    by (cases a) (auto simp: DatabaseNameIdent_to_key_def DBIdTableName_to_key_def escape_def[of "[]"]
        prefix_sep no_slash escape_inj append_sep_inj schema_prefixes)
next
  case (3 c)
  then show ?thesis
    by (cases c) (auto simp: DatabaseNameIdent_to_key_def DBIdTableName_to_key_def escape_def[of "[]"]
        prefix_sep no_slash dec64_inj append_sep_inj schema_prefixes)
qed (auto simp: schema_key_defs schema_prefixes)

text \<open>
  C23: listing is exact. Among the keys of the schema layer, those that start with the key of
  the empty database name of a tenant are the names of the databases of that very tenant,
  and those that start with the key of the empty table name of a database id are the names
  of the tables of that very database: no tenant or database whose name or id extends another
  is ever listed with it.
\<close>

theorem schema_listing_exact:
  assumes "schema_key key"
  shows "(prefix (DatabaseNameIdent_to_key \<lparr>dn_tenant = t, dn_db_name = ''''\<rparr>) key
            \<longleftrightarrow> (\<exists>n. key = DatabaseNameIdent_to_key \<lparr>dn_tenant = t, dn_db_name = n\<rparr>))
    \<and> (prefix (DBIdTableName_to_key \<lparr>dt_db_id = d, dt_table_name = ''''\<rparr>) key
            \<longleftrightarrow> (\<exists>n. key = DBIdTableName_to_key \<lparr>dt_db_id = d, dt_table_name = n\<rparr>))"
  by (rule listing_prefix_iff[OF assms])

theorem schema_listing_exact_witness:
  "\<not> prefix (DatabaseNameIdent_to_key \<lparr>dn_tenant = ''t1'', dn_db_name = ''''\<rparr>)
       (DatabaseNameIdent_to_key \<lparr>dn_tenant = ''t10'', dn_db_name = ''d''\<rparr>)
   \<and> prefix (DatabaseNameIdent_to_key \<lparr>dn_tenant = ''t1'', dn_db_name = ''''\<rparr>)
       (DatabaseNameIdent_to_key \<lparr>dn_tenant = ''t1'', dn_db_name = ''d''\<rparr>)"
  using schema_listing_exact[OF schema_key.intros(1)[of "\<lparr>dn_tenant = ''t10'', dn_db_name = ''d''\<rparr>"], of "''t1''" 0]
    schema_listing_exact[OF schema_key.intros(1)[of "\<lparr>dn_tenant = ''t1'', dn_db_name = ''d''\<rparr>"], of "''t1''" 0]
  by simp

end
