(* ===== verification/Proto_Conv_Laws.thy ===== *)
theory Proto_Conv_Laws
  imports Proto_Conv
begin

text \<open>
  What the conversion to protobuf keeps: whatever \<open>to_pb\<close> writes, \<open>from_pb\<close> reads back, and
  \<open>to_pb\<close> writes everything but the \<open>Null\<close> type. Which messages \<open>from_pb\<close> accepts.
\<close>

section \<open>Data types\<close>

lemma check_ver_iff: "check_ver v = Inr u \<longleftrightarrow> v = VER"
  by (rule linorder_cases[of v 1]) (simp_all add: check_ver_def VER_def OLDEST_COMPATIBLE_VER_def)

lemma check_ver_VER [simp]: "check_ver VER = Inr ()"
  by (simp add: check_ver_iff)

lemma missing_simps [simp]: "missing r (Some a) = Inr a" "missing r None = Inl (Incompatible r)"
  by (simp_all add: missing_def)

lemma IntervalType_round_trip:
  "\<exists>p. IntervalType_to_pb t = Inr p \<and> IntervalType_from_pb p = Inr t"
  by (cases t; cases "iv_kind t")
    (simp_all add: IntervalType_to_pb_def IntervalType_from_pb_def IntervalKind_from_i32_def)

text \<open>The types that hold no \<open>Null\<close>.\<close>

fun null_free :: "DataTypeImpl \<Rightarrow> bool"
and null_free_nullable :: "NullableType \<Rightarrow> bool"
and null_free_struct :: "StructType \<Rightarrow> bool"
and null_free_array :: "ArrayType \<Rightarrow> bool" where
  "null_free (Nullable n) = null_free_nullable n"
| "null_free (Struct s) = null_free_struct s"
| "null_free (Array a) = null_free_array a"
| "null_free t = (t \<noteq> Null)"
| "null_free_nullable (NullableType t) = null_free t"
| "null_free_struct (StructType ns ts) = list_all null_free ts"
| "null_free_array (ArrayType t) = null_free t"

lemma collect_res_round_trip:
  assumes "\<And>x. x \<in> set xs \<Longrightarrow> \<exists>y. f x = Inr y \<and> g y = Inr x"
  shows "\<exists>ys. collect_res f xs = Inr ys \<and> collect_res g ys = Inr xs"
  using assms by (induction xs) (simp, fastforce)

lemma data_type_round_trip:
  "null_free t \<Longrightarrow> \<exists>p. DataTypeImpl_to_pb t = Inr p \<and> DataTypeImpl_from_pb p = Inr t"
  "null_free_nullable n \<Longrightarrow> \<exists>p. NullableType_to_pb n = Inr p \<and> NullableType_from_pb p = Inr n"
  "null_free_struct s \<Longrightarrow> \<exists>p. StructType_to_pb s = Inr p \<and> StructType_from_pb p = Inr s"
  "null_free_array a \<Longrightarrow> \<exists>p. ArrayType_to_pb a = Inr p \<and> ArrayType_from_pb p = Inr a"
proof (induction t and n and s and a)
  case (StructType names ts)
  then have "\<And>x. x \<in> set ts \<Longrightarrow> \<exists>y. DataTypeImpl_to_pb x = Inr y \<and> DataTypeImpl_from_pb y = Inr x"
    by (simp add: list_all_iff)
  from collect_res_round_trip[of ts, OF this] show ?case by auto
next
  case (Interval x)
  then show ?case using IntervalType_round_trip[of x] by auto
qed (auto simp: TimestampType_to_pb_def TimestampType_from_pb_def VariantType_to_pb_def VariantArrayType_to_pb_def
      VariantObjectType_to_pb_def)

lemma collect_res_Inl:
  assumes "x \<in> set xs" and "\<And>x. x \<in> set xs \<Longrightarrow> f x = Inl e \<or> (\<exists>y. f x = Inr y)" and "f x = Inl e"
  shows "collect_res f xs = Inl e"
  using assms
proof (induction xs)
  case (Cons a xs)
  then show ?case by (cases "f a") force+
qed simp

lemma data_type_null_panics:
  "\<not> null_free t \<Longrightarrow> DataTypeImpl_to_pb t = Inl (ConvPanic ''todo'')"
  "\<not> null_free_nullable n \<Longrightarrow> NullableType_to_pb n = Inl (ConvPanic ''todo'')"
  "\<not> null_free_struct s \<Longrightarrow> StructType_to_pb s = Inl (ConvPanic ''todo'')"
  "\<not> null_free_array a \<Longrightarrow> ArrayType_to_pb a = Inl (ConvPanic ''todo'')"
proof (induction t and n and s and a)
  case (StructType names ts)
  then obtain x where "x \<in> set ts" "\<not> null_free x" by (auto simp: list_all_iff)
  then have "collect_res DataTypeImpl_to_pb ts = Inl (ConvPanic ''todo'')"
    using StructType.IH data_type_round_trip(1) by (intro collect_res_Inl[of x]) blast+
  then show ?case by simp
qed auto

lemma data_type_to_pb_iff: "(\<exists>p. DataTypeImpl_to_pb t = Inr p) \<longleftrightarrow> null_free t"
  using data_type_round_trip(1)[of t] data_type_null_panics(1)[of t] by force

lemma data_type_read_back: "DataTypeImpl_to_pb t = Inr p \<Longrightarrow> DataTypeImpl_from_pb p = Inr t"
  using data_type_round_trip(1)[of t] data_type_to_pb_iff[of t] by auto

text \<open>
  The messages that are read: \<open>VER\<close> at every level but in the three variant types, whose version
  is not looked at, every nested message present, interval kinds among the known ones.
\<close>

fun msg_ok :: "pb_DataType \<Rightarrow> bool"
and nullable_msg_ok :: "pb_NullableType \<Rightarrow> bool"
and struct_msg_ok :: "pb_Struct \<Rightarrow> bool"
and array_msg_ok :: "pb_Array \<Rightarrow> bool" where
  "msg_ok (pb_DataType ver p_dt) =
     (ver = VER \<and> (case p_dt of
        None \<Rightarrow> False
      | Some dt \<Rightarrow>
          (case dt of
             Dt_NullableType x \<Rightarrow> nullable_msg_ok x
           | Dt_TimestampType x \<Rightarrow> pbt_ver x = VER
           | Dt_StructType x \<Rightarrow> struct_msg_ok x
           | Dt_ArrayType x \<Rightarrow> array_msg_ok x
           | Dt_IntervalType x \<Rightarrow> pbi_ver x = VER \<and> pbi_kind x \<le> 7
           | _ \<Rightarrow> True)))"
| "nullable_msg_ok (pb_NullableType ver inner) = (ver = VER \<and> (case inner of None \<Rightarrow> False | Some x \<Rightarrow> msg_ok x))"
| "struct_msg_ok (pb_Struct ver names types) = (ver = VER \<and> list_all msg_ok types)"
| "array_msg_ok (pb_Array ver inner) = (ver = VER \<and> (case inner of None \<Rightarrow> False | Some x \<Rightarrow> msg_ok x))"

lemma collect_res_ok_iff: "(\<exists>ys. collect_res f xs = Inr ys) \<longleftrightarrow> list_all (\<lambda>x. \<exists>y. f x = Inr y) xs"
  by (induction xs) (auto simp: try_res_Inr_iff)

lemma IntervalKind_from_i32_iff: "(\<exists>k. IntervalKind_from_i32 i = Some k) \<longleftrightarrow> i \<le> 7"
proof -
  have "i \<in> {0, 1, 2, 3, 4, 5, 6, 7}" if "i \<le> 7"
  proof -
    have "unat i < 8" using that by (simp add: word_le_nat_alt)
    then have "unat i \<in> {0, 1, 2, 3, 4, 5, 6, 7}" by auto
    then show ?thesis by (auto simp: word_unat_eq_iff simp del: unat_eq_0)
  qed
  then show ?thesis by (auto simp: IntervalKind_from_i32_def split: if_splits)
qed

lemma IntervalType_from_pb_iff: "(\<exists>t. IntervalType_from_pb p = Inr t) \<longleftrightarrow> pbi_ver p = VER \<and> pbi_kind p \<le> 7"
proof -
  have k: "\<exists>k. IntervalKind_from_pb k' = Inr k" for k' by (cases k') auto
  show ?thesis
    unfolding IntervalType_from_pb_def IntervalKind_from_i32_iff[symmetric] using k
    by (auto simp: try_res_Inr_iff check_ver_iff missing_def split: option.splits)
qed

lemma data_type_from_pb_iff:
  "(\<exists>t. DataTypeImpl_from_pb p = Inr t) \<longleftrightarrow> msg_ok p"
  "(\<exists>t. NullableType_from_pb pn = Inr t) \<longleftrightarrow> nullable_msg_ok pn"
  "(\<exists>t. StructType_from_pb ps = Inr t) \<longleftrightarrow> struct_msg_ok ps"
  "(\<exists>t. ArrayType_from_pb pa = Inr t) \<longleftrightarrow> array_msg_ok pa"
proof (induction p and pn and ps and pa
    rule: DataTypeImpl_from_pb_NullableType_from_pb_StructType_from_pb_ArrayType_from_pb.induct)
  case (1 ver p_dt)
  then show ?case
    by (auto simp: try_res_Inr_iff check_ver_iff TimestampType_from_pb_def IntervalType_from_pb_iff
        split: option.splits pb_Dt.splits)
next
  case (3 ver names p_types)
  then show ?case
    using collect_res_ok_iff[of DataTypeImpl_from_pb p_types]
    by (auto simp: try_res_Inr_iff check_ver_iff list_all_iff)
qed (auto simp: try_res_Inr_iff check_ver_iff split: option.splits)

text \<open>No message reads as \<open>Null\<close>: what was read can be written again.\<close>

lemma data_type_from_pb_null_free:
  "DataTypeImpl_from_pb p = Inr t \<Longrightarrow> null_free t"
  "NullableType_from_pb pn = Inr n \<Longrightarrow> null_free_nullable n"
  "StructType_from_pb ps = Inr s \<Longrightarrow> null_free_struct s"
  "ArrayType_from_pb pa = Inr a \<Longrightarrow> null_free_array a"
proof (induction p and pn and ps and pa arbitrary: t and n and s and a
    rule: DataTypeImpl_from_pb_NullableType_from_pb_StructType_from_pb_ArrayType_from_pb.induct)
  case (1 ver p_dt)
  then show ?case
    by (auto simp: try_res_Inr_iff check_ver_iff split: option.splits pb_Dt.splits)
next
  case (3 ver names p_types)
  from 3(2) obtain ts where s: "ver = VER" "s = StructType names ts" "length ts = length p_types"
      "\<forall>i < length p_types. DataTypeImpl_from_pb (p_types ! i) = Inr (ts ! i)"
    by (auto simp: try_res_Inr_iff check_ver_iff collect_res_Inr_iff)
  have "null_free (ts ! i)" if "i < length ts" for i
    using 3(1)[OF check_ver_VER[folded s(1)], of "p_types ! i" "ts ! i"] that s(3,4) by simp
  then show ?case by (simp add: s(2) list_all_length)
qed (auto simp: try_res_Inr_iff check_ver_iff split: option.splits)



section \<open>Metas and infos\<close>

definition schema_null_free :: "DataSchema \<Rightarrow> bool" where
  "schema_null_free s \<longleftrightarrow> list_all (\<lambda>f. null_free (df_data_type f)) (ds_fields s)"

text \<open>What the conversion relies on of \<open>chrono\<close>: a printed time stamp parses as itself.\<close>

definition chrono_laws :: "('dt, 'z) chrono_scheme \<Rightarrow> bool" where
  "chrono_laws C \<longleftrightarrow> (\<forall>t. date_from_str C (date_to_string C t) = Inr t)"

lemma DateTime_round_trip: "chrono_laws C \<Longrightarrow> DateTime_from_pb C (date_to_string C t) = Inr t"
  by (simp add: chrono_laws_def DateTime_from_pb_def)

lemma DataField_round_trip:
  "null_free (df_data_type f) \<Longrightarrow> \<exists>p. DataField_to_pb f = Inr p \<and> DataField_from_pb p = Inr f"
  using data_type_round_trip(1)[of "df_data_type f"]
  by (auto simp: DataField_to_pb_def DataField_from_pb_def DataField_new_def)

lemma DataSchema_round_trip:
  "schema_null_free s \<Longrightarrow> \<exists>p. DataSchema_to_pb s = Inr p \<and> DataSchema_from_pb p = Inr s"
  using collect_res_round_trip[of "ds_fields s" DataField_to_pb DataField_from_pb] DataField_round_trip
  by (auto simp: schema_null_free_def list_all_iff DataSchema_to_pb_def DataSchema_from_pb_def)

lemma DataSchema_null_panics:
  assumes "\<not> schema_null_free s"
  shows "DataSchema_to_pb s = Inl (ConvPanic ''todo'')"
proof -
  obtain f where f: "f \<in> set (ds_fields s)" "\<not> null_free (df_data_type f)"
    using assms by (auto simp: schema_null_free_def list_all_iff)
  have "collect_res DataField_to_pb (ds_fields s) = Inl (ConvPanic ''todo'')"
  proof (rule collect_res_Inl[OF f(1)])
    show "DataField_to_pb g = Inl (ConvPanic ''todo'') \<or> (\<exists>y. DataField_to_pb g = Inr y)" for g
      using data_type_null_panics(1)[of "df_data_type g"] DataField_round_trip[of g]
      by (cases "null_free (df_data_type g)") (auto simp: DataField_to_pb_def)
    show "DataField_to_pb f = Inl (ConvPanic ''todo'')"
      using data_type_null_panics(1)[OF f(2)] by (simp add: DataField_to_pb_def)
  qed
  then show ?thesis by (simp add: DataSchema_to_pb_def)
qed

lemma DatabaseMeta_round_trip:
  "chrono_laws C \<Longrightarrow> \<exists>p. DatabaseMeta_to_pb C m = Inr p \<and> DatabaseMeta_from_pb C p = Inr m"
  by (simp add: DatabaseMeta_to_pb_def DatabaseMeta_from_pb_def DateTime_to_pb_def DateTime_round_trip)

lemma TableMeta_round_trip:
  "chrono_laws C \<Longrightarrow> schema_null_free (tm_schema m) \<Longrightarrow>
     \<exists>p. TableMeta_to_pb C m = Inr p \<and> TableMeta_from_pb C p = Inr m"
  using DataSchema_round_trip[of "tm_schema m"]
  by (auto simp: TableMeta_to_pb_def TableMeta_from_pb_def DateTime_to_pb_def DateTime_round_trip)

lemma TableMeta_null_panics:
  "\<not> schema_null_free (tm_schema m) \<Longrightarrow> TableMeta_to_pb C m = Inl (ConvPanic ''todo'')"
  by (simp add: TableMeta_to_pb_def DataSchema_null_panics)

lemma TableMeta_read_back:
  "chrono_laws C \<Longrightarrow> TableMeta_to_pb C m = Inr p \<Longrightarrow> TableMeta_from_pb C p = Inr m"
  using TableMeta_round_trip[of C m] TableMeta_null_panics[of m C] by force

text \<open>
  C20: The protobuf form of a database or table is lossless: \<open>to_pb\<close> followed by \<open>from_pb\<close> gives
  the info back, with its identifiers, names, options, time stamps and the whole tree of column
  types. The one exception is a table with a \<open>Null\<close> anywhere inside a column type, on which
  \<open>to_pb\<close> does not return an error but panics.
\<close>

theorem proto_round_trip:
  assumes "chrono_laws C"
  shows "(\<exists>p. DatabaseInfo_to_pb C d = Inr p \<and> DatabaseInfo_from_pb C p = Inr d)
    \<and> (\<exists>p. TableNameIdent_to_pb n = Inr p \<and> TableNameIdent_from_pb p = Inr n)
    \<and> (if schema_null_free (tm_schema (tinfo_meta t))
       then \<exists>p. TableInfo_to_pb C t = Inr p \<and> TableInfo_from_pb C p = Inr t
       else TableInfo_to_pb C t = Inl (ConvPanic ''todo''))"
proof -
  have "\<exists>p. DatabaseInfo_to_pb C d = Inr p \<and> DatabaseInfo_from_pb C p = Inr d"
    using DatabaseMeta_round_trip[OF assms, of "dinfo_meta d"]
    by (auto simp: DatabaseInfo_to_pb_def DatabaseInfo_from_pb_def DatabaseIdent_to_pb_def DatabaseIdent_from_pb_def
        DatabaseNameIdent_to_pb_def DatabaseNameIdent_from_pb_def)
  moreover have "\<exists>p. TableInfo_to_pb C t = Inr p \<and> TableInfo_from_pb C p = Inr t"
    if "schema_null_free (tm_schema (tinfo_meta t))"
    using TableMeta_round_trip[OF assms that]
    by (auto simp: TableInfo_to_pb_def TableInfo_from_pb_def TableIdent_to_pb_def TableIdent_from_pb_def)
  ultimately show ?thesis
    using TableMeta_null_panics[of "tinfo_meta t" C]
    by (auto simp: TableNameIdent_to_pb_def TableNameIdent_from_pb_def TableInfo_to_pb_def TableIdent_to_pb_def)
qed

definition demo_chrono :: "string chrono" where
  "demo_chrono = \<lparr>date_to_string = (\<lambda>t. t), date_from_str = Inr\<rparr>"

definition demo_table_info :: "DataTypeImpl \<Rightarrow> string TableInfo" where
  "demo_table_info dt = \<lparr>tinfo_ident = \<lparr>ti_table_id = 5, ti_seq = 7\<rparr>, tinfo_desc = ''d'', tinfo_name = ''x'',
     tinfo_meta = \<lparr>tm_schema = \<lparr>ds_fields = [\<lparr>df_name = ''a'', df_default_expr = Some ''1'', df_data_type = dt\<rparr>],
         ds_metadata = []\<rparr>,
       tm_engine = ''f'', tm_engine_options = [], tm_options = [(''k'', ''v'')], tm_order_keys = None,
       tm_created_on = ''2022'', tm_updated_on = ''2022'', tm_comment = ''''\<rparr>\<rparr>"

lemma demo_chrono_laws: "chrono_laws demo_chrono"
  by (simp add: chrono_laws_def demo_chrono_def)

theorem proto_round_trip_witness:
  "(\<exists>p. TableInfo_to_pb demo_chrono (demo_table_info (Struct (StructType [''s''] [Nullable (NullableType Int32)]))) = Inr p
      \<and> TableInfo_from_pb demo_chrono p = Inr (demo_table_info (Struct (StructType [''s''] [Nullable (NullableType Int32)]))))
   \<and> TableInfo_to_pb demo_chrono (demo_table_info (Array (ArrayType Null))) = Inl (ConvPanic ''todo'')"
  using proto_round_trip[OF demo_chrono_laws, where t = "demo_table_info (Struct (StructType [''s''] [Nullable (NullableType Int32)]))"]
    proto_round_trip[OF demo_chrono_laws, where t = "demo_table_info (Array (ArrayType Null))"]
  by (simp add: demo_table_info_def schema_null_free_def)

definition field_msg_ok :: "pb_DataField \<Rightarrow> bool" where
  "field_msg_ok f \<longleftrightarrow> pbf_ver f = VER \<and> (case pbf_data_type f of None \<Rightarrow> False | Some t \<Rightarrow> msg_ok t)"

definition table_msg_ok :: "('dt, 'z) chrono_scheme \<Rightarrow> pb_TableMeta \<Rightarrow> bool" where
  "table_msg_ok C p \<longleftrightarrow>
     pbtm_ver p = VER
   \<and> (case pbtm_schema p of None \<Rightarrow> False | Some s \<Rightarrow> pbc_ver s = VER \<and> list_all field_msg_ok (pbc_fields s))
   \<and> is_ok (date_from_str C (pbtm_created_on p)) \<and> is_ok (date_from_str C (pbtm_updated_on p))"

lemma DataField_from_pb_iff: "(\<exists>f. DataField_from_pb p = Inr f) \<longleftrightarrow> field_msg_ok p"
  using data_type_from_pb_iff(1)
  by (auto simp: DataField_from_pb_def field_msg_ok_def try_res_Inr_iff check_ver_iff missing_def split: option.splits)

lemma DataSchema_from_pb_iff:
  "(\<exists>s. DataSchema_from_pb p = Inr s) \<longleftrightarrow> pbc_ver p = VER \<and> list_all field_msg_ok (pbc_fields p)"
proof -
  have "(\<exists>fs. collect_res DataField_from_pb (pbc_fields p) = Inr fs) \<longleftrightarrow> list_all field_msg_ok (pbc_fields p)"
    by (simp add: collect_res_ok_iff DataField_from_pb_iff)
  then show ?thesis by (simp add: DataSchema_from_pb_def try_res_Inr_iff check_ver_iff)
qed

lemma DataField_from_pb_null_free: "DataField_from_pb p = Inr f \<Longrightarrow> null_free (df_data_type f)"
  using data_type_from_pb_null_free(1)
  by (auto simp: DataField_from_pb_def DataField_new_def try_res_Inr_iff check_ver_iff)

lemma DataSchema_from_pb_null_free:
  assumes "DataSchema_from_pb p = Inr s"
  shows "schema_null_free s"
proof -
  have "collect_res DataField_from_pb (pbc_fields p) = Inr (ds_fields s)"
    using assms by (auto simp: DataSchema_from_pb_def try_res_Inr_iff check_ver_iff)
  then show ?thesis
    using DataField_from_pb_null_free by (auto simp: collect_res_Inr_iff schema_null_free_def list_all_length)
qed

text \<open>
  C21: A stored table meta is accepted exactly if every message in it, down to the last nested
  column type, carries the version this build writes, nothing that is required is missing, the
  interval kinds are known ones and the two time stamps parse. One place is not checked: the
  version of a variant, variant array or variant object. A meta that was accepted can be written
  again, and reads back as the same meta: no message decodes to the \<open>Null\<close> type that \<open>to_pb\<close>
  panics on.
\<close>

theorem table_meta_accepted:
  assumes "chrono_laws C"
  shows "((\<exists>m. TableMeta_from_pb C p = Inr m) \<longleftrightarrow> table_msg_ok C p)
    \<and> (TableMeta_from_pb C p = Inr m \<longrightarrow>
         (\<exists>p'. TableMeta_to_pb C m = Inr p' \<and> table_msg_ok C p' \<and> TableMeta_from_pb C p' = Inr m))"
proof -
  have iff: "(\<exists>m. TableMeta_from_pb C p = Inr m) \<longleftrightarrow> table_msg_ok C p" for p
    using DataSchema_from_pb_iff
    by (auto simp: TableMeta_from_pb_def table_msg_ok_def DateTime_from_pb_def try_res_Inr_iff check_ver_iff
        missing_def is_ok_def split: option.splits sum.splits)
  have "\<exists>p'. TableMeta_to_pb C m = Inr p' \<and> TableMeta_from_pb C p' = Inr m" if m: "TableMeta_from_pb C p = Inr m"
  proof (rule TableMeta_round_trip[OF assms])
    show "schema_null_free (tm_schema m)"
      using m DataSchema_from_pb_null_free by (auto simp: TableMeta_from_pb_def try_res_Inr_iff)
  qed
  with iff show ?thesis by metis
qed


definition demo_pb_table :: "pb_Dt \<Rightarrow> pb_TableMeta" where
  "demo_pb_table dt = \<lparr>pbtm_ver = 1, pbtm_schema = Some \<lparr>pbc_ver = 1, pbc_fields =
       [\<lparr>pbf_ver = 1, pbf_name = ''a'', pbf_default_expr = None, pbf_data_type = Some (pb_DataType 1 (Some dt))\<rparr>],
       pbc_metadata = []\<rparr>,
     pbtm_engine = ''f'', pbtm_engine_options = [], pbtm_options = [], pbtm_order_keys = None,
     pbtm_created_on = ''2022'', pbtm_updated_on = ''2022'', pbtm_comment = ''''\<rparr>"

theorem table_meta_accepted_witness:
  "(\<exists>m. TableMeta_from_pb demo_chrono (demo_pb_table (Dt_VariantType \<lparr>pbv_ver = 2\<rparr>)) = Inr m)
   \<and> \<not> (\<exists>m. TableMeta_from_pb demo_chrono (demo_pb_table (Dt_TimestampType \<lparr>pbt_ver = 2, pbt_precision = 3\<rparr>)) = Inr m)"
  using table_meta_accepted[OF demo_chrono_laws, of "demo_pb_table (Dt_VariantType \<lparr>pbv_ver = 2\<rparr>)" undefined]
    table_meta_accepted[OF demo_chrono_laws, of "demo_pb_table (Dt_TimestampType \<lparr>pbt_ver = 2, pbt_precision = 3\<rparr>)" undefined]
  by (simp add: table_msg_ok_def demo_pb_table_def field_msg_ok_def VER_def demo_chrono_def is_ok_def)

end
