(* ===== verification/Schema_Inv.thy ===== *)
theory Schema_Inv
  imports Schema_Api Schema_Keys_Laws Proto_Conv_Laws
begin

text \<open>
  Consistency of the schema records. Names and ids are linked one to one: a name points to an
  id that has a meta, no two names point to one id, every meta has a name. The locale
  \<open>linked_keys\<close> shows once what keeps such links; it is interpreted on the keys of databases
  and on those of tables.
\<close>

section \<open>Links between names and ids\<close>

type_synonym kv_data_map = "string \<Rightarrow> bytes option"

definition linked ::
  "('n \<Rightarrow> string) \<Rightarrow> (u64 \<Rightarrow> string) \<Rightarrow> (bytes \<Rightarrow> string + u64) \<Rightarrow> (bytes \<Rightarrow> bool) \<Rightarrow> kv_data_map \<Rightarrow> bool" where
  "linked nk ik de meta_ok D \<longleftrightarrow>
     (\<forall>n b. D (nk n) = Some b \<longrightarrow> (\<exists>i mb. de b = Inr i \<and> D (ik i) = Some mb))
   \<and> (\<forall>n n' b b' i. D (nk n) = Some b \<longrightarrow> D (nk n') = Some b' \<longrightarrow> de b = Inr i \<longrightarrow> de b' = Inr i \<longrightarrow> n = n')
   \<and> (\<forall>i mb. D (ik i) = Some mb \<longrightarrow> meta_ok mb \<and> (\<exists>n b. D (nk n) = Some b \<and> de b = Inr i))"

locale linked_keys =
  fixes nk :: "'n \<Rightarrow> string" and ik :: "u64 \<Rightarrow> string"
  assumes nk_inj: "nk n = nk n' \<longleftrightarrow> n = n'" and ik_inj: "ik i = ik j \<longleftrightarrow> i = j" and nk_ik: "nk n \<noteq> ik i"
begin

lemma linkedD:
  assumes "linked nk ik de ok D"
  shows "D (nk n) = Some b \<Longrightarrow> \<exists>i mb. de b = Inr i \<and> D (ik i) = Some mb"
    and "D (nk n) = Some b \<Longrightarrow> D (nk n') = Some b' \<Longrightarrow> de b = Inr i \<Longrightarrow> de b' = Inr i \<Longrightarrow> n = n'"
    and "D (ik i) = Some mb \<Longrightarrow> ok mb" and "D (ik i) = Some mb \<Longrightarrow> \<exists>n b. D (nk n) = Some b \<and> de b = Inr i"
  using assms unfolding linked_def by blast+

lemma linked_create:
  assumes L: "linked nk ik de ok D" and "D (nk n) = None" and "D (ik i) = None"
    and "de b = Inr i" and "ok mb"
  shows "linked nk ik de ok (D(nk n \<mapsto> b, ik i \<mapsto> mb))"
  unfolding linked_def
proof (intro conjI allI impI)
  let ?D = "D(nk n \<mapsto> b, ik i \<mapsto> mb)"
  have used: "de b' = Inr j \<Longrightarrow> D (nk m) = Some b' \<Longrightarrow> j \<noteq> i" for m b' j
    using linkedD(1)[OF L] assms(3) by fastforce
  show "\<exists>j mb'. de b' = Inr j \<and> ?D (ik j) = Some mb'" if "?D (nk m) = Some b'" for m b'
    using that linkedD(1)[OF L, of m b'] assms(4) nk_ik[of m i]
    by (auto simp: nk_inj ik_inj split: if_splits)
  show "m = m'" if "?D (nk m) = Some c" "?D (nk m') = Some c'" "de c = Inr j" "de c' = Inr j" for m m' c c' j
    using that linkedD(2)[OF L, of m c m' c' j] used assms(4) nk_ik
    by (auto simp: nk_inj split: if_splits)
  show "ok mb'" if "?D (ik j) = Some mb'" for j mb'
    using that linkedD(3)[OF L, of j mb'] assms(5) nk_ik[of n j]
    by (auto simp: ik_inj split: if_splits)
  show "\<exists>m c. ?D (nk m) = Some c \<and> de c = Inr j" if D: "?D (ik j) = Some mb'" for j mb'
  proof (cases "j = i")
    case True
    then show ?thesis using assms(4) nk_ik[of n i] by (intro exI[of _ n] exI[of _ b]) simp
  next
    case False
    then have "D (ik j) = Some mb'" using D nk_ik[of n j] by (simp add: ik_inj)
    from linkedD(4)[OF L this] obtain m c where m: "D (nk m) = Some c" "de c = Inr j" by blast
    with assms(2) have "m \<noteq> n" by auto
    with m show ?thesis using nk_ik[of m i] by (intro exI[of _ m] exI[of _ c]) (simp add: nk_inj)
  qed
qed

lemma linked_drop:
  assumes L: "linked nk ik de ok D" and n: "D (nk n) = Some b" and i: "de b = Inr i"
  shows "linked nk ik de ok (D(nk n := None, ik i := None))"
  unfolding linked_def
proof (intro conjI allI impI)
  let ?D = "D(nk n := None, ik i := None)"
  have other: "D (nk m) = Some c \<and> m \<noteq> n" if "?D (nk m) = Some c" for m c
    using that nk_ik by (auto simp: nk_inj split: if_splits)
  have otheri: "D (ik j) = Some c \<and> j \<noteq> i" if "?D (ik j) = Some c" for j c
    using that nk_ik[of n j] by (auto simp: ik_inj split: if_splits)
  show "\<exists>j mb'. de c = Inr j \<and> ?D (ik j) = Some mb'" if "?D (nk m) = Some c" for m c
  proof -
    from other[OF that] linkedD(1)[OF L, of m c] obtain j mb' where
      j: "de c = Inr j" "D (ik j) = Some mb'" by blast
    moreover have "j \<noteq> i" using other[OF that] linkedD(2)[OF L n _ i, of m c] j(1) by auto
    ultimately show ?thesis using nk_ik[of n j] by (intro exI[of _ j] exI[of _ mb']) (simp add: ik_inj)
  qed
  show "m = m'" if "?D (nk m) = Some c" "?D (nk m') = Some c'" "de c = Inr j" "de c' = Inr j" for m m' c c' j
    using linkedD(2)[OF L] other that by blast
  show "ok mb'" if "?D (ik j) = Some mb'" for j mb'
    using linkedD(3)[OF L] otheri[OF that] by blast
  show "\<exists>m c. ?D (nk m) = Some c \<and> de c = Inr j" if "?D (ik j) = Some mb'" for j mb'
  proof -
    from otheri[OF that] linkedD(4)[OF L] obtain m c where m: "D (nk m) = Some c" "de c = Inr j" by blast
    then have "m \<noteq> n" using n i otheri[OF that] by auto
    with m show ?thesis using nk_ik[of m i] by (intro exI[of _ m] exI[of _ c]) (simp add: nk_inj)
  qed
qed

lemma linked_rename:
  assumes L: "linked nk ik de ok D" and n: "D (nk n) = Some b" and i: "de b = Inr i"
    and n': "D (nk n') = None" and i': "de b' = Inr i"
  shows "linked nk ik de ok (D(nk n := None, nk n' \<mapsto> b'))"
  unfolding linked_def
proof (intro conjI allI impI)
  let ?D = "D(nk n := None, nk n' \<mapsto> b')"
  have nn: "n \<noteq> n'" using n n' by auto
  have ik: "?D (ik j) = D (ik j)" for j using nk_ik[of n j] nk_ik[of n' j] by simp
  have nm: "m = n' \<and> c = b' \<or> m \<noteq> n \<and> m \<noteq> n' \<and> D (nk m) = Some c" if "?D (nk m) = Some c" for m c
    using that nn by (auto simp: nk_inj split: if_splits)
  have same: "m = n" if "D (nk m) = Some c" "de c = Inr i" for m c
    using linkedD(2)[OF L that(1) n that(2) i] .
  show "\<exists>j mb'. de c = Inr j \<and> ?D (ik j) = Some mb'" if "?D (nk m) = Some c" for m c
    using nm[OF that] linkedD(1)[OF L n] i i' linkedD(1)[OF L, of m c] unfolding ik by auto
  show "m = m'" if "?D (nk m) = Some c" "?D (nk m') = Some c'" "de c = Inr j" "de c' = Inr j" for m m' c c' j
    using nm[OF that(1)] nm[OF that(2)] that(3,4) i' same linkedD(2)[OF L, of m c m' c' j] by auto
  show "ok mb'" if "?D (ik j) = Some mb'" for j mb'
    using linkedD(3)[OF L] that unfolding ik by blast
  show "\<exists>m c. ?D (nk m) = Some c \<and> de c = Inr j" if "?D (ik j) = Some mb'" for j mb'
  proof (cases "j = i")
    case True
    then show ?thesis using i' by (intro exI[of _ n'] exI[of _ b']) simp
  next
    case False
    from that linkedD(4)[OF L] obtain m c where m: "D (nk m) = Some c" "de c = Inr j" unfolding ik by blast
    with False n i n' have "m \<noteq> n" "m \<noteq> n'" by auto
    with m show ?thesis by (intro exI[of _ m] exI[of _ c]) (simp add: nk_inj)
  qed
qed

lemma linked_put_meta:
  assumes L: "linked nk ik de ok D" and "D (ik i) \<noteq> None" and "ok mb"
  shows "linked nk ik de ok (D(ik i \<mapsto> mb))"
proof -
  have nk: "(D(ik i \<mapsto> mb)) (nk m) = D (nk m)" for m using nk_ik[of m i] by simp
  have ik: "(D(ik i \<mapsto> mb)) (ik j) = None \<longleftrightarrow> D (ik j) = None" for j using assms(2) by (auto simp: ik_inj)
  show ?thesis
    unfolding linked_def nk
  proof (intro conjI allI impI)
    show "\<exists>j mb'. de b = Inr j \<and> (D(ik i \<mapsto> mb)) (ik j) = Some mb'" if "D (nk n) = Some b" for n b
      using linkedD(1)[OF L that] ik by (metis not_None_eq)
    show "m = m'" if "D (nk m) = Some c" "D (nk m') = Some c'" "de c = Inr j" "de c' = Inr j" for m m' c c' j
      using linkedD(2)[OF L that] .
    show "ok mb'" if "(D(ik i \<mapsto> mb)) (ik j) = Some mb'" for j mb'
      using that linkedD(3)[OF L, of j mb'] assms(3) by (auto simp: ik_inj split: if_splits)
    show "\<exists>n b. D (nk n) = Some b \<and> de b = Inr j" if "(D(ik i \<mapsto> mb)) (ik j) = Some mb'" for j mb'
      using linkedD(4)[OF L] ik[of j] that by auto
  qed
qed

lemma linked_other:
  "(\<And>n. k \<noteq> nk n) \<Longrightarrow> (\<And>i. k \<noteq> ik i) \<Longrightarrow> linked nk ik de ok (D(k := x)) = linked nk ik de ok D"
proof -
  assume "\<And>n. k \<noteq> nk n" and "\<And>i. k \<noteq> ik i"
  then have "nk n \<noteq> k" "ik i \<noteq> k" for n i by metis+
  then show ?thesis by (simp add: linked_def)
qed

end

interpretation db_links: linked_keys DatabaseNameIdent_to_key "\<lambda>i. DatabaseId_to_key \<lparr>db_id = i\<rparr>"
  by unfold_locales simp_all

interpretation table_links: linked_keys DBIdTableName_to_key "\<lambda>i. TableId_to_key \<lparr>table_id = i\<rparr>"
  by unfold_locales simp_all


section \<open>The invariant of the schema records\<close>

abbreviation db_key :: "u64 \<Rightarrow> string" where
  "db_key i \<equiv> DatabaseId_to_key \<lparr>db_id = i\<rparr>"

abbreviation table_key :: "u64 \<Rightarrow> string" where
  "table_key i \<equiv> TableId_to_key \<lparr>table_id = i\<rparr>"

definition schema_inv :: "'dt schema_codec \<Rightarrow> kv_data_map \<Rightarrow> bool" where
  "schema_inv C D \<longleftrightarrow>
     linked DatabaseNameIdent_to_key db_key (id_from_slice C) (\<lambda>b. is_ok (deserialize_db_meta C b)) D
   \<and> linked DBIdTableName_to_key table_key (id_from_slice C) (\<lambda>b. is_ok (deserialize_table_meta C b)) D"

text \<open>The serializers are relied on to read back what they wrote, and to write every message.\<close>

definition codec_laws :: "'dt schema_codec \<Rightarrow> bool" where
  "codec_laws C \<longleftrightarrow>
     (\<forall>i. \<exists>b. id_to_vec C i = Inr b \<and> id_from_slice C b = Inr i)
   \<and> (\<forall>p. \<exists>b. db_msg_encode C p = Inr b \<and> db_msg_decode C b = Inr p)
   \<and> (\<forall>p. \<exists>b. tb_msg_encode C p = Inr b \<and> tb_msg_decode C b = Inr p)
   \<and> chrono_laws C"

lemma meta_encode_err_Inr [simp]: "meta_encode_err r = Inr a \<longleftrightarrow> r = Inr a" "meta_encode_err (Inr a) = Inr a"
  by (auto simp: meta_encode_err_def split: sum.splits)

lemma conv_encode_err_Inr [simp]: "conv_encode_err r = Inr a \<longleftrightarrow> r = Inr a" "conv_encode_err (Inr a) = Inr a"
  by (auto simp: conv_encode_err_def split: sum.splits Incompatible.splits)

lemma serialize_id_total: "codec_laws C \<Longrightarrow> \<exists>b. serialize_id C i = Inr b \<and> id_from_slice C b = Inr i"
  by (simp add: codec_laws_def serialize_id_def)

lemma serialize_id_ok:
  "codec_laws C \<Longrightarrow> serialize_id C i = Inr b \<Longrightarrow> id_from_slice C b = Inr i"
  using serialize_id_total[of C i] by auto

lemma serialize_struct_round_trip:
  assumes "\<forall>p. \<exists>b. en p = Inr b \<and> de b = Inr p" and "to_pb m = Inr p" and "from_pb p = Inr m"
  shows "\<exists>b. serialize_struct to_pb en m = Inr b \<and> deserialize_struct de from_pb b = Inr m"
  using assms(1)[rule_format, of p] assms(2,3) by (auto simp: serialize_struct_def deserialize_struct_def)

lemma serialize_db_total:
  assumes "codec_laws C"
  shows "\<exists>b. serialize_db_meta C m = Inr b \<and> deserialize_db_meta C b = Inr m"
proof -
  have l: "\<forall>p. \<exists>b. db_msg_encode C p = Inr b \<and> db_msg_decode C b = Inr p" "chrono_laws C"
    using assms by (auto simp: codec_laws_def)
  obtain p where "DatabaseMeta_to_pb C m = Inr p" "DatabaseMeta_from_pb C p = Inr m"
    using DatabaseMeta_round_trip[OF l(2)] by blast
  with l(1) show ?thesis by (intro serialize_struct_round_trip)
qed

lemma serialize_db_ok:
  "codec_laws C \<Longrightarrow> serialize_db_meta C m = Inr b \<Longrightarrow> deserialize_db_meta C b = Inr m"
  using serialize_db_total[of C m] by auto

lemma serialize_table_total:
  assumes "codec_laws C" and "schema_null_free (tm_schema m)"
  shows "\<exists>b. serialize_table_meta C m = Inr b \<and> deserialize_table_meta C b = Inr m"
proof -
  have l: "\<forall>p. \<exists>b. tb_msg_encode C p = Inr b \<and> tb_msg_decode C b = Inr p" "chrono_laws C"
    using assms by (auto simp: codec_laws_def)
  obtain p where "TableMeta_to_pb C m = Inr p" "TableMeta_from_pb C p = Inr m"
    using TableMeta_round_trip[OF l(2) assms(2)] by blast
  with l(1) show ?thesis by (intro serialize_struct_round_trip)
qed

lemma serialize_table_panics:
  "\<not> schema_null_free (tm_schema m) \<Longrightarrow> serialize_table_meta C m = Inl (Panic ''todo'')"
  by (simp add: serialize_struct_def TableMeta_null_panics conv_encode_err_def)

lemma serialize_table_ok:
  "codec_laws C \<Longrightarrow> serialize_table_meta C m = Inr b \<Longrightarrow> deserialize_table_meta C b = Inr m"
  using serialize_table_total[of C m] serialize_table_panics[of m C] by fastforce

text \<open>The conditions of the transactions, as facts on the records.\<close>

definition seqs_positive :: "kv_view \<Rightarrow> bool" where
  "seqs_positive m \<longleftrightarrow> (\<forall>k v. m k = Some v \<longrightarrow> sv_seq v \<noteq> 0)"

lemma cond_seq_zero: "seqs_positive m \<Longrightarrow> cond_spec m (txn_cond_seq k CEq 0) \<longleftrightarrow> m k = None"
  by (auto simp: seqs_positive_def cond_spec_def txn_cond_seq_def return_seq_condition_result_def
      ConditionResult_from_i32_def SeqV_default_def split: option.splits)

lemma cond_seq_pos: "n \<noteq> 0 \<Longrightarrow> cond_spec m (txn_cond_seq k CEq n) \<longleftrightarrow> (\<exists>v. m k = Some v \<and> sv_seq v = n)"
  by (auto simp: cond_spec_def txn_cond_seq_def return_seq_condition_result_def
      ConditionResult_from_i32_def SeqV_default_def split: option.splits)

lemma view_data_Some: "m k = Some v \<Longrightarrow> view_data m k = Some (sv_data v)"
  by (simp add: view_data_def)

lemma view_data_None: "view_data m k = None \<longleftrightarrow> m k = None"
  by (simp add: view_data_def)

lemmas txn_ops_simps = txn_op_put_def txn_op_del_def

text \<open>
  \<open>read_of m k v\<close>: \<open>v\<close> has been read under \<open>k\<close> at some time, and the store is now \<open>m\<close>: a record
  that still has its number is still that record.
\<close>

definition read_of :: "kv_view \<Rightarrow> string \<Rightarrow> bytes SeqV \<Rightarrow> bool" where
  "read_of m k v \<longleftrightarrow> sv_seq v \<noteq> 0 \<and> (\<forall>v'. m k = Some v' \<longrightarrow> sv_seq v' = sv_seq v \<longrightarrow> v' = v)"

lemma read_of_cond:
  "read_of m k v \<Longrightarrow> cond_spec m (txn_cond_seq k CEq (sv_seq v)) \<Longrightarrow> m k = Some v"
  by (auto simp: read_of_def cond_seq_pos)

text \<open>What one accepted transaction does to the invariant and to the ids in use.\<close>

definition keeps_schema ::
  "'dt schema_codec \<Rightarrow> kv_data_map \<Rightarrow> kv_data_map \<Rightarrow> u64 set \<Rightarrow> u64 set \<Rightarrow> bool" where
  "keeps_schema C D D' dbs tbs \<longleftrightarrow> schema_inv C D'
     \<and> (\<forall>i. D' (db_key i) \<noteq> None \<longrightarrow> D (db_key i) \<noteq> None \<or> i \<in> dbs)
     \<and> (\<forall>i. D' (table_key i) \<noteq> None \<longrightarrow> D (table_key i) \<noteq> None \<or> i \<in> tbs)"

lemmas schema_frame =
  db_links.linked_other[of "DBIdTableName_to_key x" for x] db_links.linked_other[of "table_key x" for x]
  table_links.linked_other[of "DatabaseNameIdent_to_key x" for x] table_links.linked_other[of "db_key x" for x]

lemma create_database_keeps:
  assumes "codec_laws C" and "schema_inv C (view_data m)" and "seqs_positive m"
    and "create_database_txn C n i meta = Inr T" and "m (db_key i) = None"
    and "list_all (cond_spec m) (txn_condition T)"
  shows "keeps_schema C (view_data m) (fold txn_op_spec (txn_if_then T) (view_data m)) {i} {}"
proof -
  obtain idv mv where T: "T = \<lparr>txn_condition = [txn_cond_seq (DatabaseNameIdent_to_key n) CEq 0],
        txn_if_then = [txn_op_put (DatabaseNameIdent_to_key n) idv, txn_op_put (db_key i) mv],
        txn_else_then = []\<rparr>"
      and idv: "id_from_slice C idv = Inr i" and mv: "deserialize_db_meta C mv = Inr meta"
    using assms(4) serialize_id_ok[OF assms(1)] serialize_db_ok[OF assms(1)]
    by (auto simp: create_database_txn_def try_res_Inr_iff)
  have n: "view_data m (DatabaseNameIdent_to_key n) = None"
    using assms(6) by (simp add: T cond_seq_zero[OF assms(3)] view_data_None)
  have i: "view_data m (db_key i) = None" using assms(5) by (simp add: view_data_None)
  show ?thesis
    using assms(2) n i idv mv db_links.linked_create[of "id_from_slice C" _ "view_data m" n i idv mv]
    by (auto simp: keeps_schema_def schema_inv_def T txn_ops_simps schema_frame split: if_splits)
qed

lemma drop_database_keeps:
  assumes "schema_inv C (view_data m)" and "read_of m (DatabaseNameIdent_to_key n) v"
    and "id_from_slice C (sv_data v) = Inr i" and "read_of m (db_key i) w"
    and "T = drop_database_txn n (sv_seq v) i (sv_seq w)"
    and "list_all (cond_spec m) (txn_condition T)"
  shows "keeps_schema C (view_data m) (fold txn_op_spec (txn_if_then T) (view_data m)) {} {}"
proof -
  have n: "m (DatabaseNameIdent_to_key n) = Some v"
    using assms(6) read_of_cond[OF assms(2)] by (simp add: assms(5) drop_database_txn_def)
  show ?thesis
    using assms(1,3) db_links.linked_drop[of "id_from_slice C" _ "view_data m" n "sv_data v" i]
    by (auto simp: keeps_schema_def schema_inv_def assms(5) drop_database_txn_def txn_ops_simps
        view_data_Some[of m, OF n] schema_frame split: if_splits)
qed

lemma rename_database_keeps:
  assumes "codec_laws C" and "schema_inv C (view_data m)" and "seqs_positive m"
    and "read_of m (DatabaseNameIdent_to_key n) v" and "id_from_slice C (sv_data v) = Inr i"
    and "rename_database_txn C n n' (sv_seq v) i = Inr T" and "list_all (cond_spec m) (txn_condition T)"
  shows "keeps_schema C (view_data m) (fold txn_op_spec (txn_if_then T) (view_data m)) {} {}"
proof -
  obtain idv where T: "T = \<lparr>txn_condition = [txn_cond_seq (DatabaseNameIdent_to_key n) CEq (sv_seq v),
          txn_cond_seq (DatabaseNameIdent_to_key n') CEq 0],
        txn_if_then = [txn_op_del (DatabaseNameIdent_to_key n), txn_op_put (DatabaseNameIdent_to_key n') idv],
        txn_else_then = []\<rparr>" and idv: "id_from_slice C idv = Inr i"
    using assms(6) serialize_id_ok[OF assms(1)] by (auto simp: rename_database_txn_def try_res_Inr_iff)
  have n: "m (DatabaseNameIdent_to_key n) = Some v" and n': "view_data m (DatabaseNameIdent_to_key n') = None"
    using assms(7) read_of_cond[OF assms(4)] by (simp_all add: T cond_seq_zero[OF assms(3)] view_data_None)
  show ?thesis
    using assms(2,5) n' idv db_links.linked_rename[of "id_from_slice C" _ "view_data m" n "sv_data v" i n' idv]
    by (auto simp: keeps_schema_def schema_inv_def T txn_ops_simps
        view_data_Some[of m, OF n] schema_frame split: if_splits)
qed


lemma create_table_keeps:
  assumes "codec_laws C" and "schema_inv C (view_data m)" and "seqs_positive m"
    and "read_of m (db_key d) w" and "m (table_key t) = None"
    and "create_table_txn C d (sv_seq w) meta n t tmeta = Inr T" and "list_all (cond_spec m) (txn_condition T)"
  shows "keeps_schema C (view_data m) (fold txn_op_spec (txn_if_then T) (view_data m)) {} {t}"
proof -
  obtain dv idv tv where T: "T = \<lparr>txn_condition = [txn_cond_seq (db_key d) CEq (sv_seq w),
          txn_cond_seq (DBIdTableName_to_key n) CEq 0],
        txn_if_then = [txn_op_put (db_key d) dv, txn_op_put (DBIdTableName_to_key n) idv,
          txn_op_put (table_key t) tv], txn_else_then = []\<rparr>"
      and dv: "deserialize_db_meta C dv = Inr meta" and idv: "id_from_slice C idv = Inr t" and tv: "deserialize_table_meta C tv = Inr tmeta"
    using assms(6) serialize_id_ok[OF assms(1)] serialize_db_ok[OF assms(1)] serialize_table_ok[OF assms(1)]
    by (auto simp: create_table_txn_def try_res_Inr_iff)
  have d: "m (db_key d) = Some w" and n: "view_data m (DBIdTableName_to_key n) = None"
    using assms(7) read_of_cond[OF assms(4)] by (simp_all add: T cond_seq_zero[OF assms(3)] view_data_None)
  have t: "view_data m (table_key t) = None" using assms(5) by (simp add: view_data_None)
  show ?thesis
    using assms(2) n t idv tv dv db_links.linked_put_meta[of "id_from_slice C" _ "view_data m" d dv]
      table_links.linked_create[of "id_from_slice C" _ "(view_data m)(db_key d \<mapsto> dv)" n t idv tv]
    by (auto simp: keeps_schema_def schema_inv_def T txn_ops_simps view_data_Some[of m, OF d]
        schema_frame split: if_splits)
qed

lemma drop_table_keeps:
  assumes "codec_laws C" and "schema_inv C (view_data m)" and "read_of m (db_key d) w"
    and "read_of m (DBIdTableName_to_key n) v" and "id_from_slice C (sv_data v) = Inr t"
    and "drop_table_txn C d (sv_seq w) meta n (sv_seq v) t tsq = Inr T" and "list_all (cond_spec m) (txn_condition T)"
  shows "keeps_schema C (view_data m) (fold txn_op_spec (txn_if_then T) (view_data m)) {} {}"
proof -
  obtain dv where T: "T = \<lparr>txn_condition = [txn_cond_seq (db_key d) CEq (sv_seq w),
          txn_cond_seq (DBIdTableName_to_key n) CEq (sv_seq v), txn_cond_seq (table_key t) CEq tsq],
        txn_if_then = [txn_op_put (db_key d) dv, txn_op_del (DBIdTableName_to_key n),
          txn_op_del (table_key t)], txn_else_then = []\<rparr>"
      and dv: "deserialize_db_meta C dv = Inr meta"
    using assms(6) serialize_db_ok[OF assms(1)] by (auto simp: drop_table_txn_def try_res_Inr_iff)
  have d: "m (db_key d) = Some w" and n: "m (DBIdTableName_to_key n) = Some v"
    using assms(7) read_of_cond[OF assms(3)] read_of_cond[OF assms(4)] by (simp_all add: T)
  show ?thesis
    using assms(2,5) dv db_links.linked_put_meta[of "id_from_slice C" _ "view_data m" d dv]
      table_links.linked_drop[of "id_from_slice C" _ "(view_data m)(db_key d \<mapsto> dv)" n "sv_data v" t]
    by (auto simp: keeps_schema_def schema_inv_def T txn_ops_simps view_data_Some[of m, OF d]
        view_data_Some[of m, OF n] schema_frame split: if_splits)
qed

lemma rename_table_keeps:
  assumes "codec_laws C" and "schema_inv C (view_data m)" and "seqs_positive m"
    and "read_of m (db_key d) w" and "read_of m (db_key d') w'"
    and "read_of m (DBIdTableName_to_key n) v" and "id_from_slice C (sv_data v) = Inr t"
    and "rename_table_txn C d (sv_seq w) meta d' (sv_seq w') meta' n (sv_seq v) t n' = Inr T"
    and "list_all (cond_spec m) (txn_condition T)"
  shows "keeps_schema C (view_data m) (fold txn_op_spec (txn_if_then T) (view_data m)) {} {}"
proof -
  obtain idv dv more where T: "T = \<lparr>txn_condition = [txn_cond_seq (db_key d) CEq (sv_seq w),
          txn_cond_seq (db_key d') CEq (sv_seq w'), txn_cond_seq (DBIdTableName_to_key n) CEq (sv_seq v),
          txn_cond_seq (DBIdTableName_to_key n') CEq 0],
        txn_if_then = [txn_op_del (DBIdTableName_to_key n), txn_op_put (DBIdTableName_to_key n') idv,
          txn_op_put (db_key d) dv] @ more, txn_else_then = []\<rparr>"
      and dv: "deserialize_db_meta C dv = Inr meta" and idv: "id_from_slice C idv = Inr t"
      and more: "more = [] \<or> (\<exists>nv. more = [txn_op_put (db_key d') nv] \<and> deserialize_db_meta C nv = Inr meta')"
    using assms(8) serialize_id_ok[OF assms(1)] serialize_db_ok[OF assms(1)]
    by (auto simp: rename_table_txn_def try_res_Inr_iff txn_op_put_def split: if_splits)
  have d: "m (db_key d) = Some w" and d': "m (db_key d') = Some w'" and n: "m (DBIdTableName_to_key n) = Some v"
      and n': "view_data m (DBIdTableName_to_key n') = None"
    using assms(9) read_of_cond[OF assms(4)] read_of_cond[OF assms(5)] read_of_cond[OF assms(6)]
    by (simp_all add: T cond_seq_zero[OF assms(3)] view_data_None)
  let ?D = "(view_data m)(DBIdTableName_to_key n := None, DBIdTableName_to_key n' \<mapsto> idv)"
  let ?D1 = "?D(db_key d \<mapsto> dv)"
  have k: "keeps_schema C (view_data m) ?D1 {} {}"
    using assms(2,7) n' dv idv db_links.linked_put_meta[of "id_from_slice C" _ ?D d dv]
      table_links.linked_rename[of "id_from_slice C" _ "view_data m" n "sv_data v" t n' idv]
    by (auto simp: keeps_schema_def schema_inv_def view_data_Some[of m, OF d]
        view_data_Some[of m, OF n] schema_frame split: if_splits)
  have "keeps_schema C (view_data m) (?D1(db_key d' \<mapsto> nv)) {} {}" if "deserialize_db_meta C nv = Inr meta'" for nv
    using k that db_links.linked_put_meta[of "id_from_slice C" _ ?D1 d' nv] view_data_Some[of m, OF d']
    by (auto simp: keeps_schema_def schema_inv_def schema_frame split: if_splits)
  with k more show ?thesis by (auto simp: T txn_ops_simps)
qed

lemma upsert_table_option_keeps:
  assumes "codec_laws C" and "schema_inv C (view_data m)" and "read_of m (table_key t) u"
    and "upsert_table_option_txn C t (sv_seq u) tmeta = Inr T" and "list_all (cond_spec m) (txn_condition T)"
  shows "keeps_schema C (view_data m) (fold txn_op_spec (txn_if_then T) (view_data m)) {} {}"
proof -
  obtain tv where T: "T = \<lparr>txn_condition = [txn_cond_seq (table_key t) CEq (sv_seq u)],
        txn_if_then = [txn_op_put (table_key t) tv], txn_else_then = []\<rparr>" and tv: "deserialize_table_meta C tv = Inr tmeta"
    using assms(4) serialize_table_ok[OF assms(1)] by (auto simp: upsert_table_option_txn_def try_res_Inr_iff)
  have t: "m (table_key t) = Some u"
    using assms(5) read_of_cond[OF assms(3)] by (simp add: T)
  show ?thesis
    using assms(2) tv table_links.linked_put_meta[of "id_from_slice C" _ "view_data m" t tv]
    by (auto simp: keeps_schema_def schema_inv_def T txn_ops_simps view_data_Some[of m, OF t]
        schema_frame split: if_splits)
qed

end
