(* ===== verification/Schema_Concurrency.thy ===== *)
theory Schema_Concurrency
  imports Schema_Inv
begin

text \<open>
  Any number of clients of the schema layer on one state machine. A client reads records at
  any time, and later ones may have changed by the time its transaction arrives: what it read
  is only known to have been there once. The state keeps, beside the state machine, every
  record that has ever been visible and the ids that have been fetched and not used. The
  steps are the writes: an id is fetched, or a transaction built from reads of any age is
  sent. The invariant of the schema records holds in every reachable state.
\<close>

record 'mem schema_sys =
  sys_sm :: "'mem state_machine"
  sys_seen :: "(string \<times> bytes SeqV) set"
  sys_db_ids :: "u64 set"
  sys_tb_ids :: "u64 set"

text \<open>
  The transactions a client may send, with the ids they use up: each is built the way the
  operation builds it, from records it has read.
\<close>

inductive schema_request ::
  "'dt schema_codec \<Rightarrow> 'mem schema_sys \<Rightarrow> TxnRequest \<Rightarrow> u64 set \<Rightarrow> u64 set \<Rightarrow> bool" where
  req_create_database:
    "i \<in> sys_db_ids s \<Longrightarrow> create_database_txn C n i meta = Inr T \<Longrightarrow> schema_request C s T {i} {}"
| req_drop_database:
    "(DatabaseNameIdent_to_key n, v) \<in> sys_seen s \<Longrightarrow> id_from_slice C (sv_data v) = Inr i \<Longrightarrow>
     (db_key i, w) \<in> sys_seen s \<Longrightarrow> T = drop_database_txn n (sv_seq v) i (sv_seq w) \<Longrightarrow>
     schema_request C s T {} {}"
| req_rename_database:
    "(DatabaseNameIdent_to_key n, v) \<in> sys_seen s \<Longrightarrow> id_from_slice C (sv_data v) = Inr i \<Longrightarrow>
     rename_database_txn C n n' (sv_seq v) i = Inr T \<Longrightarrow> schema_request C s T {} {}"
| req_create_table:
    "(db_key d, w) \<in> sys_seen s \<Longrightarrow> deserialize_db_meta C (sv_data w) = Inr meta \<Longrightarrow> t \<in> sys_tb_ids s \<Longrightarrow>
     create_table_txn C d (sv_seq w) meta n t tmeta = Inr T \<Longrightarrow> schema_request C s T {} {t}"
| req_drop_table:
    "(db_key d, w) \<in> sys_seen s \<Longrightarrow> deserialize_db_meta C (sv_data w) = Inr meta \<Longrightarrow>
     (DBIdTableName_to_key n, v) \<in> sys_seen s \<Longrightarrow> id_from_slice C (sv_data v) = Inr t \<Longrightarrow>
     drop_table_txn C d (sv_seq w) meta n (sv_seq v) t tsq = Inr T \<Longrightarrow> schema_request C s T {} {}"
| req_rename_table:
    "(db_key d, w) \<in> sys_seen s \<Longrightarrow> deserialize_db_meta C (sv_data w) = Inr meta \<Longrightarrow>
     (db_key d', w') \<in> sys_seen s \<Longrightarrow> deserialize_db_meta C (sv_data w') = Inr meta' \<Longrightarrow>
     (DBIdTableName_to_key n, v) \<in> sys_seen s \<Longrightarrow> id_from_slice C (sv_data v) = Inr t \<Longrightarrow>
     rename_table_txn C d (sv_seq w) meta d' (sv_seq w') meta' n (sv_seq v) t n' = Inr T \<Longrightarrow>
     schema_request C s T {} {}"
| req_upsert_table_option:
    "(table_key t, u) \<in> sys_seen s \<Longrightarrow> upsert_table_option_txn C t (sv_seq u) tmeta = Inr T \<Longrightarrow>
     schema_request C s T {} {}"

definition records :: "'mem state_machine \<Rightarrow> (string \<times> bytes SeqV) set" where
  "records sm = {(k, v). ks_get (kvs sm) k = Some v}"

text \<open>The writes. No transaction has more than four operations; the generator must have room.\<close>

inductive schema_step ::
  "'dt schema_codec \<Rightarrow> 'mem schema_sys \<Rightarrow> 'mem schema_sys \<Rightarrow> bool" where
  fetch_database_id:
    "unat (kv_counter (sys_sm s)) + 4 < 2 ^ 64 \<Longrightarrow>
     fetch_id (sm_kv_api now) DatabaseIdGen_to_key (sys_sm s) = (Inr i, sm') \<Longrightarrow>
     schema_step C s (s\<lparr>sys_sm := sm', sys_seen := sys_seen s \<union> records sm', sys_db_ids := insert i (sys_db_ids s)\<rparr>)"
| fetch_table_id:
    "unat (kv_counter (sys_sm s)) + 4 < 2 ^ 64 \<Longrightarrow>
     fetch_id (sm_kv_api now) TableIdGen_to_key (sys_sm s) = (Inr i, sm') \<Longrightarrow>
     schema_step C s (s\<lparr>sys_sm := sm', sys_seen := sys_seen s \<union> records sm', sys_tb_ids := insert i (sys_tb_ids s)\<rparr>)"
| send_transaction:
    "unat (kv_counter (sys_sm s)) + 4 < 2 ^ 64 \<Longrightarrow>
     schema_request C s T dbs tbs \<Longrightarrow>
     send_txn (sm_kv_api now) C T (sys_sm s) = (Inr (succ, resp), sm') \<Longrightarrow>
     schema_step C s (s\<lparr>sys_sm := sm', sys_seen := sys_seen s \<union> records sm',
                        sys_db_ids := sys_db_ids s - dbs, sys_tb_ids := sys_tb_ids s - tbs\<rparr>)"

definition sys_inv :: "'dt schema_codec \<Rightarrow> 'mem schema_sys \<Rightarrow> bool" where
  "sys_inv C s \<longleftrightarrow>
     (let sm = sys_sm s; m = ks_get (kvs sm)
      in sm_ok sm \<and> schema_inv C (view_data m) \<and> records sm \<subseteq> sys_seen s
       \<and> (\<forall>k v. (k, v) \<in> sys_seen s \<longrightarrow> sv_seq v \<le> kv_counter sm \<and> read_of m k v)
       \<and> (\<forall>i \<in> sys_db_ids s. i \<le> kv_counter sm \<and> m (db_key i) = None)
       \<and> (\<forall>i \<in> sys_tb_ids s. i \<le> kv_counter sm \<and> m (table_key i) = None)
       \<and> (\<forall>i. m (db_key i) \<noteq> None \<longrightarrow> i \<le> kv_counter sm)
       \<and> (\<forall>i. m (table_key i) \<noteq> None \<longrightarrow> i \<le> kv_counter sm))"

definition sys_init :: "'mem state_machine \<Rightarrow> 'mem schema_sys" where
  "sys_init sm = \<lparr>sys_sm = sm, sys_seen = records sm, sys_db_ids = {}, sys_tb_ids = {}\<rparr>"

section \<open>Reads of any age\<close>

lemma read_of_later:
  assumes "read_of m k v" and "sv_seq v \<le> c" and "\<And>k v'. m' k = Some v' \<Longrightarrow> m k = Some v' \<or> c < sv_seq v'"
  shows "read_of m' k v"
  using assms by (fastforce simp: read_of_def)

lemma sm_seqs_positive: "sm_ok sm \<Longrightarrow> seqs_positive (ks_get (kvs sm))"
  using sm_api.seq_pos by (fastforce simp: seqs_positive_def)

lemma records_read_of: "sm_ok sm \<Longrightarrow> (k, v) \<in> records sm \<Longrightarrow> sv_seq v \<le> kv_counter sm \<and> read_of (ks_get (kvs sm)) k v"
  using sm_api.seq_pos[of sm k v] by (auto simp: records_def read_of_def)

text \<open>What every write does to what clients have seen.\<close>

lemma seen_later:
  assumes "sys_inv C s" and "sm_ok sm'" and "kv_counter (sys_sm s) \<le> kv_counter sm'"
    and "\<And>k v. ks_get (kvs sm') k = Some v \<Longrightarrow>
           ks_get (kvs (sys_sm s)) k = Some v \<or> kv_counter (sys_sm s) < sv_seq v"
    and "(k, v) \<in> sys_seen s \<union> records sm'"
  shows "sv_seq v \<le> kv_counter sm' \<and> read_of (ks_get (kvs sm')) k v"
proof (cases "(k, v) \<in> sys_seen s")
  case True
  then have "sv_seq v \<le> kv_counter (sys_sm s)" "read_of (ks_get (kvs (sys_sm s))) k v"
    using assms(1) by (auto simp: sys_inv_def Let_def)
  with read_of_later[OF _ _ assms(4)] assms(3) show ?thesis by auto
next
  case False
  with assms(2,5) records_read_of show ?thesis by blast
qed

lemma request_keeps:
  assumes "codec_laws C" and "sys_inv C s" and "schema_request C s T dbs tbs"
    and "list_all (cond_spec (ks_get (kvs (sys_sm s)))) (txn_condition T)"
  shows "keeps_schema C (view_data (ks_get (kvs (sys_sm s))))
           (fold txn_op_spec (txn_if_then T) (view_data (ks_get (kvs (sys_sm s))))) dbs tbs"
proof -
  let ?m = "ks_get (kvs (sys_sm s))"
  have inv: "schema_inv C (view_data ?m)" and pos: "seqs_positive ?m"
    using assms(2) sm_seqs_positive by (auto simp: sys_inv_def Let_def)
  have seen: "(k, v) \<in> sys_seen s \<Longrightarrow> read_of ?m k v" for k v
    using assms(2) by (auto simp: sys_inv_def Let_def)
  have fresh: "i \<in> sys_db_ids s \<Longrightarrow> ?m (db_key i) = None" "i \<in> sys_tb_ids s \<Longrightarrow> ?m (table_key i) = None" for i
    using assms(2) by (auto simp: sys_inv_def Let_def)
  from assms(3) show ?thesis
  proof cases
    case (req_create_database i n meta)
    then show ?thesis using create_database_keeps[OF assms(1) inv pos _ fresh(1) assms(4)] by simp
  next
    case (req_drop_database n v i w)
    then show ?thesis using drop_database_keeps[OF inv seen _ seen _ assms(4)] by simp
  next
    case (req_rename_database n v i n')
    then show ?thesis using rename_database_keeps[OF assms(1) inv pos seen _ _ assms(4)] by simp
  next
    case (req_create_table d w meta t n tmeta)
    then show ?thesis using create_table_keeps[OF assms(1) inv pos seen fresh(2) _ assms(4)] by simp
  next
    case (req_drop_table d w meta n v t tsq)
    then show ?thesis using drop_table_keeps[OF assms(1) inv seen seen _ _ assms(4)] by simp
  next
    case (req_rename_table d w meta d' w' meta' n v t n')
    then show ?thesis using rename_table_keeps[OF assms(1) inv pos seen seen seen _ _ assms(4)] by simp
  next
    case (req_upsert_table_option t u tmeta)
    then show ?thesis using upsert_table_option_keeps[OF assms(1) inv seen _ assms(4)] by simp
  qed
qed

lemma request_ops: "schema_request C s T dbs tbs \<Longrightarrow> length (txn_if_then T) \<le> 4 \<and> txn_else_then T = []"
  by (cases rule: schema_request.cases)
     (auto simp: create_database_txn_def drop_database_txn_def rename_database_txn_def create_table_txn_def
        drop_table_txn_def rename_table_txn_def upsert_table_option_txn_def try_res_Inr_iff split: if_splits)


section \<open>The steps keep the invariant\<close>

lemma fetch_id_sm:
  assumes "sm_ok sm" and "kv_counter sm \<noteq> - 1" and "fetch_id (sm_kv_api now) g sm = (Inr i, sm')"
  shows "sm_ok sm'" and "i = kv_counter sm + 1" and "kv_counter sm' = kv_counter sm + 1"
    and "ks_get (kvs sm') = (ks_get (kvs sm))(g \<mapsto> SeqV_new (kv_counter sm + 1) '''')"
proof -
  let ?act = "\<lparr>up_key = g, up_seq = Any, up_value = Update '''', up_value_meta = None\<rparr>"
  have spec: "upsert_spec (kv_counter sm) ?act (ks_get (kvs sm)) =
      (let v = SeqV_new (kv_counter sm + 1) '''' in (Some v, (ks_get (kvs sm))(g \<mapsto> v)))"
    by (simp add: upsert_spec_def with_meta_def SeqV_new_def Let_def)
  obtain sm1 where a: "api_upsert_kv (sm_kv_api now) ?act sm
        = (Inr (Change_new (ks_get (kvs sm) g) (Some (SeqV_new (kv_counter sm + 1) ''''))), sm1)"
      and m: "ks_get (kvs sm1) = (ks_get (kvs sm))(g \<mapsto> SeqV_new (kv_counter sm + 1) '''')"
      and ok: "sm_ok sm1" and c: "kv_counter sm1 = kv_counter sm \<or> kv_counter sm1 = kv_counter sm + 1"
    using sm_api.upsert_kv[OF assms(1,2), of ?act now] by (auto simp: spec Let_def)
  have f: "fetch_id (sm_kv_api now) g sm = (Inr (kv_counter sm + 1), sm1)"
    unfolding fetch_id_def a by (simp add: Change_new_def SeqV_new_def)
  with assms(3) have e: "sm' = sm1" "i = kv_counter sm + 1" by simp_all
  have "kv_counter sm + 1 \<le> kv_counter sm1"
    using sm_api.seq_pos[OF ok, of g "SeqV_new (kv_counter sm + 1) ''''"] m by (simp add: SeqV_new_def)
  then have "kv_counter sm1 = kv_counter sm + 1"
    using c u64_less_plus_one[OF assms(2)] by auto
  with e m ok show "sm_ok sm'" "i = kv_counter sm + 1" "kv_counter sm' = kv_counter sm + 1"
    "ks_get (kvs sm') = (ks_get (kvs sm))(g \<mapsto> SeqV_new (kv_counter sm + 1) '''')" by simp_all
qed

lemma schema_inv_id_gen:
  assumes "g = DatabaseIdGen_to_key \<or> g = TableIdGen_to_key"
  shows "schema_inv C (D(g := x)) = schema_inv C D"
  using assms by (auto simp: schema_inv_def db_links.linked_other table_links.linked_other)

lemma fetch_keeps_inv:
  assumes "sys_inv C s" and room: "unat (kv_counter (sys_sm s)) + 4 < 2 ^ 64"
    and g: "g = DatabaseIdGen_to_key \<or> g = TableIdGen_to_key"
    and f: "fetch_id (sm_kv_api now) g (sys_sm s) = (Inr i, sm')"
  shows "sys_inv C (s\<lparr>sys_sm := sm', sys_seen := sys_seen s \<union> records sm',
                      sys_db_ids := insert i (sys_db_ids s)\<rparr>)"
    and "sys_inv C (s\<lparr>sys_sm := sm', sys_seen := sys_seen s \<union> records sm',
                      sys_tb_ids := insert i (sys_tb_ids s)\<rparr>)"
proof -
  let ?c = "kv_counter (sys_sm s)" and ?m = "ks_get (kvs (sys_sm s))" and ?m' = "ks_get (kvs sm')"
  have nm: "?c \<noteq> - 1" using room by (simp add: u64_not_max_iff)
  have ok0: "sm_ok (sys_sm s)" using assms(1) by (simp add: sys_inv_def Let_def)
  note F = fetch_id_sm[OF ok0 nm f]
  have lt: "?c < kv_counter sm'" by (simp add: F(3) u64_less_plus_one[OF nm])
  have old: "?m' k = Some v \<Longrightarrow> ?m k = Some v \<or> ?c < sv_seq v" for k v
    by (auto simp: F(4) SeqV_new_def u64_less_plus_one[OF nm] split: if_splits)
  have gk: "?m' (db_key j) = ?m (db_key j)" "?m' (table_key j) = ?m (table_key j)" for j
    using g by (auto simp: F(4))
  have inv: "schema_inv C (view_data ?m')"
  proof -
    have "view_data ?m' = (view_data ?m)(g \<mapsto> '''')" by (simp add: F(4) view_data_def fun_eq_iff SeqV_new_def)
    with assms(1) show ?thesis by (simp add: schema_inv_id_gen[OF g] sys_inv_def Let_def)
  qed
  have used: "\<And>j. ?m (db_key j) \<noteq> None \<Longrightarrow> j \<le> ?c" "\<And>j. ?m (table_key j) \<noteq> None \<Longrightarrow> j \<le> ?c"
    using assms(1) by (auto simp: sys_inv_def Let_def)
  then have new: "?m (db_key i) = None" "?m (table_key i) = None"
    using u64_less_plus_one[OF nm] unfolding F(2) by (meson leD)+
  have up: "j \<le> ?c \<Longrightarrow> j \<le> kv_counter sm'" for j using lt by simp
  have seen: "(k, v) \<in> sys_seen s \<or> (k, v) \<in> records sm' \<Longrightarrow> sv_seq v \<le> kv_counter sm' \<and> read_of ?m' k v" for k v
    using seen_later[OF assms(1) F(1) less_imp_le[OF lt] old] by blast
  show "sys_inv C (s\<lparr>sys_sm := sm', sys_seen := sys_seen s \<union> records sm',
                      sys_db_ids := insert i (sys_db_ids s)\<rparr>)"
    "sys_inv C (s\<lparr>sys_sm := sm', sys_seen := sys_seen s \<union> records sm',
                      sys_tb_ids := insert i (sys_tb_ids s)\<rparr>)"
    using assms(1) F(1,2,3) inv seen used up new unfolding sys_inv_def Let_def
    by (auto simp: gk)
qed

lemma send_txn_sm:
  assumes "sm_ok sm" and "unat (kv_counter sm) + length (txn_ops_run T (ks_get (kvs sm))) < 2 ^ 64"
    and "send_txn (sm_kv_api now) C T sm = (Inr (succ, resp), sm')"
  shows "sm_ok sm'" and "succ = list_all (cond_spec (ks_get (kvs sm))) (txn_condition T)"
    and "view_data (ks_get (kvs sm')) = fold txn_op_spec (txn_ops_run T (ks_get (kvs sm))) (view_data (ks_get (kvs sm)))"
    and "\<And>k v. ks_get (kvs sm') k = Some v \<Longrightarrow> ks_get (kvs sm) k = Some v \<or> kv_counter sm < sv_seq v"
    and "kv_counter sm \<le> kv_counter sm'"
    and "unat (kv_counter sm') \<le> unat (kv_counter sm) + length (txn_ops_run T (ks_get (kvs sm)))"
    and "\<And>k. Some k \<notin> op_writes ` set (txn_ops_run T (ks_get (kvs sm))) \<Longrightarrow> ks_get (kvs sm') k = ks_get (kvs sm) k"
    and "\<And>k v. Some k \<in> op_writes ` set (txn_ops_run T (ks_get (kvs sm))) \<Longrightarrow> ks_get (kvs sm') k = Some v \<Longrightarrow> kv_counter sm < sv_seq v"
proof -
  obtain r sm1 where a: "api_transaction (sm_kv_api now) T sm = (Inr r, sm1)" and e: "tr_error r = ''''"
      and su: "tr_success r = list_all (cond_spec (ks_get (kvs sm))) (txn_condition T)"
      and d: "view_data (ks_get (kvs sm1)) = fold txn_op_spec (txn_ops_run T (ks_get (kvs sm))) (view_data (ks_get (kvs sm)))"
      and v: "\<And>k v. ks_get (kvs sm1) k = Some v \<Longrightarrow> ks_get (kvs sm) k = Some v \<or> kv_counter sm < sv_seq v"
      and ok: "sm_ok sm1" and c: "kv_counter sm \<le> kv_counter sm1"
      and u: "unat (kv_counter sm1) \<le> unat (kv_counter sm) + length (txn_ops_run T (ks_get (kvs sm)))"
      and f: "\<And>k. Some k \<notin> op_writes ` set (txn_ops_run T (ks_get (kvs sm))) \<Longrightarrow> ks_get (kvs sm1) k = ks_get (kvs sm) k"
      and w: "\<And>k v. Some k \<in> op_writes ` set (txn_ops_run T (ks_get (kvs sm))) \<Longrightarrow> ks_get (kvs sm1) k = Some v \<Longrightarrow> kv_counter sm < sv_seq v"
    by (rule sm_api.transactionE[OF assms(1,2), of now], rule that)
  have "sm' = sm1" "succ = tr_success r"
    using assms(3) by (simp_all add: send_txn_def TxnReply_into_def a e)
  with su d v ok c u f w show "sm_ok sm'" "succ = list_all (cond_spec (ks_get (kvs sm))) (txn_condition T)"
    "view_data (ks_get (kvs sm')) = fold txn_op_spec (txn_ops_run T (ks_get (kvs sm))) (view_data (ks_get (kvs sm)))"
    "\<And>k v. ks_get (kvs sm') k = Some v \<Longrightarrow> ks_get (kvs sm) k = Some v \<or> kv_counter sm < sv_seq v"
    "kv_counter sm \<le> kv_counter sm'"
    "unat (kv_counter sm') \<le> unat (kv_counter sm) + length (txn_ops_run T (ks_get (kvs sm)))"
    "\<And>k. Some k \<notin> op_writes ` set (txn_ops_run T (ks_get (kvs sm))) \<Longrightarrow> ks_get (kvs sm') k = ks_get (kvs sm) k"
    "\<And>k v. Some k \<in> op_writes ` set (txn_ops_run T (ks_get (kvs sm))) \<Longrightarrow> ks_get (kvs sm') k = Some v \<Longrightarrow> kv_counter sm < sv_seq v"
    by simp_all
qed

lemma send_keeps_inv:
  assumes "codec_laws C" and "sys_inv C s" and room: "unat (kv_counter (sys_sm s)) + 4 < 2 ^ 64"
    and req: "schema_request C s T dbs tbs"
    and send: "send_txn (sm_kv_api now) C T (sys_sm s) = (Inr (succ, resp), sm')"
  shows "sys_inv C (s\<lparr>sys_sm := sm', sys_seen := sys_seen s \<union> records sm',
                      sys_db_ids := sys_db_ids s - dbs, sys_tb_ids := sys_tb_ids s - tbs\<rparr>)"
proof -
  let ?c = "kv_counter (sys_sm s)" and ?m = "ks_get (kvs (sys_sm s))" and ?m' = "ks_get (kvs sm')"
  have ok0: "sm_ok (sys_sm s)" using assms(2) by (simp add: sys_inv_def Let_def)
  have "length (txn_ops_run T ?m) \<le> 4" using request_ops[OF req] by (simp add: txn_ops_run_def)
  then have "unat ?c + length (txn_ops_run T ?m) < 2 ^ 64" using room by linarith
  note S = send_txn_sm[OF ok0 this send]
  have keep: "keeps_schema C (view_data ?m) (view_data ?m') dbs tbs"
  proof (cases "list_all (cond_spec ?m) (txn_condition T)")
    case True
    then show ?thesis using request_keeps[OF assms(1,2) req True] S(3) by (simp add: txn_ops_run_def)
  next
    case False
    then have "view_data ?m' = view_data ?m" using S(3) request_ops[OF req] by (simp add: txn_ops_run_def)
    with assms(2) show ?thesis by (simp add: keeps_schema_def sys_inv_def Let_def)
  qed
  then have grow: "\<And>i. ?m' (db_key i) \<noteq> None \<Longrightarrow> ?m (db_key i) \<noteq> None \<or> i \<in> dbs"
      "\<And>i. ?m' (table_key i) \<noteq> None \<Longrightarrow> ?m (table_key i) \<noteq> None \<or> i \<in> tbs"
    unfolding keeps_schema_def view_data_None by blast+
  have sub: "dbs \<subseteq> sys_db_ids s" "tbs \<subseteq> sys_tb_ids s"
    using req by (auto elim: schema_request.cases)
  have old: "\<And>i. i \<in> sys_db_ids s \<Longrightarrow> i \<le> ?c \<and> ?m (db_key i) = None"
      "\<And>i. i \<in> sys_tb_ids s \<Longrightarrow> i \<le> ?c \<and> ?m (table_key i) = None"
      "\<And>i. ?m (db_key i) \<noteq> None \<Longrightarrow> i \<le> ?c" "\<And>i. ?m (table_key i) \<noteq> None \<Longrightarrow> i \<le> ?c"
    using assms(2) by (auto simp: sys_inv_def Let_def)
  have up: "i \<le> ?c \<Longrightarrow> i \<le> kv_counter sm'" for i using S(5) by simp
  show ?thesis
    unfolding sys_inv_def Let_def
  proof (intro conjI allI impI ballI)
    show "schema_inv C (view_data (ks_get (kvs (sys_sm (s\<lparr>sys_sm := sm', sys_seen := sys_seen s \<union> records sm',
        sys_db_ids := sys_db_ids s - dbs, sys_tb_ids := sys_tb_ids s - tbs\<rparr>)))))"
      using keep by (simp add: keeps_schema_def)
  qed (use S(1) grow sub old up seen_later[OF assms(2) S(1,5,4)] in \<open>auto, (blast | metis)+\<close>)
qed

lemma schema_step_inv:
  assumes "codec_laws C" and "schema_step C s s'" and "sys_inv C s"
  shows "sys_inv C s'"
  using assms(2,3)
  by (cases rule: schema_step.cases) (auto intro: fetch_keeps_inv send_keeps_inv[OF assms(1)])


section \<open>Reachable states\<close>

lemma sys_inv_init: "sys_inv C (sys_init (sm_open sm_empty))"
  by (auto simp: sys_inv_def sys_init_def records_def schema_inv_def linked_def view_data_def sm_ok_def
      kv_inv_init never_expires_def)

lemma schema_reachable_inv:
  assumes "codec_laws C" and "(schema_step C)\<^sup>*\<^sup>* s s'" and "sys_inv C s"
  shows "sys_inv C s'"
  using assms(2,3)
proof (induction rule: rtranclp_induct)
  case (step y z)
  then show ?case using schema_step_inv[OF assms(1)] by blast
qed

section \<open>Turns of the operations are runs of the system\<close>

text \<open>What the reads of a turn return, and that they are reads of the current records.\<close>

lemma get_id_value_sm:
  assumes "sm_ok sm" and "get_id_value (sm_kv_api now) C k sm = (r, sm')"
  shows "sm' = sm" and "r = Inr (q, i) \<Longrightarrow> q \<noteq> 0 \<Longrightarrow>
      \<exists>v. ks_get (kvs sm) k = Some v \<and> q = sv_seq v \<and> id_from_slice C (sv_data v) = Inr i"
    and "r = Inr (q, i) \<Longrightarrow> q = 0 \<Longrightarrow> ks_get (kvs sm) k = None"
  using assms(2) sm_seqs_positive[OF assms(1)]
  by (auto simp: get_id_value_def sm_api.get_kv[OF assms(1)] deserialize_id_def meta_encode_err_def
      try_res_Inr_iff seqs_positive_def split: option.splits sum.splits)

lemma get_db_value_sm:
  assumes "sm_ok sm" and "get_db_value (sm_kv_api now) C k sm = (r, sm')"
  shows "sm' = sm" and "r = Inr (q, Some meta) \<Longrightarrow>
      \<exists>w. ks_get (kvs sm) (DatabaseId_to_key k) = Some w \<and> q = sv_seq w \<and> deserialize_db_meta C (sv_data w) = Inr meta"
  using assms(2)
  by (auto simp: get_db_value_def sm_api.get_kv[OF assms(1)] meta_encode_err_def
      try_res_Inr_iff split: option.splits sum.splits)

lemma get_table_value_sm:
  assumes "sm_ok sm" and "get_table_value (sm_kv_api now) C k sm = (r, sm')"
  shows "sm' = sm" and "r = Inr (q, Some meta) \<Longrightarrow>
      \<exists>u. ks_get (kvs sm) (TableId_to_key k) = Some u \<and> q = sv_seq u \<and> deserialize_table_meta C (sv_data u) = Inr meta"
  using assms(2)
  by (auto simp: get_table_value_def sm_api.get_kv[OF assms(1)] meta_encode_err_def
      try_res_Inr_iff split: option.splits sum.splits)

lemma get_db_or_err_sm:
  assumes "sm_ok sm" and "get_db_or_err (sm_kv_api now) C n msg sm = (r, sm')"
  shows "sm' = sm" and "r = Inr (q, d, mq, meta) \<Longrightarrow>
      \<exists>v w. ks_get (kvs sm) (DatabaseNameIdent_to_key n) = Some v \<and> q = sv_seq v \<and> id_from_slice C (sv_data v) = Inr d
        \<and> ks_get (kvs sm) (db_key d) = Some w \<and> mq = sv_seq w \<and> deserialize_db_meta C (sv_data w) = Inr meta"
proof -
  obtain r1 where 1: "get_id_value (sm_kv_api now) C (DatabaseNameIdent_to_key n) sm = (r1, sm)"
    using get_id_value_sm(1)[OF assms(1)] by (metis prod.exhaust)
  note I = get_id_value_sm[OF assms(1) 1]
  have 2: "\<exists>r2. get_db_value (sm_kv_api now) C k sm = (r2, sm)" for k
    using get_db_value_sm(1)[OF assms(1)] by (metis prod.exhaust)
  note M = get_db_value_sm(2)[OF assms(1)]
  show "sm' = sm"
  proof (cases r1)
    case (Inr p)
    obtain r2 where "get_db_value (sm_kv_api now) C \<lparr>db_id = snd p\<rparr> sm = (r2, sm)" using 2 by blast
    then show ?thesis
      using assms(2) 1 Inr by (cases r2)
        (auto simp: get_db_or_err_def db_has_to_exist_def split: prod.splits option.splits if_splits)
  qed (use assms(2) 1 in \<open>simp add: get_db_or_err_def\<close>)
  assume r: "r = Inr (q, d, mq, meta)"
  then obtain p where p: "r1 = Inr p" using assms(2) 1 by (cases r1) (simp_all add: get_db_or_err_def)
  obtain r2 where d: "get_db_value (sm_kv_api now) C \<lparr>db_id = snd p\<rparr> sm = (r2, sm)" using 2 by blast
  have "p = (q, d)" "q \<noteq> 0" "r2 = Inr (mq, Some meta)"
    using assms(2) 1 p d r
    by (auto simp: get_db_or_err_def db_has_to_exist_def try_st_Inr_iff split: prod.splits option.splits if_splits)
  with I(2)[of q d] p M[OF d, of mq meta]
  show "\<exists>v w. ks_get (kvs sm) (DatabaseNameIdent_to_key n) = Some v \<and> q = sv_seq v \<and> id_from_slice C (sv_data v) = Inr d
        \<and> ks_get (kvs sm) (db_key d) = Some w \<and> mq = sv_seq w \<and> deserialize_db_meta C (sv_data w) = Inr meta" by auto
qed


definition sys_run :: "'dt schema_codec \<Rightarrow> 'mem schema_sys \<Rightarrow> 'mem state_machine \<Rightarrow> bool" where
  "sys_run C s sm \<longleftrightarrow> (\<exists>s'. (schema_step C)\<^sup>*\<^sup>* s s' \<and> sys_sm s' = sm)"

lemma sys_run_refl: "sys_run C s (sys_sm s)"
  by (auto simp: sys_run_def)

lemma sys_run_step: "schema_step C s s' \<Longrightarrow> sys_run C s' sm \<Longrightarrow> sys_run C s sm"
  unfolding sys_run_def using converse_rtranclp_into_rtranclp[of "schema_step C" s s'] by blast

lemma sys_inv_sm: "sys_inv C s \<Longrightarrow> sm_ok (sys_sm s)"
  by (simp add: sys_inv_def Let_def)

lemma sys_inv_seen: "sys_inv C s \<Longrightarrow> ks_get (kvs (sys_sm s)) k = Some v \<Longrightarrow> (k, v) \<in> sys_seen s"
  by (auto simp: sys_inv_def Let_def records_def)

lemma fetch_id_returns:
  assumes "sm_ok sm" and "kv_counter sm \<noteq> - 1"
  shows "\<exists>sm'. fetch_id (sm_kv_api now) g sm = (Inr (kv_counter sm + 1), sm')"
  using sm_api.upsert_kv[OF assms, of "\<lparr>up_key = g, up_seq = Any, up_value = Update '''', up_value_meta = None\<rparr>" now]
  by (auto simp: fetch_id_def upsert_spec_def with_meta_def Change_new_def Let_def)

lemma send_txn_returns:
  assumes "sm_ok sm" and "unat (kv_counter sm) + length (txn_ops_run T (ks_get (kvs sm))) < 2 ^ 64"
  shows "\<exists>succ resp sm'. send_txn (sm_kv_api now) C T sm = (Inr (succ, resp), sm')"
  using sm_api.transaction[OF assms, of now] by (auto simp: send_txn_def TxnReply_into_def)

lemma sys_run_send:
  assumes "sys_inv C s" and "unat (kv_counter (sys_sm s)) + 4 < 2 ^ 64" and "schema_request C s T dbs tbs"
  obtains succ resp sm' where "send_txn (sm_kv_api now) C T (sys_sm s) = (Inr (succ, resp), sm')"
    and "sys_run C s sm'"
proof -
  have "length (txn_ops_run T (ks_get (kvs (sys_sm s)))) \<le> 4"
    using request_ops[OF assms(3)] by (simp add: txn_ops_run_def)
  with assms(2) obtain succ resp sm' where
    t: "send_txn (sm_kv_api now) C T (sys_sm s) = (Inr (succ, resp), sm')"
    using send_txn_returns[OF sys_inv_sm[OF assms(1)], of T now C] by force
  show thesis
    by (rule that[OF t], rule sys_run_step[OF send_transaction[OF assms(2,3) t]])
       (auto simp: sys_run_def)
qed

lemma sys_run_fetch:
  assumes "sys_inv C s" and "unat (kv_counter (sys_sm s)) + 8 < 2 ^ 64"
    and "g = DatabaseIdGen_to_key \<or> g = TableIdGen_to_key"
  obtains i s' where "fetch_id (sm_kv_api now) g (sys_sm s) = (Inr i, sys_sm s')" and "schema_step C s s'"
    and "sys_inv C s'" and "unat (kv_counter (sys_sm s')) + 4 < 2 ^ 64" and "sys_seen s \<subseteq> sys_seen s'"
    and "g = DatabaseIdGen_to_key \<Longrightarrow> i \<in> sys_db_ids s'" and "g = TableIdGen_to_key \<Longrightarrow> i \<in> sys_tb_ids s'"
proof -
  have nm: "kv_counter (sys_sm s) \<noteq> - 1" and room: "unat (kv_counter (sys_sm s)) + 4 < 2 ^ 64"
    using assms(2) by (simp_all add: u64_not_max_iff)
  obtain i sm' where f: "fetch_id (sm_kv_api now) g (sys_sm s) = (Inr i, sm')"
    using fetch_id_returns[OF sys_inv_sm[OF assms(1)] nm] by blast
  have c: "unat (kv_counter sm') + 4 < 2 ^ 64"
    using fetch_id_sm(3)[OF sys_inv_sm[OF assms(1)] nm f] unat_u64_plus_one[OF nm] assms(2) by simp
  show thesis
  proof (cases "g = DatabaseIdGen_to_key")
    case True
    then show ?thesis
      using that[of i "s\<lparr>sys_sm := sm', sys_seen := sys_seen s \<union> records sm', sys_db_ids := insert i (sys_db_ids s)\<rparr>"]
        f c fetch_database_id[OF room, of now i sm' C] fetch_keeps_inv(1)[OF assms(1) room assms(3) f] by simp
  next
    case False
    then show ?thesis
      using that[of i "s\<lparr>sys_sm := sm', sys_seen := sys_seen s \<union> records sm', sys_tb_ids := insert i (sys_tb_ids s)\<rparr>"]
        f c assms(3) fetch_table_id[OF room, of now i sm' C] fetch_keeps_inv(2)[OF assms(1) room assms(3) f] by simp
  qed
qed

lemma create_database_turn:
  assumes "sys_inv C s" and "unat (kv_counter (sys_sm s)) + 8 < 2 ^ 64"
  shows "sys_run C s (snd (create_database_step (sm_kv_api now) C req (sys_sm s)))"
proof -
  let ?k = "DatabaseNameIdent_to_key (cd_name_ident req)"
  obtain r where g: "get_id_value (sm_kv_api now) C ?k (sys_sm s) = (r, sys_sm s)"
    using get_id_value_sm(1)[OF sys_inv_sm[OF assms(1)]] by (metis prod.exhaust)
  obtain i s1 where f: "fetch_id (sm_kv_api now) DatabaseIdGen_to_key (sys_sm s) = (Inr i, sys_sm s1)"
      and st: "schema_step C s s1" and inv: "sys_inv C s1" and room: "unat (kv_counter (sys_sm s1)) + 4 < 2 ^ 64"
      and i: "i \<in> sys_db_ids s1"
    using sys_run_fetch[OF assms, of DatabaseIdGen_to_key now] by metis
  have end1: "sys_run C s (sys_sm s1)" by (rule sys_run_step[OF st sys_run_refl])
  show ?thesis
  proof (cases "create_database_txn C (cd_name_ident req) i (cd_meta req)")
    case (Inl e)
    then show ?thesis
      using g f end1 by (cases r) (auto simp: create_database_step_def sys_run_refl Let_def split: prod.splits)
  next
    case (Inr T)
    obtain succ resp sm2 where "send_txn (sm_kv_api now) C T (sys_sm s1) = (Inr (succ, resp), sm2)" "sys_run C s1 sm2"
      by (rule sys_run_send[OF inv room req_create_database[OF i Inr], of now])
    with Inr g f st show ?thesis
      by (cases r) (auto simp: create_database_step_def sys_run_refl sys_run_step Let_def split: prod.splits)
  qed
qed


lemma drop_database_turn:
  assumes "sys_inv C s" and "unat (kv_counter (sys_sm s)) + 8 < 2 ^ 64"
  shows "sys_run C s (snd (drop_database_step (sm_kv_api now) C req (sys_sm s)))"
proof -
  let ?n = "dd_name_ident req"
  let ?msg = "''drop_database: '' @ DatabaseNameIdent_display ?n"
  obtain r where g: "get_db_or_err (sm_kv_api now) C ?n ?msg (sys_sm s) = (r, sys_sm s)"
    using get_db_or_err_sm(1)[OF sys_inv_sm[OF assms(1)]] by (metis prod.exhaust)
  show ?thesis
  proof (cases r)
    case (Inl e)
    then have "snd (drop_database_step (sm_kv_api now) C req (sys_sm s)) = sys_sm s"
      using g by (simp add: drop_database_step_def Let_def split: MetaError.splits AppError.splits)
    then show ?thesis by (simp add: sys_run_refl)
  next
    case (Inr p)
    obtain q d mq meta where p: "p = (q, d, mq, meta)" by (metis prod_cases4)
    obtain v w where v: "ks_get (kvs (sys_sm s)) (DatabaseNameIdent_to_key ?n) = Some v" "q = sv_seq v"
        "id_from_slice C (sv_data v) = Inr d" and w: "ks_get (kvs (sys_sm s)) (db_key d) = Some w" "mq = sv_seq w"
      using get_db_or_err_sm(2)[OF sys_inv_sm[OF assms(1)] g] Inr p by metis
    have room: "unat (kv_counter (sys_sm s)) + 4 < 2 ^ 64" using assms(2) by simp
    obtain succ resp sm2 where
      "send_txn (sm_kv_api now) C (drop_database_txn ?n (sv_seq v) d (sv_seq w)) (sys_sm s) = (Inr (succ, resp), sm2)"
      "sys_run C s sm2"
      by (rule sys_run_send[OF assms(1) room req_drop_database[OF sys_inv_seen[OF assms(1) v(1)] v(3)
            sys_inv_seen[OF assms(1) w(1)] refl], of now], rule that)
    with g Inr p v(2) w(2) show ?thesis by (simp add: drop_database_step_def Let_def)
  qed
qed

lemma rename_database_turn:
  assumes "sys_inv C s" and "unat (kv_counter (sys_sm s)) + 8 < 2 ^ 64"
  shows "sys_run C s (snd (rename_database_step (sm_kv_api now) C req (sys_sm s)))"
proof -
  let ?n = "rd_name_ident req"
  let ?n' = "\<lparr>dn_tenant = dn_tenant ?n, dn_db_name = rd_new_db_name req\<rparr>"
  note ok = sys_inv_sm[OF assms(1)]
  obtain r r' where g: "get_id_value (sm_kv_api now) C (DatabaseNameIdent_to_key ?n) (sys_sm s) = (r, sys_sm s)"
      and g': "get_id_value (sm_kv_api now) C (DatabaseNameIdent_to_key ?n') (sys_sm s) = (r', sys_sm s)"
    using get_id_value_sm(1)[OF ok] by (metis prod.exhaust)
  show ?thesis
  proof (cases "\<exists>q d T. r = Inr (q, d) \<and> q \<noteq> 0 \<and> rename_database_txn C ?n ?n' q d = Inr T")
    case False
    then have "snd (rename_database_step (sm_kv_api now) C req (sys_sm s)) = sys_sm s"
      using g g' by (cases r; cases r')
        (auto simp: rename_database_step_def Let_def db_has_to_exist_def db_has_to_not_exist_def try_st_def
          split: prod.splits sum.splits)
    then show ?thesis by (simp add: sys_run_refl)
  next
    case True
    then obtain q d T where q: "r = Inr (q, d)" "q \<noteq> 0" "rename_database_txn C ?n ?n' q d = Inr T" by blast
    obtain v where v: "ks_get (kvs (sys_sm s)) (DatabaseNameIdent_to_key ?n) = Some v" "q = sv_seq v"
        "id_from_slice C (sv_data v) = Inr d"
      using get_id_value_sm(2)[OF ok g q(1,2)] by blast
    have room: "unat (kv_counter (sys_sm s)) + 4 < 2 ^ 64" using assms(2) by simp
    obtain succ resp sm2 where "send_txn (sm_kv_api now) C T (sys_sm s) = (Inr (succ, resp), sm2)" "sys_run C s sm2"
      by (rule sys_run_send[OF assms(1) room req_rename_database[OF sys_inv_seen[OF assms(1) v(1)] v(3)
            q(3)[unfolded v(2)]], of now], rule that)
    with g g' q show ?thesis
      by (cases r') (auto simp: rename_database_step_def Let_def db_has_to_exist_def db_has_to_not_exist_def
          sys_run_refl try_st_def split: prod.splits)
  qed
qed


text \<open>The record of the database a table operation works on.\<close>

lemma get_db_or_err_seen:
  assumes "sys_inv C s" and "get_db_or_err (sm_kv_api now) C n msg (sys_sm s) = (Inr (q, d, mq, meta), sm')"
  obtains w where "(db_key d, w) \<in> sys_seen s" and "mq = sv_seq w" and "deserialize_db_meta C (sv_data w) = Inr meta"
  using get_db_or_err_sm(2)[OF sys_inv_sm[OF assms(1)] assms(2), of q d mq meta] sys_inv_seen[OF assms(1)] by blast

lemma get_db_or_err_state:
  "sys_inv C s \<Longrightarrow> \<exists>r. get_db_or_err (sm_kv_api now) C n msg (sys_sm s) = (r, sys_sm s)"
  using get_db_or_err_sm(1)[OF sys_inv_sm] by (metis prod.exhaust)

lemma get_id_value_state:
  "sys_inv C s \<Longrightarrow> \<exists>r. get_id_value (sm_kv_api now) C k (sys_sm s) = (r, sys_sm s)"
  using get_id_value_sm(1)[OF sys_inv_sm] by (metis prod.exhaust)

lemma get_table_value_state:
  "sys_inv C s \<Longrightarrow> \<exists>r. get_table_value (sm_kv_api now) C k (sys_sm s) = (r, sys_sm s)"
  using get_table_value_sm(1)[OF sys_inv_sm] by (metis prod.exhaust)

lemma create_table_turn:
  assumes "sys_inv C s" and "unat (kv_counter (sys_sm s)) + 8 < 2 ^ 64"
  shows "sys_run C s (snd (create_table_step (sm_kv_api now) C req (sys_sm s)))"
proof -
  let ?n = "ct_name_ident req"
  obtain r where g: "get_db_or_err (sm_kv_api now) C (db_name_ident ?n) ''create_table'' (sys_sm s) = (r, sys_sm s)"
    using get_db_or_err_state[OF assms(1)] by blast
  show ?thesis
  proof (cases r)
    case (Inl e)
    with g show ?thesis by (simp add: create_table_step_def sys_run_refl Let_def)
  next
    case (Inr p)
    obtain q d mq meta where p: "p = (q, d, mq, meta)" by (metis prod_cases4)
    obtain w where w: "(db_key d, w) \<in> sys_seen s" "mq = sv_seq w" "deserialize_db_meta C (sv_data w) = Inr meta"
      by (rule get_db_or_err_seen[OF assms(1) g[unfolded Inr p]], rule that)
    let ?t = "\<lparr>dt_db_id = d, dt_table_name = tn_table_name ?n\<rparr>"
    obtain r2 where g2: "get_id_value (sm_kv_api now) C (DBIdTableName_to_key ?t) (sys_sm s) = (r2, sys_sm s)"
      using get_id_value_state[OF assms(1)] by blast
    obtain i s1 where f: "fetch_id (sm_kv_api now) TableIdGen_to_key (sys_sm s) = (Inr i, sys_sm s1)"
        and st: "schema_step C s s1" and inv: "sys_inv C s1" and room: "unat (kv_counter (sys_sm s1)) + 4 < 2 ^ 64"
        and i: "i \<in> sys_tb_ids s1" and sub: "sys_seen s \<subseteq> sys_seen s1"
      using sys_run_fetch[OF assms, of TableIdGen_to_key now] by metis
    have end1: "sys_run C s (sys_sm s1)" by (rule sys_run_step[OF st sys_run_refl])
    show ?thesis
    proof (cases "create_table_txn C d mq meta ?t i (ct_table_meta req)")
      case (Inl e)
      then show ?thesis
        using g g2 f end1 Inr p
        by (cases r2) (auto simp: create_table_step_def sys_run_refl Let_def split: prod.splits)
    next
      case T: (Inr T)
      obtain succ resp sm2 where "send_txn (sm_kv_api now) C T (sys_sm s1) = (Inr (succ, resp), sm2)" "sys_run C s1 sm2"
        by (rule sys_run_send[OF inv room req_create_table[OF subsetD[OF sub w(1)] w(3) i T[unfolded w(2)]], of now],
            rule that)
      with T g g2 f st Inr p show ?thesis
        by (cases r2) (auto simp: create_table_step_def sys_run_refl sys_run_step Let_def split: prod.splits)
    qed
  qed
qed

lemma drop_table_turn:
  assumes "sys_inv C s" and "unat (kv_counter (sys_sm s)) + 8 < 2 ^ 64"
  shows "sys_run C s (snd (drop_table_step (sm_kv_api now) C req (sys_sm s)))"
proof -
  let ?n = "dt_name_ident req"
  have room: "unat (kv_counter (sys_sm s)) + 4 < 2 ^ 64" using assms(2) by simp
  obtain r where g: "get_db_or_err (sm_kv_api now) C (db_name_ident ?n) ''drop_table'' (sys_sm s) = (r, sys_sm s)"
    using get_db_or_err_state[OF assms(1)] by blast
  show ?thesis
  proof (cases r)
    case (Inl e)
    with g show ?thesis by (simp add: drop_table_step_def sys_run_refl Let_def)
  next
    case (Inr p)
    obtain q d mq meta where p: "p = (q, d, mq, meta)" by (metis prod_cases4)
    obtain w where w: "(db_key d, w) \<in> sys_seen s" "mq = sv_seq w" "deserialize_db_meta C (sv_data w) = Inr meta"
      by (rule get_db_or_err_seen[OF assms(1) g[unfolded Inr p]], rule that)
    let ?t = "\<lparr>dt_db_id = d, dt_table_name = tn_table_name ?n\<rparr>"
    obtain r2 where g2: "get_id_value (sm_kv_api now) C (DBIdTableName_to_key ?t) (sys_sm s) = (r2, sys_sm s)"
      using get_id_value_state[OF assms(1)] by blast
    show ?thesis
    proof (cases "\<exists>q t. r2 = Inr (q, t) \<and> q \<noteq> 0")
      case False
      with g g2 Inr p show ?thesis
        by (cases r2) (auto simp: drop_table_step_def sys_run_refl Let_def split: prod.splits)
    next
      case True
      then obtain tq t where t: "r2 = Inr (tq, t)" "tq \<noteq> 0" by blast
      obtain v where v: "ks_get (kvs (sys_sm s)) (DBIdTableName_to_key ?t) = Some v" "tq = sv_seq v"
          "id_from_slice C (sv_data v) = Inr t"
        using get_id_value_sm(2)[OF sys_inv_sm[OF assms(1)] g2 t] by blast
      obtain r3 where g3: "get_table_value (sm_kv_api now) C \<lparr>table_id = t\<rparr> (sys_sm s) = (r3, sys_sm s)"
        using get_table_value_state[OF assms(1)] by blast
      show ?thesis
      proof (cases "\<exists>mt T. r3 = Inr mt \<and> drop_table_txn C d mq meta ?t tq t (fst mt) = Inr T")
        case False
        with g g2 g3 t Inr p show ?thesis
          by (cases r3) (auto simp: drop_table_step_def sys_run_refl Let_def try_st_def split: prod.splits sum.splits)
      next
        case True
        then obtain mt T where T: "r3 = Inr mt" "drop_table_txn C d mq meta ?t tq t (fst mt) = Inr T" by blast
        obtain succ resp sm2 where "send_txn (sm_kv_api now) C T (sys_sm s) = (Inr (succ, resp), sm2)" "sys_run C s sm2"
          by (rule sys_run_send[OF assms(1) room req_drop_table[OF w(1,3) sys_inv_seen[OF assms(1) v(1)] v(3)
                T(2)[unfolded w(2) v(2)]], of now], rule that)
        with T g g2 g3 t Inr p show ?thesis
          by (auto simp: drop_table_step_def Let_def split: prod.splits)
      qed
    qed
  qed
qed


lemma rename_table_turn:
  assumes "sys_inv C s" and "unat (kv_counter (sys_sm s)) + 8 < 2 ^ 64"
  shows "sys_run C s (snd (rename_table_step (sm_kv_api now) C req (sys_sm s)))"
proof -
  let ?n = "rt_name_ident req"
  let ?m = "\<lparr>dn_tenant = tn_tenant ?n, dn_db_name = rt_new_db_name req\<rparr>"
  have room: "unat (kv_counter (sys_sm s)) + 4 < 2 ^ 64" using assms(2) by simp
  obtain r r' where g: "get_db_or_err (sm_kv_api now) C (db_name_ident ?n) ''rename_table'' (sys_sm s) = (r, sys_sm s)"
    and g': "get_db_or_err (sm_kv_api now) C ?m ''rename_table: new db'' (sys_sm s) = (r', sys_sm s)"
    using get_db_or_err_state[OF assms(1)] by metis
  show ?thesis
  proof (cases r)
    case (Inl e)
    with g show ?thesis by (simp add: rename_table_step_def sys_run_refl Let_def)
  next
    case (Inr p)
    obtain q d mq meta where p: "p = (q, d, mq, meta)" by (metis prod_cases4)
    obtain w where w: "(db_key d, w) \<in> sys_seen s" "mq = sv_seq w" "deserialize_db_meta C (sv_data w) = Inr meta"
      by (rule get_db_or_err_seen[OF assms(1) g[unfolded Inr p]], rule that)
    let ?t = "\<lparr>dt_db_id = d, dt_table_name = tn_table_name ?n\<rparr>"
    obtain r2 where g2: "get_id_value (sm_kv_api now) C (DBIdTableName_to_key ?t) (sys_sm s) = (r2, sys_sm s)"
      using get_id_value_state[OF assms(1)] by blast
    show ?thesis
    proof (cases "\<exists>q t p'. r2 = Inr (q, t) \<and> q \<noteq> 0 \<and> r' = Inr p'")
      case False
      with g g' g2 Inr p show ?thesis
        by (cases r2; cases r') (auto simp: rename_table_step_def table_has_to_exist_def sys_run_refl Let_def
            split: prod.splits)
    next
      case True
      then obtain tq t p' where t: "r2 = Inr (tq, t)" "tq \<noteq> 0" "r' = Inr p'" by blast
      obtain v where v: "ks_get (kvs (sys_sm s)) (DBIdTableName_to_key ?t) = Some v" "tq = sv_seq v"
          "id_from_slice C (sv_data v) = Inr t"
        using get_id_value_sm(2)[OF sys_inv_sm[OF assms(1)] g2 t(1,2)] by blast
      obtain q' d' mq' meta' where p': "p' = (q', d', mq', meta')" by (metis prod_cases4)
      obtain w' where w': "(db_key d', w') \<in> sys_seen s" "mq' = sv_seq w'" "deserialize_db_meta C (sv_data w') = Inr meta'"
        by (rule get_db_or_err_seen[OF assms(1) g'[unfolded t(3) p']], rule that)
      let ?t' = "\<lparr>dt_db_id = d', dt_table_name = rt_new_table_name req\<rparr>"
      obtain r3 where g3: "get_id_value (sm_kv_api now) C (DBIdTableName_to_key ?t') (sys_sm s) = (r3, sys_sm s)"
        using get_id_value_state[OF assms(1)] by blast
      show ?thesis
      proof (cases "rename_table_txn C d mq meta d' mq' meta' ?t tq t ?t'")
        case (Inl e)
        with g g' g2 g3 t Inr p p' show ?thesis
          by (cases r3) (auto simp: rename_table_step_def table_has_to_not_exist_def table_has_to_exist_def
              sys_run_refl Let_def split: prod.splits)
      next
        case T: (Inr T)
        obtain succ resp sm2 where "send_txn (sm_kv_api now) C T (sys_sm s) = (Inr (succ, resp), sm2)" "sys_run C s sm2"
          by (rule sys_run_send[OF assms(1) room req_rename_table[OF w(1,3) w'(1,3) sys_inv_seen[OF assms(1) v(1)] v(3)
                T[unfolded w(2) w'(2) v(2)]], of now], rule that)
        with T g g' g2 g3 t Inr p p' show ?thesis
          by (cases r3) (auto simp: rename_table_step_def table_has_to_not_exist_def table_has_to_exist_def
              sys_run_refl Let_def split: prod.splits)
      qed
    qed
  qed
qed

lemma upsert_table_option_turn:
  assumes "sys_inv C s" and "unat (kv_counter (sys_sm s)) + 8 < 2 ^ 64"
  shows "sys_run C s (snd (upsert_table_option_step (sm_kv_api now) C req (sys_sm s)))"
proof -
  let ?t = "uo_table_id req"
  have room: "unat (kv_counter (sys_sm s)) + 4 < 2 ^ 64" using assms(2) by simp
  obtain r where g: "get_table_value (sm_kv_api now) C \<lparr>table_id = ?t\<rparr> (sys_sm s) = (r, sys_sm s)"
    using get_table_value_state[OF assms(1)] by blast
  let ?m = "\<lambda>m. m\<lparr>tm_options := update_options (uo_options req) (tm_options m)\<rparr>"
  show ?thesis
  proof (cases "\<exists>q m T. r = Inr (q, Some m) \<and> q \<noteq> 0 \<and> upsert_table_option_txn C ?t q (?m m) = Inr T")
    case False
    with g show ?thesis
      by (cases r) (auto simp: upsert_table_option_step_def sys_run_refl try_st_def lift_res_def
          split: prod.splits option.splits sum.splits)
  next
    case True
    then obtain q m T where q: "r = Inr (q, Some m)" "q \<noteq> 0" "upsert_table_option_txn C ?t q (?m m) = Inr T"
      by blast
    obtain v where v: "ks_get (kvs (sys_sm s)) (table_key ?t) = Some v" "q = sv_seq v"
      using get_table_value_sm(2)[OF sys_inv_sm[OF assms(1)] g[unfolded q(1)], of q m] by auto
    obtain succ resp sm2 where "send_txn (sm_kv_api now) C T (sys_sm s) = (Inr (succ, resp), sm2)" "sys_run C s sm2"
      by (rule sys_run_send[OF assms(1) room req_upsert_table_option[OF sys_inv_seen[OF assms(1) v(1)]
            q(3)[unfolded v(2)]], of now], rule that)
    with g q show ?thesis
      by (auto simp: upsert_table_option_step_def sys_run_refl split: prod.splits)
  qed
qed

end
