(* ===== verification/Schema_Instance.thy ===== *)
theory Schema_Instance
  imports Schema_Concurrency
begin

text \<open>
  That what the schema layer relies on can hold: an executable codec that satisfies
  \<open>codec_laws\<close>. A message is written as a tree, the tree as tokens from the root to the leaves,
  and the tokens one after the other,
  every byte of theirs marked. Time stamps are strings.
\<close>

section \<open>Trees as bytes\<close>

datatype msg_tree = Leaf bytes | Node "msg_tree list"

fun tokens :: "msg_tree \<Rightarrow> bytes list" where
  "tokens (Leaf b) = [CHR ''s'' # b]"
| "tokens (Node ts) = (CHR ''n'' # replicate (length ts) CHR ''x'') # concat (map tokens ts)"

text \<open>Read from the right: a node takes its parts from the stack.\<close>

fun push_token :: "bytes \<Rightarrow> msg_tree list \<Rightarrow> msg_tree list" where
  "push_token [] st = st"
| "push_token (c # b) st = (if c = CHR ''s'' then Leaf b # st else Node (take (length b) st) # drop (length b) st)"

lemma foldr_tokens: "foldr push_token (tokens t) st = t # st"
proof (induction t arbitrary: st)
  case (Node ts)
  have "foldr push_token (concat (map tokens ts)) st = ts @ st"
    using Node.IH by (induction ts) simp_all
  then show ?case by simp
qed simp

definition mark :: "bytes \<Rightarrow> bytes" where
  "mark b = concat (map (\<lambda>c. [CHR ''.'', c]) b)"

fun read_tokens :: "bytes \<Rightarrow> bytes \<Rightarrow> bytes list" where
  "read_tokens acc [] = []"
| "read_tokens acc (c # cs) =
     (if c = CHR ''/'' then rev acc # read_tokens [] cs
      else case cs of [] \<Rightarrow> [] | x # cs' \<Rightarrow> read_tokens (x # acc) cs')"

lemma read_tokens_mark: "read_tokens acc (mark b @ CHR ''/'' # rest) = (rev acc @ b) # read_tokens [] rest"
  by (induction b arbitrary: acc) (simp_all add: mark_def)

definition tree_encode :: "msg_tree \<Rightarrow> bytes" where
  "tree_encode t = concat (map (\<lambda>b. mark b @ ''/'') (tokens t))"

definition tree_decode :: "bytes \<Rightarrow> string + msg_tree" where
  "tree_decode b = (case foldr push_token (read_tokens [] b) [] of [t] \<Rightarrow> Inr t | _ \<Rightarrow> Inl ''tree'')"

lemma tree_round_trip: "tree_decode (tree_encode t) = Inr t"
proof -
  have "read_tokens [] (concat (map (\<lambda>b. mark b @ ''/'') bs)) = bs" for bs
    by (induction bs) (simp_all add: read_tokens_mark)
  then show ?thesis by (simp add: tree_decode_def tree_encode_def foldr_tokens)
qed


section \<open>Messages as trees\<close>

text \<open>A word is written as its bits from the lowest, without the zeros at the end.\<close>

definition strip_zeros :: "bytes \<Rightarrow> bytes" where
  "strip_zeros b = rev (dropWhile (\<lambda>c. c = CHR ''0'') (rev b))"

definition word_leaf :: "'a::len word \<Rightarrow> msg_tree" where
  "word_leaf w = Leaf (strip_zeros (map (\<lambda>n. if bit w n then CHR ''1'' else CHR ''0'') [0..<LENGTH('a)]))"

fun leaf_word :: "msg_tree \<Rightarrow> 'a::len word" where
  "leaf_word (Leaf b) = horner_sum of_bool 2 (map (\<lambda>c. c = CHR ''1'') b)"
| "leaf_word _ = 0"

lemma leaf_word_strip: "leaf_word (Leaf (strip_zeros b)) = (leaf_word (Leaf b) :: 'a::len word)"
  by (induction b rule: rev_induct) (auto simp: strip_zeros_def horner_sum_append)

lemma leaf_word_round_trip [simp]: "leaf_word (word_leaf w) = w"
proof -
  have e: "map ((\<lambda>c. c = CHR ''1'') \<circ> (\<lambda>n. if bit w n then CHR ''1'' else CHR ''0'')) ns = map (bit w) ns" for ns
    by (induction ns) auto
  show ?thesis
    unfolding word_leaf_def by (simp only: leaf_word_strip) (simp add: e horner_sum_bit_eq_take_bit)
qed

fun opt_tree :: "('a \<Rightarrow> msg_tree) \<Rightarrow> 'a option \<Rightarrow> msg_tree" where
  "opt_tree f None = Node []"
| "opt_tree f (Some a) = Node [f a]"

fun tree_opt :: "(msg_tree \<Rightarrow> 'a) \<Rightarrow> msg_tree \<Rightarrow> 'a option" where
  "tree_opt g (Node (t # _)) = Some (g t)"
| "tree_opt g _ = None"

fun leaf_bytes :: "msg_tree \<Rightarrow> bytes" where
  "leaf_bytes (Leaf b) = b"
| "leaf_bytes _ = []"

fun node_parts :: "msg_tree \<Rightarrow> msg_tree list" where
  "node_parts (Node ts) = ts"
| "node_parts _ = []"

definition btree_tree :: "btree \<Rightarrow> msg_tree" where
  "btree_tree m = Node (map (\<lambda>(k, v). Node [Leaf k, Leaf v]) m)"

definition tree_btree :: "msg_tree \<Rightarrow> btree" where
  "tree_btree t = map (\<lambda>kv. (leaf_bytes (node_parts kv ! 0), leaf_bytes (node_parts kv ! 1))) (node_parts t)"

lemma btree_round_trip [simp]: "tree_btree (btree_tree m) = m"
  by (induction m) (auto simp: tree_btree_def btree_tree_def)

lemma opt_tree_round_trip: "(\<And>a. x = Some a \<Longrightarrow> g (f a) = a) \<Longrightarrow> tree_opt g (opt_tree f x) = x"
  by (cases x) simp_all

lemma opt_leaf_round_trip [simp]: "tree_opt leaf_bytes (opt_tree Leaf x) = x"
  by (rule opt_tree_round_trip) simp

fun type_tree :: "pb_DataType \<Rightarrow> msg_tree"
and dt_tree :: "pb_Dt \<Rightarrow> msg_tree"
and nullable_tree :: "pb_NullableType \<Rightarrow> msg_tree"
and struct_tree :: "pb_Struct \<Rightarrow> msg_tree"
and array_tree :: "pb_Array \<Rightarrow> msg_tree" where
  "type_tree (pb_DataType v d) = Node (word_leaf v # (case d of None \<Rightarrow> [] | Some x \<Rightarrow> [dt_tree x]))"
| "dt_tree (Dt_NullableType x) = Node [Leaf ''nullable'', nullable_tree x]"
| "dt_tree Dt_BoolType = Leaf ''bool''"
| "dt_tree Dt_Int8Type = Leaf ''i8''"
| "dt_tree Dt_Int16Type = Leaf ''i16''"
| "dt_tree Dt_Int32Type = Leaf ''i32''"
| "dt_tree Dt_Int64Type = Leaf ''i64''"
| "dt_tree Dt_Uint8Type = Leaf ''u8''"
| "dt_tree Dt_Uint16Type = Leaf ''u16''"
| "dt_tree Dt_Uint32Type = Leaf ''u32''"
| "dt_tree Dt_Uint64Type = Leaf ''u64''"
| "dt_tree Dt_Float32Type = Leaf ''f32''"
| "dt_tree Dt_Float64Type = Leaf ''f64''"
| "dt_tree Dt_DateType = Leaf ''date''"
| "dt_tree (Dt_TimestampType x) = Node [Leaf ''timestamp'', word_leaf (pbt_ver x), word_leaf (pbt_precision x)]"
| "dt_tree Dt_StringType = Leaf ''string''"
| "dt_tree (Dt_StructType x) = Node [Leaf ''struct'', struct_tree x]"
| "dt_tree (Dt_ArrayType x) = Node [Leaf ''array'', array_tree x]"
| "dt_tree (Dt_VariantType x) = Node [Leaf ''variant'', word_leaf (pbv_ver x)]"
| "dt_tree (Dt_VariantArrayType x) = Node [Leaf ''variant_array'', word_leaf (pbv_ver x)]"
| "dt_tree (Dt_VariantObjectType x) = Node [Leaf ''variant_object'', word_leaf (pbv_ver x)]"
| "dt_tree (Dt_IntervalType x) = Node [Leaf ''interval'', word_leaf (pbi_ver x), word_leaf (pbi_kind x)]"
| "nullable_tree (pb_NullableType v d) = Node (word_leaf v # (case d of None \<Rightarrow> [] | Some x \<Rightarrow> [type_tree x]))"
| "struct_tree (pb_Struct v ns ts) = Node [word_leaf v, Node (map Leaf ns), Node (map type_tree ts)]"
| "array_tree (pb_Array v d) = Node (word_leaf v # (case d of None \<Rightarrow> [] | Some x \<Rightarrow> [type_tree x]))"

definition simple_dts :: "(bytes \<times> pb_Dt) list" where
  "simple_dts = [(''bool'', Dt_BoolType), (''i8'', Dt_Int8Type), (''i16'', Dt_Int16Type), (''i32'', Dt_Int32Type),
     (''i64'', Dt_Int64Type), (''u8'', Dt_Uint8Type), (''u16'', Dt_Uint16Type), (''u32'', Dt_Uint32Type),
     (''u64'', Dt_Uint64Type), (''f32'', Dt_Float32Type), (''f64'', Dt_Float64Type), (''date'', Dt_DateType),
     (''string'', Dt_StringType)]"

fun tree_type :: "msg_tree \<Rightarrow> pb_DataType"
and tree_dt :: "msg_tree \<Rightarrow> pb_Dt"
and tree_nullable :: "msg_tree \<Rightarrow> pb_NullableType"
and tree_struct :: "msg_tree \<Rightarrow> pb_Struct"
and tree_array :: "msg_tree \<Rightarrow> pb_Array" where
  "tree_type (Node [v]) = pb_DataType (leaf_word v) None"
| "tree_type (Node (v # d # _)) = pb_DataType (leaf_word v) (Some (tree_dt d))"
| "tree_type _ = pb_DataType 0 None"
| "tree_dt (Leaf b) = (case map_of simple_dts b of Some d \<Rightarrow> d | None \<Rightarrow> Dt_BoolType)"
| "tree_dt (Node [Leaf k, x]) =
     (if k = ''nullable'' then Dt_NullableType (tree_nullable x)
      else if k = ''struct'' then Dt_StructType (tree_struct x)
      else if k = ''array'' then Dt_ArrayType (tree_array x)
      else if k = ''variant'' then Dt_VariantType \<lparr>pbv_ver = leaf_word x\<rparr>
      else if k = ''variant_array'' then Dt_VariantArrayType \<lparr>pbv_ver = leaf_word x\<rparr>
      else Dt_VariantObjectType \<lparr>pbv_ver = leaf_word x\<rparr>)"
| "tree_dt (Node [Leaf k, x, y]) =
     (if k = ''timestamp'' then Dt_TimestampType \<lparr>pbt_ver = leaf_word x, pbt_precision = leaf_word y\<rparr>
      else Dt_IntervalType \<lparr>pbi_ver = leaf_word x, pbi_kind = leaf_word y\<rparr>)"
| "tree_dt _ = Dt_BoolType"
| "tree_nullable (Node [v]) = pb_NullableType (leaf_word v) None"
| "tree_nullable (Node (v # d # _)) = pb_NullableType (leaf_word v) (Some (tree_type d))"
| "tree_nullable _ = pb_NullableType 0 None"
| "tree_struct (Node [v, Node ns, Node ts]) = pb_Struct (leaf_word v) (map leaf_bytes ns) (map tree_type ts)"
| "tree_struct _ = pb_Struct 0 [] []"
| "tree_array (Node [v]) = pb_Array (leaf_word v) None"
| "tree_array (Node (v # d # _)) = pb_Array (leaf_word v) (Some (tree_type d))"
| "tree_array _ = pb_Array 0 None"

lemma type_round_trip [simp]:
  "tree_type (type_tree p) = p" "tree_dt (dt_tree d) = d" "tree_nullable (nullable_tree n) = n"
  "tree_struct (struct_tree s) = s" "tree_array (array_tree a) = a"
proof (induction p and d and n and s and a rule: type_tree_dt_tree_nullable_tree_struct_tree_array_tree.induct)
  case (24 v ns ts)
  then show ?case by (simp add: map_idI comp_def)
qed (auto simp: simple_dts_def split: option.splits)


definition field_tree :: "pb_DataField \<Rightarrow> msg_tree" where
  "field_tree f = Node [word_leaf (pbf_ver f), Leaf (pbf_name f), opt_tree Leaf (pbf_default_expr f),
     opt_tree type_tree (pbf_data_type f)]"

definition tree_field :: "msg_tree \<Rightarrow> pb_DataField" where
  "tree_field t = (let p = node_parts t in
     \<lparr>pbf_ver = leaf_word (p ! 0), pbf_name = leaf_bytes (p ! 1), pbf_default_expr = tree_opt leaf_bytes (p ! 2),
      pbf_data_type = tree_opt tree_type (p ! 3)\<rparr>)"

lemma field_round_trip [simp]: "tree_field (field_tree f) = f"
  by (simp add: tree_field_def field_tree_def Let_def opt_tree_round_trip)

definition schema_tree :: "pb_DataSchema \<Rightarrow> msg_tree" where
  "schema_tree s = Node [word_leaf (pbc_ver s), Node (map field_tree (pbc_fields s)), btree_tree (pbc_metadata s)]"

definition tree_schema :: "msg_tree \<Rightarrow> pb_DataSchema" where
  "tree_schema t = (let p = node_parts t in
     \<lparr>pbc_ver = leaf_word (p ! 0), pbc_fields = map tree_field (node_parts (p ! 1)),
      pbc_metadata = tree_btree (p ! 2)\<rparr>)"

lemma schema_round_trip [simp]: "tree_schema (schema_tree s) = s"
  by (simp add: tree_schema_def schema_tree_def Let_def comp_def)

definition table_tree :: "pb_TableMeta \<Rightarrow> msg_tree" where
  "table_tree m = Node [word_leaf (pbtm_ver m), opt_tree schema_tree (pbtm_schema m), Leaf (pbtm_engine m),
     btree_tree (pbtm_engine_options m), btree_tree (pbtm_options m), opt_tree Leaf (pbtm_order_keys m),
     Leaf (pbtm_created_on m), Leaf (pbtm_updated_on m), Leaf (pbtm_comment m)]"

definition tree_table :: "msg_tree \<Rightarrow> pb_TableMeta" where
  "tree_table t = (let p = node_parts t in
     \<lparr>pbtm_ver = leaf_word (p ! 0), pbtm_schema = tree_opt tree_schema (p ! 1), pbtm_engine = leaf_bytes (p ! 2),
      pbtm_engine_options = tree_btree (p ! 3), pbtm_options = tree_btree (p ! 4),
      pbtm_order_keys = tree_opt leaf_bytes (p ! 5), pbtm_created_on = leaf_bytes (p ! 6),
      pbtm_updated_on = leaf_bytes (p ! 7), pbtm_comment = leaf_bytes (p ! 8)\<rparr>)"

lemma table_round_trip [simp]: "tree_table (table_tree m) = m"
  by (simp add: tree_table_def table_tree_def Let_def opt_tree_round_trip)

definition database_tree :: "pb_DatabaseMeta \<Rightarrow> msg_tree" where
  "database_tree m = Node [word_leaf (pbdm_ver m), Leaf (pbdm_engine m), btree_tree (pbdm_engine_options m),
     btree_tree (pbdm_options m), Leaf (pbdm_created_on m), Leaf (pbdm_updated_on m), Leaf (pbdm_comment m)]"

definition tree_database :: "msg_tree \<Rightarrow> pb_DatabaseMeta" where
  "tree_database t = (let p = node_parts t in
     \<lparr>pbdm_ver = leaf_word (p ! 0), pbdm_engine = leaf_bytes (p ! 1), pbdm_engine_options = tree_btree (p ! 2),
      pbdm_options = tree_btree (p ! 3), pbdm_created_on = leaf_bytes (p ! 4), pbdm_updated_on = leaf_bytes (p ! 5),
      pbdm_comment = leaf_bytes (p ! 6)\<rparr>)"

lemma database_round_trip [simp]: "tree_database (database_tree m) = m"
  by (simp add: tree_database_def database_tree_def Let_def)


section \<open>The codec\<close>

definition demo_codec :: "string schema_codec" where
  "demo_codec = \<lparr>
     date_to_string = (\<lambda>t. t), date_from_str = Inr,
     id_to_vec = (\<lambda>i. Inr (tree_encode (word_leaf i))),
     id_from_slice = (\<lambda>b. try_res (tree_decode b) (\<lambda>t. Inr (leaf_word t))),
     db_msg_encode = (\<lambda>m. Inr (tree_encode (database_tree m))),
     db_msg_decode = (\<lambda>b. try_res (tree_decode b) (\<lambda>t. Inr (tree_database t))),
     tb_msg_encode = (\<lambda>m. Inr (tree_encode (table_tree m))),
     tb_msg_decode = (\<lambda>b. try_res (tree_decode b) (\<lambda>t. Inr (tree_table t))),
     err_from_str = (\<lambda>_. None)\<rparr>"

lemma demo_codec_laws: "codec_laws demo_codec"
  by (simp add: codec_laws_def chrono_laws_def demo_codec_def tree_round_trip)

definition demo_db :: DatabaseNameIdent where
  "demo_db = \<lparr>dn_tenant = ''t'', dn_db_name = ''d''\<rparr>"

definition demo_db_meta :: "string DatabaseMeta" where
  "demo_db_meta = \<lparr>dm_engine = ''e'', dm_engine_options = [], dm_options = [(''k'', ''v'')], dm_created_on = ''c'',
     dm_updated_on = ''u'', dm_comment = ''''\<rparr>"

definition demo_table :: TableNameIdent where
  "demo_table = \<lparr>tn_tenant = ''t'', tn_db_name = ''d'', tn_table_name = ''x''\<rparr>"

definition demo_schema :: DataSchema where
  "demo_schema = \<lparr>ds_fields = [\<lparr>df_name = ''a'', df_default_expr = None, df_data_type = Nullable (NullableType Int32)\<rparr>],
     ds_metadata = []\<rparr>"

definition demo_table_meta :: "string TableMeta" where
  "demo_table_meta = \<lparr>tm_schema = demo_schema, tm_engine = ''f'', tm_engine_options = [], tm_options = [],
     tm_order_keys = None, tm_created_on = ''c'', tm_updated_on = ''u'', tm_comment = ''''\<rparr>"

definition demo_create_db :: "string CreateDatabaseReq" where
  "demo_create_db = \<lparr>cd_if_not_exists = False, cd_name_ident = demo_db, cd_meta = demo_db_meta\<rparr>"

definition demo_create_table :: "string CreateTableReq" where
  "demo_create_table = \<lparr>ct_if_not_exists = False, ct_name_ident = demo_table, ct_table_meta = demo_table_meta\<rparr>"

end
