(* ===== verification/Schema_Catalog.thy ===== *)
theory Schema_Catalog
  imports Schema_Concurrency
begin

text \<open>
  What the operations of the schema layer do when nothing interferes: the specification is a
  catalogue of four maps, names to ids and ids to metas, for databases and for tables. Every
  operation returns in its first turn what the specification says, and leaves the records of
  the catalogue the specification leaves.
\<close>

section \<open>The catalogue\<close>

record 'dt catalog =
  c_dbs :: "DatabaseNameIdent \<Rightarrow> u64 option"
  c_db_meta :: "u64 \<Rightarrow> 'dt DatabaseMeta option"
  c_tables :: "DBIdTableName \<Rightarrow> u64 option"
  c_table_meta :: "u64 \<Rightarrow> 'dt TableMeta option"

definition res_opt :: "'e + 'a \<Rightarrow> 'a option" where
  "res_opt r = (case r of Inl _ \<Rightarrow> None | Inr a \<Rightarrow> Some a)"

lemma res_opt_simps [simp]: "res_opt (Inl e) = None" "res_opt (Inr a) = Some a" "res_opt r = Some a \<longleftrightarrow> r = Inr a"
  by (auto simp: res_opt_def split: sum.splits)

definition cat_of :: "'dt schema_codec \<Rightarrow> kv_data_map \<Rightarrow> 'dt catalog" where
  "cat_of C D = \<lparr>
     c_dbs = (\<lambda>n. Option.bind (D (DatabaseNameIdent_to_key n)) (\<lambda>b. res_opt (id_from_slice C b))),
     c_db_meta = (\<lambda>i. Option.bind (D (db_key i)) (\<lambda>b. res_opt (deserialize_db_meta C b))),
     c_tables = (\<lambda>n. Option.bind (D (DBIdTableName_to_key n)) (\<lambda>b. res_opt (id_from_slice C b))),
     c_table_meta = (\<lambda>i. Option.bind (D (table_key i)) (\<lambda>b. res_opt (deserialize_table_meta C b)))\<rparr>"

abbreviation sm_data :: "'mem state_machine \<Rightarrow> kv_data_map" where
  "sm_data sm \<equiv> view_data (ks_get (kvs sm))"

abbreviation catalog_of :: "'dt schema_codec \<Rightarrow> 'mem state_machine \<Rightarrow> 'dt catalog" where
  "catalog_of C sm \<equiv> cat_of C (sm_data sm)"

definition cat_create_database ::
  "'dt CreateDatabaseReq \<Rightarrow> u64 \<Rightarrow> 'dt catalog \<Rightarrow> (MetaError + u64) \<times> 'dt catalog" where
  "cat_create_database req i c =
     (let n = cd_name_ident req
      in case c_dbs c n of
           Some d \<Rightarrow> ((if cd_if_not_exists req then Inr d
                      else Inl (AppErr (DatabaseAlreadyExists (dn_db_name n) (''create db: tenant: '' @ dn_tenant n)))), c)
         | None \<Rightarrow> (Inr i, c\<lparr>c_dbs := (c_dbs c)(n \<mapsto> i), c_db_meta := (c_db_meta c)(i \<mapsto> cd_meta req)\<rparr>))"

definition unknown_db :: "DatabaseNameIdent \<Rightarrow> string \<Rightarrow> MetaError" where
  "unknown_db n msg = AppErr (UnknownDatabase (dn_db_name n) (msg @ '': '' @ DatabaseNameIdent_display n))"

definition cat_drop_database :: "DropDatabaseReq \<Rightarrow> 'dt catalog \<Rightarrow> (MetaError + unit) \<times> 'dt catalog" where
  "cat_drop_database req c =
     (let n = dd_name_ident req
      in case c_dbs c n of
           None \<Rightarrow> ((if dd_if_exists req then Inr ()
                     else Inl (unknown_db n (''drop_database: '' @ DatabaseNameIdent_display n))), c)
         | Some d \<Rightarrow> (Inr (), c\<lparr>c_dbs := (c_dbs c)(n := None), c_db_meta := (c_db_meta c)(d := None)\<rparr>))"

definition cat_rename_database :: "RenameDatabaseReq \<Rightarrow> 'dt catalog \<Rightarrow> (MetaError + unit) \<times> 'dt catalog" where
  "cat_rename_database req c =
     (let n = rd_name_ident req; n' = \<lparr>dn_tenant = dn_tenant n, dn_db_name = rd_new_db_name req\<rparr>
      in case c_dbs c n of
           None \<Rightarrow> ((if rd_if_exists req then Inr () else Inl (unknown_db n ''rename_database: src (db)'')), c)
         | Some d \<Rightarrow>
             (if c_dbs c n' \<noteq> None
              then (Inl (AppErr (DatabaseAlreadyExists (dn_db_name n') (''rename_database: '' @ DatabaseNameIdent_display n'))), c)
              else (Inr (), c\<lparr>c_dbs := (c_dbs c)(n := None, n' \<mapsto> d)\<rparr>)))"

definition cat_create_table ::
  "'dt CreateTableReq \<Rightarrow> u64 \<Rightarrow> 'dt catalog \<Rightarrow> (MetaError + u64) \<times> 'dt catalog" where
  "cat_create_table req i c =
     (let n = ct_name_ident req
      in case c_dbs c (db_name_ident n) of
           None \<Rightarrow> (Inl (unknown_db (db_name_ident n) ''create_table''), c)
         | Some d \<Rightarrow>
             (let k = \<lparr>dt_db_id = d, dt_table_name = tn_table_name n\<rparr>
              in case c_tables c k of
                   Some t \<Rightarrow> ((if ct_if_not_exists req then Inr t
                              else Inl (AppErr (TableAlreadyExists (tn_table_name n) (''create_table: '' @ TableNameIdent_display n)))), c)
                 | None \<Rightarrow>
                     (if \<not> schema_null_free (tm_schema (ct_table_meta req)) then (Inl (Panic ''todo''), c)
                      else (Inr i, c\<lparr>c_tables := (c_tables c)(k \<mapsto> i),
                                     c_table_meta := (c_table_meta c)(i \<mapsto> ct_table_meta req)\<rparr>))))"

definition cat_drop_table :: "DropTableReq \<Rightarrow> 'dt catalog \<Rightarrow> (MetaError + unit) \<times> 'dt catalog" where
  "cat_drop_table req c =
     (let n = dt_name_ident req
      in case c_dbs c (db_name_ident n) of
           None \<Rightarrow> (Inl (unknown_db (db_name_ident n) ''drop_table''), c)
         | Some d \<Rightarrow>
             (let k = \<lparr>dt_db_id = d, dt_table_name = tn_table_name n\<rparr>
              in case c_tables c k of
                   None \<Rightarrow> ((if dt_if_exists req then Inr ()
                             else Inl (AppErr (UnknownTable (tn_table_name n) (''drop_table: '' @ TableNameIdent_display n)))), c)
                 | Some t \<Rightarrow> (Inr (), c\<lparr>c_tables := (c_tables c)(k := None), c_table_meta := (c_table_meta c)(t := None)\<rparr>)))"

definition cat_rename_table :: "RenameTableReq \<Rightarrow> 'dt catalog \<Rightarrow> (MetaError + u64) \<times> 'dt catalog" where
  "cat_rename_table req c =
     (let n = rt_name_ident req;
          m = \<lparr>dn_tenant = tn_tenant n, dn_db_name = rt_new_db_name req\<rparr>;
          n' = \<lparr>tn_tenant = tn_tenant n, tn_db_name = rt_new_db_name req, tn_table_name = rt_new_table_name req\<rparr>
      in case c_dbs c (db_name_ident n) of
           None \<Rightarrow> (Inl (unknown_db (db_name_ident n) ''rename_table''), c)
         | Some d \<Rightarrow>
             (let k = \<lparr>dt_db_id = d, dt_table_name = tn_table_name n\<rparr>
              in case c_tables c k of
                   None \<Rightarrow> ((if rt_if_exists req then Inr 0
                             else Inl (AppErr (UnknownTable (tn_table_name n)
                                    (''rename_table: src (db,table)'' @ '': '' @ TableNameIdent_display n)))), c)
                 | Some t \<Rightarrow>
                     (case c_dbs c m of
                        None \<Rightarrow> (Inl (unknown_db m ''rename_table: new db''), c)
                      | Some d' \<Rightarrow>
                          (let k' = \<lparr>dt_db_id = d', dt_table_name = rt_new_table_name req\<rparr>
                           in if c_tables c k' \<noteq> None
                              then (Inl (AppErr (TableAlreadyExists (tn_table_name n')
                                     (''rename_table'' @ '': '' @ TableNameIdent_display n'))), c)
                              else (Inr t, c\<lparr>c_tables := (c_tables c)(k := None, k' \<mapsto> t)\<rparr>)))))"


section \<open>Records and the catalogue\<close>

lemma cat_of_upd:
  "cat_of C (D(DatabaseNameIdent_to_key n := x)) = (cat_of C D)\<lparr>c_dbs :=
     (c_dbs (cat_of C D))(n := Option.bind x (\<lambda>b. res_opt (id_from_slice C b)))\<rparr>"
  "cat_of C (D(db_key i := x)) = (cat_of C D)\<lparr>c_db_meta :=
     (c_db_meta (cat_of C D))(i := Option.bind x (\<lambda>b. res_opt (deserialize_db_meta C b)))\<rparr>"
  "cat_of C (D(DBIdTableName_to_key k := x)) = (cat_of C D)\<lparr>c_tables :=
     (c_tables (cat_of C D))(k := Option.bind x (\<lambda>b. res_opt (id_from_slice C b)))\<rparr>"
  "cat_of C (D(table_key t := x)) = (cat_of C D)\<lparr>c_table_meta :=
     (c_table_meta (cat_of C D))(t := Option.bind x (\<lambda>b. res_opt (deserialize_table_meta C b)))\<rparr>"
  "cat_of C (D(DatabaseIdGen_to_key := x)) = cat_of C D"
  "cat_of C (D(TableIdGen_to_key := x)) = cat_of C D"
  by (auto simp: cat_of_def fun_eq_iff)

text \<open>The state of a store no other client works on.\<close>

definition schema_ok :: "'dt schema_codec \<Rightarrow> 'mem state_machine \<Rightarrow> bool" where
  "schema_ok C sm \<longleftrightarrow> sm_ok sm \<and> schema_inv C (sm_data sm)"

lemma schema_okD: "schema_ok C sm \<Longrightarrow> sm_ok sm"
  by (simp add: schema_ok_def)

lemma seq_not_zero: "schema_ok C sm \<Longrightarrow> ks_get (kvs sm) k = Some v \<Longrightarrow> sv_seq v \<noteq> 0"
  using sm_seqs_positive[OF schema_okD] by (auto simp: seqs_positive_def)

lemma db_record:
  assumes "schema_ok C sm" and "ks_get (kvs sm) (DatabaseNameIdent_to_key n) = Some v"
  shows "\<exists>d w m. id_from_slice C (sv_data v) = Inr d \<and> ks_get (kvs sm) (db_key d) = Some w
           \<and> deserialize_db_meta C (sv_data w) = Inr m"
proof -
  have L: "linked DatabaseNameIdent_to_key db_key (id_from_slice C) (\<lambda>b. is_ok (deserialize_db_meta C b)) (sm_data sm)"
    using assms(1) by (simp add: schema_ok_def schema_inv_def)
  obtain d mb where d: "id_from_slice C (sv_data v) = Inr d" "sm_data sm (db_key d) = Some mb"
    using db_links.linkedD(1)[OF L view_data_Some[of "ks_get (kvs sm)", OF assms(2)]] by blast
  then obtain w where "ks_get (kvs sm) (db_key d) = Some w" "sv_data w = mb" by (auto simp: view_data_def)
  moreover have "is_ok (deserialize_db_meta C mb)" by (rule db_links.linkedD(3)[OF L d(2)])
  ultimately show ?thesis using d(1) by (cases "deserialize_db_meta C mb") (auto simp: is_ok_def)
qed

lemma table_record:
  assumes "schema_ok C sm" and "ks_get (kvs sm) (DBIdTableName_to_key k) = Some v"
  shows "\<exists>t u m. id_from_slice C (sv_data v) = Inr t \<and> ks_get (kvs sm) (table_key t) = Some u
           \<and> deserialize_table_meta C (sv_data u) = Inr m"
proof -
  have L: "linked DBIdTableName_to_key table_key (id_from_slice C) (\<lambda>b. is_ok (deserialize_table_meta C b)) (sm_data sm)"
    using assms(1) by (simp add: schema_ok_def schema_inv_def)
  obtain t mb where t: "id_from_slice C (sv_data v) = Inr t" "sm_data sm (table_key t) = Some mb"
    using table_links.linkedD(1)[OF L view_data_Some[of "ks_get (kvs sm)", OF assms(2)]] by blast
  then obtain u where "ks_get (kvs sm) (table_key t) = Some u" "sv_data u = mb" by (auto simp: view_data_def)
  moreover have "is_ok (deserialize_table_meta C mb)" by (rule table_links.linkedD(3)[OF L t(2)])
  ultimately show ?thesis using t(1) by (cases "deserialize_table_meta C mb") (auto simp: is_ok_def)
qed

text \<open>What the catalogue says of a name, in terms of records.\<close>

lemma cat_db_None:
  assumes "schema_ok C sm"
  shows "c_dbs (catalog_of C sm) n = None \<longleftrightarrow> ks_get (kvs sm) (DatabaseNameIdent_to_key n) = None"
proof (cases "ks_get (kvs sm) (DatabaseNameIdent_to_key n)")
  case (Some v)
  with db_record[OF assms Some] show ?thesis by (auto simp: cat_of_def view_data_def)
qed (simp add: cat_of_def view_data_def)

lemma cat_table_None:
  assumes "schema_ok C sm"
  shows "c_tables (catalog_of C sm) k = None \<longleftrightarrow> ks_get (kvs sm) (DBIdTableName_to_key k) = None"
proof (cases "ks_get (kvs sm) (DBIdTableName_to_key k)")
  case (Some v)
  with table_record[OF assms Some] show ?thesis by (auto simp: cat_of_def view_data_def)
qed (simp add: cat_of_def view_data_def)

lemma cat_db_Some:
  assumes "schema_ok C sm" and "c_dbs (catalog_of C sm) n = Some d"
  obtains v w m where "ks_get (kvs sm) (DatabaseNameIdent_to_key n) = Some v" "id_from_slice C (sv_data v) = Inr d"
    "ks_get (kvs sm) (db_key d) = Some w" "deserialize_db_meta C (sv_data w) = Inr m"
    "sv_seq v \<noteq> 0" "sv_seq w \<noteq> 0" "c_db_meta (catalog_of C sm) d = Some m"
proof -
  obtain v where v: "ks_get (kvs sm) (DatabaseNameIdent_to_key n) = Some v" "id_from_slice C (sv_data v) = Inr d"
    using assms(2) by (auto simp: cat_of_def view_data_def bind_eq_Some_conv)
  then obtain w m where w: "ks_get (kvs sm) (db_key d) = Some w" "deserialize_db_meta C (sv_data w) = Inr m"
    using db_record[OF assms(1) v(1)] by auto
  show thesis
    using that[OF v w seq_not_zero[OF assms(1) v(1)] seq_not_zero[OF assms(1) w(1)]] w
    by (simp add: cat_of_def view_data_def)
qed

lemma cat_table_Some:
  assumes "schema_ok C sm" and "c_tables (catalog_of C sm) k = Some t"
  obtains v u m where "ks_get (kvs sm) (DBIdTableName_to_key k) = Some v" "id_from_slice C (sv_data v) = Inr t"
    "ks_get (kvs sm) (table_key t) = Some u" "deserialize_table_meta C (sv_data u) = Inr m"
    "sv_seq v \<noteq> 0" "sv_seq u \<noteq> 0" "c_table_meta (catalog_of C sm) t = Some m"
proof -
  obtain v where v: "ks_get (kvs sm) (DBIdTableName_to_key k) = Some v" "id_from_slice C (sv_data v) = Inr t"
    using assms(2) by (auto simp: cat_of_def view_data_def bind_eq_Some_conv)
  then obtain u m where u: "ks_get (kvs sm) (table_key t) = Some u" "deserialize_table_meta C (sv_data u) = Inr m"
    using table_record[OF assms(1) v(1)] by auto
  show thesis
    using that[OF v u seq_not_zero[OF assms(1) v(1)] seq_not_zero[OF assms(1) u(1)]] u
    by (simp add: cat_of_def view_data_def)
qed


section \<open>Reads\<close>

lemma get_id_value_None:
  "sm_ok sm \<Longrightarrow> ks_get (kvs sm) k = None \<Longrightarrow> get_id_value (sm_kv_api now) C k sm = (Inr (0, 0), sm)"
  by (simp add: get_id_value_def sm_api.get_kv)

lemma get_id_value_Some:
  "sm_ok sm \<Longrightarrow> ks_get (kvs sm) k = Some v \<Longrightarrow> id_from_slice C (sv_data v) = Inr i \<Longrightarrow>
     get_id_value (sm_kv_api now) C k sm = (Inr (sv_seq v, i), sm)"
  by (simp add: get_id_value_def sm_api.get_kv deserialize_id_def)

lemma get_db_value_Some:
  "sm_ok sm \<Longrightarrow> ks_get (kvs sm) (db_key d) = Some w \<Longrightarrow> deserialize_db_meta C (sv_data w) = Inr m \<Longrightarrow>
     get_db_value (sm_kv_api now) C \<lparr>db_id = d\<rparr> sm = (Inr (sv_seq w, Some m), sm)"
  by (simp add: get_db_value_def sm_api.get_kv)

lemma get_table_value_Some:
  "sm_ok sm \<Longrightarrow> ks_get (kvs sm) (table_key t) = Some u \<Longrightarrow> deserialize_table_meta C (sv_data u) = Inr m \<Longrightarrow>
     get_table_value (sm_kv_api now) C \<lparr>table_id = t\<rparr> sm = (Inr (sv_seq u, Some m), sm)"
  by (simp add: get_table_value_def sm_api.get_kv)

lemma get_table_value_None:
  "sm_ok sm \<Longrightarrow> ks_get (kvs sm) (table_key t) = None \<Longrightarrow>
     get_table_value (sm_kv_api now) C \<lparr>table_id = t\<rparr> sm = (Inr (0, None), sm)"
  by (simp add: get_table_value_def sm_api.get_kv)

lemma get_db_or_err_None:
  "sm_ok sm \<Longrightarrow> ks_get (kvs sm) (DatabaseNameIdent_to_key n) = None \<Longrightarrow>
     get_db_or_err (sm_kv_api now) C n msg sm = (Inl (unknown_db n msg), sm)"
  by (simp add: get_db_or_err_def get_id_value_None db_has_to_exist_def unknown_db_def)

lemma get_db_or_err_Some:
  "sm_ok sm \<Longrightarrow> ks_get (kvs sm) (DatabaseNameIdent_to_key n) = Some v \<Longrightarrow> id_from_slice C (sv_data v) = Inr d \<Longrightarrow>
   ks_get (kvs sm) (db_key d) = Some w \<Longrightarrow> deserialize_db_meta C (sv_data w) = Inr m \<Longrightarrow>
   sv_seq v \<noteq> 0 \<Longrightarrow> sv_seq w \<noteq> 0 \<Longrightarrow>
     get_db_or_err (sm_kv_api now) C n msg sm = (Inr (sv_seq v, d, sv_seq w, m), sm)"
  by (simp add: get_db_or_err_def get_id_value_Some get_db_value_Some db_has_to_exist_def)

lemmas schema_reads = get_id_value_None get_id_value_Some get_db_value_Some get_table_value_Some get_table_value_None
  get_db_or_err_None get_db_or_err_Some



text \<open>A database and a table as the records and the catalogue have them.\<close>

definition db_at ::
  "'dt schema_codec \<Rightarrow> 'mem state_machine \<Rightarrow> DatabaseNameIdent \<Rightarrow> u64 \<Rightarrow> bytes SeqV \<Rightarrow> bytes SeqV \<Rightarrow> 'dt DatabaseMeta \<Rightarrow> bool" where
  "db_at C sm n d v w m \<longleftrightarrow>
     ks_get (kvs sm) (DatabaseNameIdent_to_key n) = Some v \<and> id_from_slice C (sv_data v) = Inr d
   \<and> ks_get (kvs sm) (db_key d) = Some w \<and> deserialize_db_meta C (sv_data w) = Inr m
   \<and> sv_seq v \<noteq> 0 \<and> sv_seq w \<noteq> 0 \<and> c_dbs (catalog_of C sm) n = Some d \<and> c_db_meta (catalog_of C sm) d = Some m"

definition table_at ::
  "'dt schema_codec \<Rightarrow> 'mem state_machine \<Rightarrow> DBIdTableName \<Rightarrow> u64 \<Rightarrow> bytes SeqV \<Rightarrow> bytes SeqV \<Rightarrow> 'dt TableMeta \<Rightarrow> bool" where
  "table_at C sm k t x u m \<longleftrightarrow>
     ks_get (kvs sm) (DBIdTableName_to_key k) = Some x \<and> id_from_slice C (sv_data x) = Inr t
   \<and> ks_get (kvs sm) (table_key t) = Some u \<and> deserialize_table_meta C (sv_data u) = Inr m
   \<and> sv_seq x \<noteq> 0 \<and> sv_seq u \<noteq> 0 \<and> c_tables (catalog_of C sm) k = Some t \<and> c_table_meta (catalog_of C sm) t = Some m"

lemma db_cases:
  assumes "schema_ok C sm"
  obtains (no_db) "ks_get (kvs sm) (DatabaseNameIdent_to_key n) = None" "c_dbs (catalog_of C sm) n = None"
  | (db) d v w m where "db_at C sm n d v w m"
proof (cases "c_dbs (catalog_of C sm) n")
  case None
  then show ?thesis using no_db cat_db_None[OF assms, of n] by simp
next
  case (Some d)
  show ?thesis by (rule cat_db_Some[OF assms Some], rule db, simp add: db_at_def Some)
qed

lemma table_cases:
  assumes "schema_ok C sm"
  obtains (no_table) "ks_get (kvs sm) (DBIdTableName_to_key k) = None" "c_tables (catalog_of C sm) k = None"
  | (table) t x u m where "table_at C sm k t x u m"
proof (cases "c_tables (catalog_of C sm) k")
  case None
  then show ?thesis using no_table cat_table_None[OF assms, of k] by simp
next
  case (Some t)
  show ?thesis by (rule cat_table_Some[OF assms Some], rule table, simp add: table_at_def Some)
qed

lemma db_at_read:
  assumes "sm_ok sm" and "db_at C sm n d v w m"
  shows "get_id_value (sm_kv_api now) C (DatabaseNameIdent_to_key n) sm = (Inr (sv_seq v, d), sm)"
    and "get_db_or_err (sm_kv_api now) C n msg sm = (Inr (sv_seq v, d, sv_seq w, m), sm)"
    and "c_dbs (catalog_of C sm) n = Some d" and "c_db_meta (catalog_of C sm) d = Some m"
    and "cond_spec (ks_get (kvs sm)) (txn_cond_seq (DatabaseNameIdent_to_key n) CEq (sv_seq v))"
    and "cond_spec (ks_get (kvs sm)) (txn_cond_seq (db_key d) CEq (sv_seq w))"
    and "sv_seq v \<noteq> 0" and "sv_seq w \<noteq> 0"
  using assms by (auto simp: db_at_def schema_reads cond_seq_pos)

lemma table_at_read:
  assumes "sm_ok sm" and "table_at C sm k t x u m"
  shows "get_id_value (sm_kv_api now) C (DBIdTableName_to_key k) sm = (Inr (sv_seq x, t), sm)"
    and "get_table_value (sm_kv_api now) C \<lparr>table_id = t\<rparr> sm = (Inr (sv_seq u, Some m), sm)"
    and "c_tables (catalog_of C sm) k = Some t" and "c_table_meta (catalog_of C sm) t = Some m"
    and "cond_spec (ks_get (kvs sm)) (txn_cond_seq (DBIdTableName_to_key k) CEq (sv_seq x))"
    and "cond_spec (ks_get (kvs sm)) (txn_cond_seq (table_key t) CEq (sv_seq u))"
    and "sv_seq x \<noteq> 0" and "sv_seq u \<noteq> 0"
  using assms by (auto simp: table_at_def schema_reads cond_seq_pos)

lemma db_at_same: "db_at C sm n d v w m \<Longrightarrow>
    ks_get (kvs sm') (DatabaseNameIdent_to_key n) = ks_get (kvs sm) (DatabaseNameIdent_to_key n) \<Longrightarrow>
    ks_get (kvs sm') (db_key d) = ks_get (kvs sm) (db_key d) \<Longrightarrow> db_at C sm' n d v w m"
  by (simp add: db_at_def cat_of_def view_data_def)


section \<open>Operations that nothing interferes with\<close>

lemma send_txn_alone:
  assumes "sm_ok sm" and "unat (kv_counter sm) + 4 < 2 ^ 64" and "length (txn_if_then T) \<le> 4"
    and "list_all (cond_spec (ks_get (kvs sm))) (txn_condition T)"
  obtains resp sm' where "send_txn (sm_kv_api now) C T sm = (Inr (True, resp), sm')" and "sm_ok sm'"
    and "sm_data sm' = fold txn_op_spec (txn_if_then T) (sm_data sm)"
    and "\<And>k. Some k \<notin> op_writes ` set (txn_if_then T) \<Longrightarrow> ks_get (kvs sm') k = ks_get (kvs sm) k"
    and "\<And>k v. Some k \<in> op_writes ` set (txn_if_then T) \<Longrightarrow> ks_get (kvs sm') k = Some v \<Longrightarrow> kv_counter sm < sv_seq v"
proof -
  have ops: "txn_ops_run T (ks_get (kvs sm)) = txn_if_then T" using assms(4) by (simp add: txn_ops_run_def)
  then have room: "unat (kv_counter sm) + length (txn_ops_run T (ks_get (kvs sm))) < 2 ^ 64"
    using assms(2,3) by simp
  obtain succ resp sm' where s: "send_txn (sm_kv_api now) C T sm = (Inr (succ, resp), sm')"
    using send_txn_returns[OF assms(1) room] by blast
  note S = send_txn_sm[OF assms(1) room s, unfolded ops]
  have succ using S(2) assms(4) by simp
  then show thesis using s by (intro that[OF _ S(1,3,7,8)]) simp_all
qed

lemma fetch_id_alone:
  assumes "sm_ok sm" and "unat (kv_counter sm) + 8 < 2 ^ 64"
  obtains sm' where "fetch_id (sm_kv_api now) g sm = (Inr (kv_counter sm + 1), sm')" and "sm_ok sm'"
    and "ks_get (kvs sm') = (ks_get (kvs sm))(g \<mapsto> SeqV_new (kv_counter sm + 1) '''')"
    and "unat (kv_counter sm') + 4 < 2 ^ 64"
proof -
  have nm: "kv_counter sm \<noteq> - 1" using assms(2) by (simp add: u64_not_max_iff)
  obtain sm' where f: "fetch_id (sm_kv_api now) g sm = (Inr (kv_counter sm + 1), sm')"
    using fetch_id_returns[OF assms(1) nm] by blast
  note F = fetch_id_sm[OF assms(1) nm f]
  show thesis
    using that[OF f F(1,4)] F(3) unat_u64_plus_one[OF nm] assms(2) by simp
qed

lemma sm_data_gen: "ks_get (kvs sm') = (ks_get (kvs sm))(g \<mapsto> v) \<Longrightarrow> sm_data sm' = (sm_data sm)(g \<mapsto> sv_data v)"
  by (simp add: view_data_def fun_eq_iff)

lemma cond_seq_current: "m k = Some v \<Longrightarrow> sv_seq v \<noteq> 0 \<Longrightarrow> cond_spec m (txn_cond_seq k CEq (sv_seq v))"
  by (simp add: cond_seq_pos)

lemma cond_seq_free: "sm_ok sm \<Longrightarrow> ks_get (kvs sm) k = None \<Longrightarrow> cond_spec (ks_get (kvs sm)) (txn_cond_seq k CEq 0)"
  by (simp add: cond_seq_zero[OF sm_seqs_positive])

lemma retry_Suc_done: "body s = (Inr (Some a), t) \<Longrightarrow> retry (Suc n) body s = (Some (Inr a), t)"
  by simp

lemma create_database_alone:
  assumes "codec_laws C" and "schema_ok C sm" and "unat (kv_counter sm) + 8 < 2 ^ 64"
  shows "\<exists>sm'. create_database (Suc f) (sm_kv_api now) C req sm
              = (Some (fst (cat_create_database req (kv_counter sm + 1) (catalog_of C sm))), sm')
           \<and> catalog_of C sm' = snd (cat_create_database req (kv_counter sm + 1) (catalog_of C sm))"
proof -
  let ?n = "cd_name_ident req" and ?i = "kv_counter sm + 1"
  note ok = schema_okD[OF assms(2)]
  show ?thesis
  proof (cases "c_dbs (catalog_of C sm) ?n")
    case (Some d)
    obtain v where "ks_get (kvs sm) (DatabaseNameIdent_to_key ?n) = Some v" "id_from_slice C (sv_data v) = Inr d" "sv_seq v \<noteq> 0"
      by (rule cat_db_Some[OF assms(2) Some])
    with Some ok show ?thesis
      by (simp add: create_database_def create_database_step_def get_id_value_Some cat_create_database_def Let_def
          word_neq_0_conv[symmetric])
  next
    case None
    then have free: "ks_get (kvs sm) (DatabaseNameIdent_to_key ?n) = None" using cat_db_None[OF assms(2)] by blast
    obtain sm1 where f: "fetch_id (sm_kv_api now) DatabaseIdGen_to_key sm = (Inr ?i, sm1)" and ok1: "sm_ok sm1"
        and m1: "ks_get (kvs sm1) = (ks_get (kvs sm))(DatabaseIdGen_to_key \<mapsto> SeqV_new ?i '''')"
        and room: "unat (kv_counter sm1) + 4 < 2 ^ 64"
      by (rule fetch_id_alone[OF ok assms(3)], rule that)
    obtain idv mv where e: "serialize_id C ?i = Inr idv" "id_from_slice C idv = Inr ?i"
        "serialize_db_meta C (cd_meta req) = Inr mv" "deserialize_db_meta C mv = Inr (cd_meta req)"
      using serialize_id_total[OF assms(1)] serialize_db_total[OF assms(1)] by metis
    let ?T = "\<lparr>txn_condition = [txn_cond_seq (DatabaseNameIdent_to_key ?n) CEq 0],
          txn_if_then = [txn_op_put (DatabaseNameIdent_to_key ?n) idv, txn_op_put (db_key ?i) mv], txn_else_then = []\<rparr>"
    have T: "create_database_txn C ?n ?i (cd_meta req) = Inr ?T" by (simp add: create_database_txn_def e)
    have c: "list_all (cond_spec (ks_get (kvs sm1))) (txn_condition ?T)"
      using cond_seq_free[OF ok1] by (simp add: m1 free)
    obtain resp sm2 where s: "send_txn (sm_kv_api now) C ?T sm1 = (Inr (True, resp), sm2)"
        and d: "sm_data sm2 = fold txn_op_spec (txn_if_then ?T) (sm_data sm1)"
      by (rule send_txn_alone[OF ok1 room _ c, of now C]) simp_all
    have "create_database (Suc f) (sm_kv_api now) C req sm = (Some (Inr ?i), sm2)"
      using s by (simp add: create_database_def create_database_step_def get_id_value_None[OF ok free] f T Let_def)
    moreover have "catalog_of C sm2 = snd (cat_create_database req ?i (catalog_of C sm))"
      using None unfolding d sm_data_gen[OF m1]
      by (simp add: txn_ops_simps cat_of_upd e cat_create_database_def Let_def)
    ultimately show ?thesis using None by (simp add: cat_create_database_def Let_def)
  qed
qed


lemma drop_database_alone:
  assumes "schema_ok C sm" and "unat (kv_counter sm) + 8 < 2 ^ 64"
  shows "\<exists>sm'. drop_database (Suc f) (sm_kv_api now) C req sm
              = (Some (fst (cat_drop_database req (catalog_of C sm))), sm')
           \<and> catalog_of C sm' = snd (cat_drop_database req (catalog_of C sm))"
proof -
  let ?n = "dd_name_ident req"
  note ok = schema_okD[OF assms(1)]
  have room: "unat (kv_counter sm) + 4 < 2 ^ 64" using assms(2) by simp
  show ?thesis
  proof (cases "c_dbs (catalog_of C sm) ?n")
    case None
    then have "ks_get (kvs sm) (DatabaseNameIdent_to_key ?n) = None" using cat_db_None[OF assms(1)] by blast
    with None ok show ?thesis
      by (simp add: drop_database_def drop_database_step_def get_db_or_err_None cat_drop_database_def unknown_db_def Let_def)
  next
    case (Some d)
    obtain v w m where v: "ks_get (kvs sm) (DatabaseNameIdent_to_key ?n) = Some v" "id_from_slice C (sv_data v) = Inr d"
        "ks_get (kvs sm) (db_key d) = Some w" "deserialize_db_meta C (sv_data w) = Inr m" "sv_seq v \<noteq> 0" "sv_seq w \<noteq> 0"
      by (rule cat_db_Some[OF assms(1) Some])
    let ?T = "drop_database_txn ?n (sv_seq v) d (sv_seq w)"
    have c: "list_all (cond_spec (ks_get (kvs sm))) (txn_condition ?T)"
      by (simp add: drop_database_txn_def cond_seq_current v)
    obtain resp sm2 where s: "send_txn (sm_kv_api now) C ?T sm = (Inr (True, resp), sm2)"
        and D: "sm_data sm2 = fold txn_op_spec (txn_if_then ?T) (sm_data sm)"
      by (rule send_txn_alone[OF ok room _ c, of now C]) (simp_all add: drop_database_txn_def)
    have "drop_database (Suc f) (sm_kv_api now) C req sm = (Some (Inr ()), sm2)"
      using s by (simp add: drop_database_def drop_database_step_def get_db_or_err_Some[OF ok v] Let_def)
    moreover have "catalog_of C sm2 = snd (cat_drop_database req (catalog_of C sm))"
      unfolding D by (simp add: drop_database_txn_def txn_ops_simps cat_of_upd cat_drop_database_def Some Let_def)
    ultimately show ?thesis using Some by (simp add: cat_drop_database_def Let_def)
  qed
qed

lemma rename_database_alone:
  assumes "codec_laws C" and "schema_ok C sm" and "unat (kv_counter sm) + 8 < 2 ^ 64"
  shows "\<exists>sm'. rename_database (Suc f) (sm_kv_api now) C req sm
              = (Some (fst (cat_rename_database req (catalog_of C sm))), sm')
           \<and> catalog_of C sm' = snd (cat_rename_database req (catalog_of C sm))
           \<and> (\<forall>d. ks_get (kvs sm') (db_key d) = ks_get (kvs sm) (db_key d))"
proof -
  let ?n = "rd_name_ident req"
  let ?n' = "\<lparr>dn_tenant = dn_tenant ?n, dn_db_name = rd_new_db_name req\<rparr>"
  note ok = schema_okD[OF assms(2)]
  have room: "unat (kv_counter sm) + 4 < 2 ^ 64" using assms(3) by simp
  show ?thesis
  proof (cases "c_dbs (catalog_of C sm) ?n")
    case None
    then have "ks_get (kvs sm) (DatabaseNameIdent_to_key ?n) = None" using cat_db_None[OF assms(2)] by blast
    with None ok show ?thesis
      by (simp add: rename_database_def rename_database_step_def get_id_value_None cat_rename_database_def
          db_has_to_exist_def unknown_db_def Let_def)
  next
    case (Some d)
    obtain v where v: "ks_get (kvs sm) (DatabaseNameIdent_to_key ?n) = Some v" "id_from_slice C (sv_data v) = Inr d"
        "sv_seq v \<noteq> 0"
      by (rule cat_db_Some[OF assms(2) Some])
    show ?thesis
    proof (cases "c_dbs (catalog_of C sm) ?n'")
      case (Some d')
      obtain v' where v': "ks_get (kvs sm) (DatabaseNameIdent_to_key ?n') = Some v'" "id_from_slice C (sv_data v') = Inr d'"
          "sv_seq v' \<noteq> 0"
        by (rule cat_db_Some[OF assms(2) Some])
      from \<open>c_dbs (catalog_of C sm) ?n = Some d\<close> Some show ?thesis
        by (simp add: rename_database_def rename_database_step_def get_id_value_Some[OF ok v(1,2)]
            get_id_value_Some[OF ok v'(1,2)] v v' cat_rename_database_def db_has_to_exist_def db_has_to_not_exist_def Let_def)
    next
      case None
      then have free: "ks_get (kvs sm) (DatabaseNameIdent_to_key ?n') = None" using cat_db_None[OF assms(2)] by blast
      obtain idv where e: "serialize_id C d = Inr idv" "id_from_slice C idv = Inr d"
        using serialize_id_total[OF assms(1)] by metis
      let ?T = "\<lparr>txn_condition = [txn_cond_seq (DatabaseNameIdent_to_key ?n) CEq (sv_seq v),
            txn_cond_seq (DatabaseNameIdent_to_key ?n') CEq 0],
          txn_if_then = [txn_op_del (DatabaseNameIdent_to_key ?n), txn_op_put (DatabaseNameIdent_to_key ?n') idv],
          txn_else_then = []\<rparr>"
      have T: "rename_database_txn C ?n ?n' (sv_seq v) d = Inr ?T" by (simp add: rename_database_txn_def e)
      have c: "list_all (cond_spec (ks_get (kvs sm))) (txn_condition ?T)"
        using cond_seq_free[OF ok free] by (simp add: cond_seq_current v)
      obtain resp sm2 where s: "send_txn (sm_kv_api now) C ?T sm = (Inr (True, resp), sm2)"
          and D: "sm_data sm2 = fold txn_op_spec (txn_if_then ?T) (sm_data sm)"
          and F: "\<And>k. Some k \<notin> op_writes ` set (txn_if_then ?T) \<Longrightarrow> ks_get (kvs sm2) k = ks_get (kvs sm) k"
        by (rule send_txn_alone[OF ok room _ c, of now C]) simp_all
      have "rename_database (Suc f) (sm_kv_api now) C req sm = (Some (Inr ()), sm2)"
        using s v free by (simp add: rename_database_def rename_database_step_def get_id_value_Some[OF ok v(1,2)]
            get_id_value_None[OF ok free] T db_has_to_exist_def db_has_to_not_exist_def Let_def)
      moreover have "catalog_of C sm2 = snd (cat_rename_database req (catalog_of C sm))"
        unfolding D using None
        by (simp add: txn_ops_simps cat_of_upd cat_rename_database_def Some e Let_def)
      moreover have "ks_get (kvs sm2) (db_key j) = ks_get (kvs sm) (db_key j)" for j
        using F[of "db_key j"] by (simp add: txn_ops_simps)
      ultimately show ?thesis using Some None by (simp add: cat_rename_database_def Let_def)
    qed
  qed
qed


text \<open>
  \<open>create_table\<close> on a free name: the id is fetched first, so it is used up even if the meta
  cannot be serialized.
\<close>

lemma create_table_free:
  assumes "codec_laws C" and ok: "sm_ok sm" and "unat (kv_counter sm) + 8 < 2 ^ 64"
    and k: "k = \<lparr>dt_db_id = d, dt_table_name = tn_table_name (ct_name_ident req)\<rparr>"
    and db: "db_at C sm (db_name_ident (ct_name_ident req)) d v w m"
    and free: "ks_get (kvs sm) (DBIdTableName_to_key k) = None"
  shows "\<exists>sm'. create_table_step (sm_kv_api now) C req sm =
      ((if schema_null_free (tm_schema (ct_table_meta req)) then Inr (Some (kv_counter sm + 1)) else Inl (Panic ''todo'')), sm')
    \<and> catalog_of C sm' = (if schema_null_free (tm_schema (ct_table_meta req)) then (catalog_of C sm)\<lparr>
        c_tables := (c_tables (catalog_of C sm))(k \<mapsto> kv_counter sm + 1),
        c_table_meta := (c_table_meta (catalog_of C sm))(kv_counter sm + 1 \<mapsto> ct_table_meta req)\<rparr> else catalog_of C sm)"
proof -
  let ?i = "kv_counter sm + 1" and ?m = "ct_table_meta req"
  note r = db_at_read[OF ok db] get_id_value_None[OF ok free, where C = C]
  obtain sm1 where f: "fetch_id (sm_kv_api now) TableIdGen_to_key sm = (Inr ?i, sm1)" and ok1: "sm_ok sm1"
      and m1: "ks_get (kvs sm1) = (ks_get (kvs sm))(TableIdGen_to_key \<mapsto> SeqV_new ?i '''')"
      and room: "unat (kv_counter sm1) + 4 < 2 ^ 64"
    by (rule fetch_id_alone[OF ok assms(3)], rule that)
  obtain dv idv where e: "serialize_db_meta C m = Inr dv" "deserialize_db_meta C dv = Inr m"
      "serialize_id C ?i = Inr idv" "id_from_slice C idv = Inr ?i"
    using serialize_id_total[OF assms(1)] serialize_db_total[OF assms(1)] by metis
  show ?thesis
  proof (cases "schema_null_free (tm_schema ?m)")
    case False
    have "create_table_step (sm_kv_api now) C req sm = (Inl (Panic ''todo''), sm1)"
      using r[unfolded k] by (simp add: create_table_step_def f create_table_txn_def e serialize_table_panics[OF False] Let_def)
    with False show ?thesis by (simp add: sm_data_gen[OF m1] cat_of_upd)
  next
    case True
    obtain tv where tv: "serialize_table_meta C ?m = Inr tv" "deserialize_table_meta C tv = Inr ?m"
      using serialize_table_total[OF assms(1) True] by blast
    let ?T = "\<lparr>txn_condition = [txn_cond_seq (db_key d) CEq (sv_seq w), txn_cond_seq (DBIdTableName_to_key k) CEq 0],
        txn_if_then = [txn_op_put (db_key d) dv, txn_op_put (DBIdTableName_to_key k) idv, txn_op_put (table_key ?i) tv],
        txn_else_then = []\<rparr>"
    have T: "create_table_txn C d (sv_seq w) m k ?i ?m = Inr ?T" by (simp add: create_table_txn_def e tv)
    have "db_at C sm1 (db_name_ident (ct_name_ident req)) d v w m" by (rule db_at_same[OF db]) (simp_all add: m1)
    then have c: "list_all (cond_spec (ks_get (kvs sm1))) (txn_condition ?T)"
      using cond_seq_free[OF ok1, of "DBIdTableName_to_key k"] db_at_read(6)[OF ok1] by (simp add: m1 free)
    obtain resp sm2 where s: "send_txn (sm_kv_api now) C ?T sm1 = (Inr (True, resp), sm2)"
        and D: "sm_data sm2 = fold txn_op_spec (txn_if_then ?T) (sm_data sm1)"
      by (rule send_txn_alone[OF ok1 room _ c, of now C]) simp_all
    have "create_table_step (sm_kv_api now) C req sm = (Inr (Some ?i), sm2)"
      using s r[unfolded k] T[unfolded k] by (simp add: create_table_step_def f k Let_def)
    moreover have "catalog_of C sm2 = (catalog_of C sm)\<lparr>c_tables := (c_tables (catalog_of C sm))(k \<mapsto> ?i),
        c_table_meta := (c_table_meta (catalog_of C sm))(?i \<mapsto> ?m)\<rparr>"
      unfolding D sm_data_gen[OF m1] using r(4) by (simp add: txn_ops_simps cat_of_upd e tv fun_upd_idem)
    ultimately show ?thesis using True by simp
  qed
qed

lemma create_table_alone:
  assumes "codec_laws C" and "schema_ok C sm" and "unat (kv_counter sm) + 8 < 2 ^ 64"
  shows "\<exists>sm'. create_table (Suc f) (sm_kv_api now) C req sm
              = (Some (fst (cat_create_table req (kv_counter sm + 1) (catalog_of C sm))), sm')
           \<and> catalog_of C sm' = snd (cat_create_table req (kv_counter sm + 1) (catalog_of C sm))"
proof -
  note ok = schema_okD[OF assms(2)]
  show ?thesis
  proof (cases rule: db_cases[OF assms(2), of "db_name_ident (ct_name_ident req)", case_names no_db db])
    case no_db
    with ok show ?thesis
      by (simp add: create_table_def create_table_step_def get_db_or_err_None cat_create_table_def Let_def)
  next
    case (db d v w m)
    note r = db_at_read[OF ok db]
    let ?k = "\<lparr>dt_db_id = d, dt_table_name = tn_table_name (ct_name_ident req)\<rparr>"
    show ?thesis
    proof (cases rule: table_cases[OF assms(2), of ?k, case_names no_table table])
      case no_table
      with create_table_free[OF assms(1) ok assms(3) refl db no_table(1), of now] r(3) show ?thesis
        by (auto simp: create_table_def cat_create_table_def Let_def)
    next
      case (table t x u tm)
      with r table_at_read[OF ok table] show ?thesis
        by (simp add: create_table_def create_table_step_def cat_create_table_def Let_def word_neq_0_conv[symmetric])
    qed
  qed
qed

lemma drop_table_alone:
  assumes "codec_laws C" and "schema_ok C sm" and "unat (kv_counter sm) + 8 < 2 ^ 64"
  shows "\<exists>sm'. drop_table (Suc f) (sm_kv_api now) C req sm
              = (Some (fst (cat_drop_table req (catalog_of C sm))), sm')
           \<and> catalog_of C sm' = snd (cat_drop_table req (catalog_of C sm))"
proof -
  let ?n = "dt_name_ident req"
  note ok = schema_okD[OF assms(2)]
  have room: "unat (kv_counter sm) + 4 < 2 ^ 64" using assms(3) by simp
  show ?thesis
  proof (cases rule: db_cases[OF assms(2), of "db_name_ident ?n", case_names no_db db])
    case no_db
    with ok show ?thesis
      by (simp add: drop_table_def drop_table_step_def get_db_or_err_None cat_drop_table_def Let_def)
  next
    case (db d v w m)
    note r = db_at_read[OF ok db]
    let ?k = "\<lparr>dt_db_id = d, dt_table_name = tn_table_name ?n\<rparr>"
    show ?thesis
    proof (cases rule: table_cases[OF assms(2), of ?k, case_names no_table table])
      case no_table
      with r get_id_value_None[OF ok no_table(1), where C = C] show ?thesis
        by (simp add: drop_table_def drop_table_step_def cat_drop_table_def Let_def)
    next
      case (table t x u tm)
      note q = table_at_read[OF ok table]
      obtain dv where e: "serialize_db_meta C m = Inr dv" "deserialize_db_meta C dv = Inr m"
        using serialize_db_total[OF assms(1)] by metis
      let ?T = "\<lparr>txn_condition = [txn_cond_seq (db_key d) CEq (sv_seq w), txn_cond_seq (DBIdTableName_to_key ?k) CEq (sv_seq x),
            txn_cond_seq (table_key t) CEq (sv_seq u)],
          txn_if_then = [txn_op_put (db_key d) dv, txn_op_del (DBIdTableName_to_key ?k), txn_op_del (table_key t)],
          txn_else_then = []\<rparr>"
      have T: "drop_table_txn C d (sv_seq w) m ?k (sv_seq x) t (sv_seq u) = Inr ?T" by (simp add: drop_table_txn_def e)
      have c: "list_all (cond_spec (ks_get (kvs sm))) (txn_condition ?T)" using r(6) q(5,6) by simp
      obtain resp sm2 where s: "send_txn (sm_kv_api now) C ?T sm = (Inr (True, resp), sm2)"
          and D: "sm_data sm2 = fold txn_op_spec (txn_if_then ?T) (sm_data sm)"
        by (rule send_txn_alone[OF ok room _ c, of now C]) simp_all
      have "drop_table (Suc f) (sm_kv_api now) C req sm = (Some (Inr ()), sm2)"
        using s r q T by (simp add: drop_table_def drop_table_step_def Let_def)
      moreover have "catalog_of C sm2 = snd (cat_drop_table req (catalog_of C sm))"
        unfolding D using r(3,4) q(3)
        by (simp add: txn_ops_simps cat_of_upd e cat_drop_table_def fun_upd_idem Let_def)
      ultimately show ?thesis using r(3) q(3) by (simp add: cat_drop_table_def Let_def)
    qed
  qed
qed


lemma rename_table_free:
  assumes C: "codec_laws C" and ok: "sm_ok sm" and room: "unat (kv_counter sm) + 4 < 2 ^ 64"
    and db: "db_at C sm n d v w m" and db': "db_at C sm n' d' v' w' m'"
    and tb: "table_at C sm k t x u tm" and free: "ks_get (kvs sm) (DBIdTableName_to_key k') = None"
  shows "\<exists>T resp sm'. rename_table_txn C d (sv_seq w) m d' (sv_seq w') m' k (sv_seq x) t k' = Inr T
    \<and> send_txn (sm_kv_api now) C T sm = (Inr (True, resp), sm')
    \<and> catalog_of C sm' = (catalog_of C sm)\<lparr>c_tables := (c_tables (catalog_of C sm))(k := None, k' \<mapsto> t)\<rparr>
    \<and> (\<forall>i. ks_get (kvs sm') (table_key i) = ks_get (kvs sm) (table_key i))"
proof -
  obtain dv dv' idv where e: "serialize_db_meta C m = Inr dv" "deserialize_db_meta C dv = Inr m"
      "serialize_db_meta C m' = Inr dv'" "deserialize_db_meta C dv' = Inr m'"
      "serialize_id C t = Inr idv" "id_from_slice C idv = Inr t"
    using serialize_id_total[OF C] serialize_db_total[OF C] by metis
  define T where "T = \<lparr>txn_condition = [txn_cond_seq (db_key d) CEq (sv_seq w), txn_cond_seq (db_key d') CEq (sv_seq w'),
        txn_cond_seq (DBIdTableName_to_key k) CEq (sv_seq x), txn_cond_seq (DBIdTableName_to_key k') CEq 0],
      txn_if_then = [txn_op_del (DBIdTableName_to_key k), txn_op_put (DBIdTableName_to_key k') idv, txn_op_put (db_key d) dv]
        @ (if d \<noteq> d' then [txn_op_put (db_key d') dv'] else []), txn_else_then = []\<rparr>"
  have T: "rename_table_txn C d (sv_seq w) m d' (sv_seq w') m' k (sv_seq x) t k' = Inr T"
    by (simp add: rename_table_txn_def T_def e)
  have c: "list_all (cond_spec (ks_get (kvs sm))) (txn_condition T)"
    using db_at_read(6)[OF ok db] db_at_read(6)[OF ok db'] table_at_read(5)[OF ok tb] cond_seq_free[OF ok free]
    by (simp add: T_def)
  obtain resp sm2 where s: "send_txn (sm_kv_api now) C T sm = (Inr (True, resp), sm2)"
      and D: "sm_data sm2 = fold txn_op_spec (txn_if_then T) (sm_data sm)"
      and F: "\<And>k. Some k \<notin> op_writes ` set (txn_if_then T) \<Longrightarrow> ks_get (kvs sm2) k = ks_get (kvs sm) k"
    by (rule send_txn_alone[OF ok room _ c, of now C]) (simp_all add: T_def)
  have "catalog_of C sm2 = (catalog_of C sm)\<lparr>c_tables := (c_tables (catalog_of C sm))(k := None, k' \<mapsto> t)\<rparr>"
    unfolding D T_def using db_at_read(4)[OF ok db] db_at_read(4)[OF ok db']
    by (cases "d = d'") (simp_all add: txn_ops_simps cat_of_upd e fun_upd_idem)
  moreover have "ks_get (kvs sm2) (table_key i) = ks_get (kvs sm) (table_key i)" for i
    by (rule F) (auto simp: T_def txn_ops_simps)
  ultimately show ?thesis using T s by blast
qed

lemma rename_table_alone:
  assumes "codec_laws C" and "schema_ok C sm" and "unat (kv_counter sm) + 8 < 2 ^ 64"
  shows "\<exists>sm'. rename_table (Suc f) (sm_kv_api now) C req sm
              = (Some (fst (cat_rename_table req (catalog_of C sm))), sm')
           \<and> catalog_of C sm' = snd (cat_rename_table req (catalog_of C sm))
           \<and> (\<forall>i. ks_get (kvs sm') (table_key i) = ks_get (kvs sm) (table_key i))"
proof -
  let ?n = "rt_name_ident req"
  let ?m = "\<lparr>dn_tenant = tn_tenant ?n, dn_db_name = rt_new_db_name req\<rparr>"
  note ok = schema_okD[OF assms(2)] and defs = rename_table_def rename_table_step_def cat_rename_table_def
  have room: "unat (kv_counter sm) + 4 < 2 ^ 64" using assms(3) by simp
  show ?thesis
  proof (cases rule: db_cases[OF assms(2), of "db_name_ident ?n", case_names no_db db])
    case no_db
    with ok show ?thesis by (simp add: defs get_db_or_err_None Let_def)
  next
    case (db d v w m)
    note r = db_at_read[OF ok db]
    let ?k = "\<lparr>dt_db_id = d, dt_table_name = tn_table_name ?n\<rparr>"
    show ?thesis
    proof (cases rule: table_cases[OF assms(2), of ?k, case_names no_table table])
      case no_table
      with r get_id_value_None[OF ok no_table(1), where C = C] show ?thesis
        by (simp add: defs table_has_to_exist_def Let_def)
    next
      case (table t x u tm)
      note q = table_at_read[OF ok table]
      show ?thesis
      proof (cases rule: db_cases[OF assms(2), of ?m, case_names no_db db])
        case no_db
        with r q ok show ?thesis by (simp add: defs get_db_or_err_None table_has_to_exist_def Let_def)
      next
        case db': (db d' v' w' m')
        note r' = db_at_read[OF ok db']
        let ?k' = "\<lparr>dt_db_id = d', dt_table_name = rt_new_table_name req\<rparr>"
        show ?thesis
        proof (cases rule: table_cases[OF assms(2), of ?k', case_names no_table table])
          case (table t' x' u' tm')
          with r r' q table_at_read[OF ok table] show ?thesis
            by (simp add: defs table_has_to_exist_def table_has_to_not_exist_def Let_def)
        next
          case no_table
          with rename_table_free[OF assms(1) ok room db db' table no_table(1), of now] r r' q
            get_id_value_None[OF ok no_table(1), where C = C]
          show ?thesis by (auto simp: defs table_has_to_exist_def table_has_to_not_exist_def Let_def)
        qed
      qed
    qed
  qed
qed

text \<open>
  \<open>upsert_table_option\<close>: the request names the version it is based on. It is refused unless the
  table has that version; otherwise the options are merged and the version moves on.
\<close>

lemma upsert_table_option_alone:
  assumes "codec_laws C" and "schema_ok C sm" and "unat (kv_counter sm) + 8 < 2 ^ 64"
    and u: "ks_get (kvs sm) (table_key (uo_table_id req)) = Some u" "deserialize_table_meta C (sv_data u) = Inr m"
  shows "if is_ok (match_seq (uo_seq req) (sv_seq u))
    then \<exists>sm' u'. upsert_table_option (Suc f) (sm_kv_api now) C req sm = (Some (Inr ()), sm')
       \<and> catalog_of C sm' = (catalog_of C sm)\<lparr>c_table_meta := (c_table_meta (catalog_of C sm))
           (uo_table_id req \<mapsto> m\<lparr>tm_options := update_options (uo_options req) (tm_options m)\<rparr>)\<rparr>
       \<and> ks_get (kvs sm') (table_key (uo_table_id req)) = Some u' \<and> sv_seq u < sv_seq u'
    else upsert_table_option (Suc f) (sm_kv_api now) C req sm
       = (Some (Inl (AppErr (TableVersionMismatched (uo_table_id req) (uo_seq req) (sv_seq u) ''upsert_table_option''))), sm)"
proof -
  let ?t = "uo_table_id req" and ?m = "m\<lparr>tm_options := update_options (uo_options req) (tm_options m)\<rparr>"
  note ok = schema_okD[OF assms(2)] and g = get_table_value_Some[OF schema_okD[OF assms(2)] u]
  have room: "unat (kv_counter sm) + 4 < 2 ^ 64" using assms(3) by simp
  have nz: "sv_seq u \<noteq> 0" by (rule seq_not_zero[OF assms(2) u(1)])
  have "schema_null_free (tm_schema m)"
  proof -
    obtain p where "TableMeta_from_pb C p = Inr m"
      using u(2) by (auto simp: deserialize_struct_def try_res_Inr_iff)
    then show ?thesis using DataSchema_from_pb_null_free by (auto simp: TableMeta_from_pb_def try_res_Inr_iff)
  qed
  then obtain tv where tv: "serialize_table_meta C ?m = Inr tv" "deserialize_table_meta C tv = Inr ?m"
    using serialize_table_total[OF assms(1), of ?m] by auto
  let ?T = "\<lparr>txn_condition = [txn_cond_seq (table_key ?t) CEq (sv_seq u)],
      txn_if_then = [txn_op_put (table_key ?t) tv], txn_else_then = []\<rparr>"
  have T: "upsert_table_option_txn C ?t (sv_seq u) ?m = Inr ?T" by (simp add: upsert_table_option_txn_def tv)
  have c: "list_all (cond_spec (ks_get (kvs sm))) (txn_condition ?T)" by (simp add: cond_seq_current u nz)
  obtain resp sm2 where s: "send_txn (sm_kv_api now) C ?T sm = (Inr (True, resp), sm2)" and ok2: "sm_ok sm2"
      and D: "sm_data sm2 = fold txn_op_spec (txn_if_then ?T) (sm_data sm)"
      and N: "\<And>k v. Some k \<in> op_writes ` set (txn_if_then ?T) \<Longrightarrow> ks_get (kvs sm2) k = Some v \<Longrightarrow> kv_counter sm < sv_seq v"
    by (rule send_txn_alone[OF ok room _ c, of now C]) simp_all
  show ?thesis
  proof (cases "is_ok (match_seq (uo_seq req) (sv_seq u))")
    case False
    with g nz show ?thesis by (simp add: upsert_table_option_def upsert_table_option_step_def)
  next
    case True
    have "upsert_table_option (Suc f) (sm_kv_api now) C req sm = (Some (Inr ()), sm2)"
      using s True nz by (simp add: upsert_table_option_def upsert_table_option_step_def g T)
    moreover have "catalog_of C sm2 = (catalog_of C sm)\<lparr>c_table_meta := (c_table_meta (catalog_of C sm))(?t \<mapsto> ?m)\<rparr>"
      unfolding D by (simp add: txn_ops_simps cat_of_upd tv)
    moreover obtain u' where "ks_get (kvs sm2) (table_key ?t) = Some u'"
      using fun_cong[OF D, of "table_key ?t"] by (auto simp: txn_ops_simps view_data_def)
    moreover have "sv_seq u < sv_seq u'" if "ks_get (kvs sm2) (table_key ?t) = Some u'" for u'
      using N[OF _ that] sm_api.seq_pos[OF ok u(1)] by (auto simp: txn_ops_simps)
    ultimately show ?thesis using True by auto
  qed
qed



section \<open>Listing\<close>

text \<open>
  The store holds nothing else under the prefixes of the schema layer, and the names in its keys
  are Rust strings.
\<close>

definition schema_store :: "'mem state_machine \<Rightarrow> bool" where
  "schema_store sm \<longleftrightarrow> (\<forall>k v. ks_get (kvs sm) k = Some v \<longrightarrow> schema_key k
     \<and> (\<forall>n. k = DatabaseNameIdent_to_key n \<longrightarrow> valid_utf8 (dn_tenant n) \<and> valid_utf8 (dn_db_name n))
     \<and> (\<forall>n. k = DBIdTableName_to_key n \<longrightarrow> valid_utf8 (dt_table_name n)))"

lemma list_id_value_alone:
  assumes ok: "sm_ok sm" and l: "api_prefix_list_kv (sm_kv_api now) p sm = (Inr l, sm)"
    and e: "\<And>k v. (k, v) \<in> set l \<Longrightarrow> from_key k = Inr (nm k) \<and> id_from_slice C (sv_data v) = Inr (idn v)"
  shows "list_id_value (sm_kv_api now) C from_key p sm = (Inr (map (\<lambda>(k, v). nm k) l, map (\<lambda>(k, v). idn v) l), sm)"
proof -
  have "collect_res (\<lambda>(str_key, seq_id). try_res (deserialize_id C (sv_data seq_id)) (\<lambda>i.
      try_res (key_encode_err (from_key str_key)) (\<lambda>k. Inr (k, i)))) l = Inr (map (\<lambda>(k, v). (nm k, idn v)) l)"
    by (rule collect_res_Inr) (auto simp: e deserialize_id_def key_encode_err_def)
  then show ?thesis by (simp add: list_id_value_def l comp_def case_prod_beta)
qed

definition db_info :: "'dt schema_codec \<Rightarrow> 'mem state_machine \<Rightarrow> string \<Rightarrow> bytes SeqV \<Rightarrow> 'dt DatabaseInfo" where
  "db_info C sm k v =
     (let d = projr (id_from_slice C (sv_data v)); w = the (ks_get (kvs sm) (db_key d))
      in \<lparr>dinfo_ident = \<lparr>di_db_id = d, di_seq = sv_seq w\<rparr>,
          dinfo_name_ident = projr (DatabaseNameIdent_from_key k),
          dinfo_meta = projr (deserialize_db_meta C (sv_data w))\<rparr>)"

lemma get_database_info:
  assumes "schema_ok C sm" and "db_at C sm n d v w m" and "valid_utf8 (dn_tenant n)" and "valid_utf8 (dn_db_name n)"
  shows "get_database (sm_kv_api now) C n sm = (Inr (db_info C sm (DatabaseNameIdent_to_key n) v), sm)"
proof -
  have "DatabaseNameIdent_from_key (DatabaseNameIdent_to_key n) = Inr n"
    using from_key_to_key[OF assms(3,4), of "\<lparr>dt_db_id = 0, dt_table_name = ''''\<rparr>"] by simp
  with db_at_read(2)[OF schema_okD[OF assms(1)] assms(2)] assms(2) show ?thesis
    by (simp add: get_database_def db_info_def db_at_def Let_def)
qed

lemma collect_databases_alone:
  assumes "\<And>k v. (k, v) \<in> set l \<Longrightarrow> \<exists>n d w m. k = DatabaseNameIdent_to_key n \<and> dn_tenant n = tenant
      \<and> DatabaseNameIdent_from_key k = Inr n \<and> db_at C sm n d v w m"
  shows "collect_databases C tenant
      (zip (map (\<lambda>(k, v). projr (DatabaseNameIdent_from_key k)) l)
        (zip (map (\<lambda>(k, v). projr (id_from_slice C (sv_data v))) l)
          (map (ks_get (kvs sm)) (map (\<lambda>d. db_key d) (map (\<lambda>(k, v). projr (id_from_slice C (sv_data v))) l)))))
    = Inr (map (\<lambda>(k, v). db_info C sm k v) l)"
  using assms
proof (induction l)
  case (Cons e l)
  obtain k v where e: "e = (k, v)" by fastforce
  have "\<exists>n d w m. k = DatabaseNameIdent_to_key n \<and> dn_tenant n = tenant
      \<and> DatabaseNameIdent_from_key k = Inr n \<and> db_at C sm n d v w m"
    by (rule Cons.prems) (simp add: e)
  then obtain n d w m where "k = DatabaseNameIdent_to_key n" "dn_tenant n = tenant"
      "DatabaseNameIdent_from_key k = Inr n" "db_at C sm n d v w m" by blast
  with Cons e show ?case by (auto simp: db_at_def db_info_def Let_def)
qed simp


lemma distinct_by_key:
  assumes "distinct (map fst l)" and "\<And>k v. (k, v) \<in> set l \<Longrightarrow> h (g k) = k"
  shows "distinct (map (\<lambda>kv. g (fst kv)) l)"
proof -
  have "inj_on g (fst ` set l)" by (rule inj_on_inverseI[where g = h]) (use assms(2) in auto)
  then show ?thesis using assms(1) by (simp add: distinct_map comp_inj_on[unfolded comp_def])
qed

lemma get_database_none:
  assumes "schema_ok C sm" and "ks_get (kvs sm) (DatabaseNameIdent_to_key n) = None"
  shows "\<not> is_ok (fst (get_database (sm_kv_api now) C n sm))"
  using get_db_or_err_None[OF schema_okD[OF assms(1)] assms(2), where C = C] by (simp add: get_database_def)

lemma get_database_some:
  assumes ok: "schema_ok C sm" and st: "schema_store sm" and g: "get_database (sm_kv_api now) C n sm = (Inr info, sm)"
  obtains v where "ks_get (kvs sm) (DatabaseNameIdent_to_key n) = Some v"
    "info = db_info C sm (DatabaseNameIdent_to_key n) v"
proof (cases rule: db_cases[OF ok, of n, case_names no_db db])
  case no_db
  with get_database_none[OF ok no_db(1), of now] g show ?thesis by simp
next
  case (db d v w m)
  then have k: "ks_get (kvs sm) (DatabaseNameIdent_to_key n) = Some v" by (simp add: db_at_def)
  with st have "valid_utf8 (dn_tenant n)" "valid_utf8 (dn_db_name n)" unfolding schema_store_def by blast+
  from get_database_info[OF ok db this, of now] g show ?thesis using that[OF k] by simp
qed

lemma listed_db:
  assumes "schema_ok C sm" and "schema_store sm"
    and "prefix (DatabaseNameIdent_to_key \<lparr>dn_tenant = tenant, dn_db_name = ''''\<rparr>) k" and "ks_get (kvs sm) k = Some v"
  shows "\<exists>n d w m. k = DatabaseNameIdent_to_key n \<and> dn_tenant n = tenant
    \<and> DatabaseNameIdent_from_key k = Inr n \<and> db_at C sm n d v w m
    \<and> valid_utf8 (dn_tenant n) \<and> valid_utf8 (dn_db_name n)"
proof -
  have s: "schema_key k \<and> (\<forall>n. k = DatabaseNameIdent_to_key n \<longrightarrow> valid_utf8 (dn_tenant n) \<and> valid_utf8 (dn_db_name n))"
    using assms(2,4) unfolding schema_store_def by blast
  obtain a where k: "k = DatabaseNameIdent_to_key \<lparr>dn_tenant = tenant, dn_db_name = a\<rparr>"
    using listing_prefix_iff s assms(3) by blast
  define n where "n = \<lparr>dn_tenant = tenant, dn_db_name = a\<rparr>"
  have u: "valid_utf8 (dn_tenant n)" "valid_utf8 (dn_db_name n)" using s k by (auto simp: n_def)
  have f: "DatabaseNameIdent_from_key k = Inr n"
    using from_key_to_key[OF u, of "\<lparr>dt_db_id = 0, dt_table_name = ''''\<rparr>"] by (simp add: k n_def)
  have kn: "k = DatabaseNameIdent_to_key n" "dn_tenant n = tenant" by (simp_all add: k n_def)
  show ?thesis
  proof (cases rule: db_cases[OF assms(1), of n, case_names no_db db])
    case no_db
    with assms(4) kn show ?thesis by simp
  next
    case (db d v' w m)
    then have "v' = v" using assms(4) kn by (simp add: db_at_def)
    with db kn u f show ?thesis by blast
  qed
qed

lemma listed_db_iff:
  assumes ok: "schema_ok C sm" and st: "schema_store sm"
    and mem: "\<And>k v. (k, v) \<in> set l \<longleftrightarrow> prefix (DatabaseNameIdent_to_key \<lparr>dn_tenant = tenant, dn_db_name = ''''\<rparr>) k \<and> ks_get (kvs sm) k = Some v"
  shows "info \<in> set (map (\<lambda>(k, v). db_info C sm k v) l) \<longleftrightarrow> dn_tenant (dinfo_name_ident info) = tenant
      \<and> get_database (sm_kv_api now) C (dinfo_name_ident info) sm = (Inr info, sm)"
    (is "_ \<in> set (map ?f l) \<longleftrightarrow> _")
proof
  assume "info \<in> set (map ?f l)"
  then obtain k v where kv: "(k, v) \<in> set l" "info = db_info C sm k v" by auto
  from kv(1) have "prefix (DatabaseNameIdent_to_key \<lparr>dn_tenant = tenant, dn_db_name = ''''\<rparr>) k" "ks_get (kvs sm) k = Some v"
    by (simp_all add: mem)
  from listed_db[OF ok st this] obtain n d w m where n: "k = DatabaseNameIdent_to_key n" "dn_tenant n = tenant"
    "DatabaseNameIdent_from_key k = Inr n" "db_at C sm n d v w m" "valid_utf8 (dn_tenant n)" "valid_utf8 (dn_db_name n)"
    by blast
  have "dinfo_name_ident info = n" by (simp add: kv db_info_def Let_def n(3))
  with get_database_info[OF ok n(4-6), of now] show "dn_tenant (dinfo_name_ident info) = tenant
        \<and> get_database (sm_kv_api now) C (dinfo_name_ident info) sm = (Inr info, sm)"
    by (simp add: kv n)
next
  assume i: "dn_tenant (dinfo_name_ident info) = tenant
        \<and> get_database (sm_kv_api now) C (dinfo_name_ident info) sm = (Inr info, sm)"
  then obtain v where v: "ks_get (kvs sm) (DatabaseNameIdent_to_key (dinfo_name_ident info)) = Some v"
      "info = db_info C sm (DatabaseNameIdent_to_key (dinfo_name_ident info)) v"
    using get_database_some[OF ok st] by blast
  have "(DatabaseNameIdent_to_key (dinfo_name_ident info), v) \<in> set l"
    using v(1) i by (simp add: mem DatabaseNameIdent_to_key_def escape_def[of "[]"])
  then have "?f (DatabaseNameIdent_to_key (dinfo_name_ident info), v) \<in> set (map ?f l)" by (simp only: set_map imageI)
  then show "info \<in> set (map ?f l)" by (simp only: prod.case v(2)[symmetric])
qed

lemma list_databases_alone:
  assumes ok: "schema_ok C sm" and st: "schema_store sm"
  shows "\<exists>infos. list_databases (sm_kv_api now) C tenant sm = (Inr infos, sm)
    \<and> distinct (map dinfo_name_ident infos)
    \<and> (\<forall>info. info \<in> set infos \<longleftrightarrow> dn_tenant (dinfo_name_ident info) = tenant
          \<and> get_database (sm_kv_api now) C (dinfo_name_ident info) sm = (Inr info, sm))"
proof -
  let ?p = "DatabaseNameIdent_to_key \<lparr>dn_tenant = tenant, dn_db_name = ''''\<rparr>"
  let ?f = "\<lambda>(k, v). db_info C sm k v"
  obtain l where l: "api_prefix_list_kv (sm_kv_api now) ?p sm = (Inr l, sm)" "sorted_wrt (<) (map fst l)"
      "\<And>k v. (k, v) \<in> set l \<longleftrightarrow> prefix ?p k \<and> ks_get (kvs sm) k = Some v"
    using sm_api.prefix_list_kv[OF schema_okD[OF ok], of now ?p] by blast
  have e: "\<exists>n d w m. k = DatabaseNameIdent_to_key n \<and> dn_tenant n = tenant
      \<and> DatabaseNameIdent_from_key k = Inr n \<and> db_at C sm n d v w m
      \<and> valid_utf8 (dn_tenant n) \<and> valid_utf8 (dn_db_name n)" if "(k, v) \<in> set l" for k v
    using that unfolding l(3) by (elim conjE) (rule listed_db[OF ok st])
  have li: "list_id_value (sm_kv_api now) C DatabaseNameIdent_from_key ?p sm
      = (Inr (map (\<lambda>(k, v). projr (DatabaseNameIdent_from_key k)) l,
              map (\<lambda>(k, v). projr (id_from_slice C (sv_data v))) l), sm)"
  proof (rule list_id_value_alone[OF schema_okD[OF ok] l(1)])
    fix k v assume "(k, v) \<in> set l"
    from e[OF this] show "DatabaseNameIdent_from_key k = Inr (projr (DatabaseNameIdent_from_key k))
        \<and> id_from_slice C (sv_data v) = Inr (projr (id_from_slice C (sv_data v)))"
      by (elim exE conjE) (simp add: db_at_def)
  qed
  have "collect_databases C tenant (zip (map (\<lambda>(k, v). projr (DatabaseNameIdent_from_key k)) l)
        (zip (map (\<lambda>(k, v). projr (id_from_slice C (sv_data v))) l)
          (map (ks_get (kvs sm)) (map (\<lambda>d. db_key d) (map (\<lambda>(k, v). projr (id_from_slice C (sv_data v))) l)))))
      = Inr (map ?f l)"
    by (rule collect_databases_alone) (use e in blast)
  then have r: "list_databases (sm_kv_api now) C tenant sm = (Inr (map ?f l), sm)"
    unfolding list_databases_def Let_def li
    by (simp add: sm_api.mget_kv[OF schema_okD[OF ok]])
  have nm: "dinfo_name_ident (?f kv) = projr (DatabaseNameIdent_from_key (fst kv))" for kv
    by (cases kv) (simp add: db_info_def Let_def)
  have "distinct (map (\<lambda>kv. dinfo_name_ident (?f kv)) l)"
    using l(2)[unfolded strict_sorted_iff, THEN conjunct2] unfolding nm
  proof (rule distinct_by_key[where h = DatabaseNameIdent_to_key])
    fix k v assume "(k, v) \<in> set l"
    from e[OF this] show "DatabaseNameIdent_to_key (projr (DatabaseNameIdent_from_key k)) = k"
      by (elim exE conjE) simp
  qed
  moreover have "info \<in> set (map ?f l) \<longleftrightarrow> dn_tenant (dinfo_name_ident info) = tenant
          \<and> get_database (sm_kv_api now) C (dinfo_name_ident info) sm = (Inr info, sm)" for info
    by (rule listed_db_iff[OF ok st l(3)])
  ultimately show ?thesis using r by (intro exI[of _ "map ?f l"]) (simp add: comp_def)
qed


definition tb_name :: "DatabaseNameIdent \<Rightarrow> string \<Rightarrow> TableNameIdent" where
  "tb_name n a = \<lparr>tn_tenant = dn_tenant n, tn_db_name = dn_db_name n, tn_table_name = a\<rparr>"

lemma db_name_ident_tb_name [simp]: "db_name_ident (tb_name n a) = n" "tn_table_name (tb_name n a) = a"
  by (simp_all add: tb_name_def db_name_ident_def)

definition tb_info :: "'dt schema_codec \<Rightarrow> 'mem state_machine \<Rightarrow> string \<Rightarrow> string \<Rightarrow> bytes SeqV \<Rightarrow> 'dt TableInfo" where
  "tb_info C sm db k v =
     (let t = projr (id_from_slice C (sv_data v)); u = the (ks_get (kvs sm) (table_key t));
          a = dt_table_name (projr (DBIdTableName_from_key k))
      in \<lparr>tinfo_ident = \<lparr>ti_table_id = t, ti_seq = sv_seq u\<rparr>, tinfo_desc = quoted db @ ''.'' @ quoted a,
          tinfo_name = a, tinfo_meta = projr (deserialize_table_meta C (sv_data u))\<rparr>)"

lemma from_key_table: "valid_utf8 a \<Longrightarrow>
    DBIdTableName_from_key (DBIdTableName_to_key \<lparr>dt_db_id = d, dt_table_name = a\<rparr>) = Inr \<lparr>dt_db_id = d, dt_table_name = a\<rparr>"
  using from_key_to_key[of "\<lparr>dn_tenant = '''', dn_db_name = ''''\<rparr>" "\<lparr>dt_db_id = d, dt_table_name = a\<rparr>"] by simp

lemma get_table_info:
  assumes ok: "schema_ok C sm" and db: "db_at C sm n d v w m"
    and tb: "table_at C sm \<lparr>dt_db_id = d, dt_table_name = a\<rparr> t x u tm" and a: "valid_utf8 a"
  shows "get_table (sm_kv_api now) C (tb_name n a) sm
    = (Inr ((tb_info C sm (dn_db_name n) (DBIdTableName_to_key \<lparr>dt_db_id = d, dt_table_name = a\<rparr>) x)
               \<lparr>tinfo_desc := TableNameIdent_display (tb_name n a)\<rparr>), sm)"
  using db_at_read(1,7)[OF schema_okD[OF ok] db] table_at_read(1,2,7,8)[OF schema_okD[OF ok] tb] tb
  by (simp add: get_table_def tb_info_def Let_def from_key_table[OF a] db_has_to_exist_def table_has_to_exist_def table_at_def)

lemma get_table_none:
  assumes ok: "schema_ok C sm" and db: "db_at C sm n d v w m"
    and tb: "ks_get (kvs sm) (DBIdTableName_to_key \<lparr>dt_db_id = d, dt_table_name = a\<rparr>) = None"
  shows "\<not> is_ok (fst (get_table (sm_kv_api now) C (tb_name n a) sm))"
  using db_at_read(1,7)[OF schema_okD[OF ok] db] get_id_value_None[OF schema_okD[OF ok] tb, where C = C]
  by (simp add: get_table_def db_has_to_exist_def table_has_to_exist_def)

lemma get_table_some:
  assumes ok: "schema_ok C sm" and st: "schema_store sm" and db: "db_at C sm n d v w m"
    and g: "get_table (sm_kv_api now) C (tb_name n a) sm = (Inr info, sm)"
  obtains x where "ks_get (kvs sm) (DBIdTableName_to_key \<lparr>dt_db_id = d, dt_table_name = a\<rparr>) = Some x"
    "info = (tb_info C sm (dn_db_name n) (DBIdTableName_to_key \<lparr>dt_db_id = d, dt_table_name = a\<rparr>) x)
       \<lparr>tinfo_desc := TableNameIdent_display (tb_name n a)\<rparr>" "valid_utf8 a"
proof (cases rule: table_cases[OF ok, of "\<lparr>dt_db_id = d, dt_table_name = a\<rparr>", case_names no_table table])
  case no_table
  with get_table_none[OF ok db no_table(1), of now] g show ?thesis by simp
next
  case (table t x u tm)
  then have k: "ks_get (kvs sm) (DBIdTableName_to_key \<lparr>dt_db_id = d, dt_table_name = a\<rparr>) = Some x" by (simp add: table_at_def)
  with st have "valid_utf8 (dt_table_name \<lparr>dt_db_id = d, dt_table_name = a\<rparr>)" unfolding schema_store_def by blast
  then have a: "valid_utf8 a" by simp
  from get_table_info[OF ok db table a, of now] g show ?thesis using that[OF k _ a] by simp
qed

lemma listed_table:
  assumes "schema_ok C sm" and "schema_store sm"
    and "prefix (DBIdTableName_to_key \<lparr>dt_db_id = d, dt_table_name = ''''\<rparr>) k" and "ks_get (kvs sm) k = Some x"
  shows "\<exists>a t u m. k = DBIdTableName_to_key \<lparr>dt_db_id = d, dt_table_name = a\<rparr>
    \<and> DBIdTableName_from_key k = Inr \<lparr>dt_db_id = d, dt_table_name = a\<rparr>
    \<and> table_at C sm \<lparr>dt_db_id = d, dt_table_name = a\<rparr> t x u m \<and> valid_utf8 a"
proof -
  have s: "schema_key k \<and> (\<forall>n. k = DBIdTableName_to_key n \<longrightarrow> valid_utf8 (dt_table_name n))"
    using assms(2,4) unfolding schema_store_def by blast
  obtain a where k: "k = DBIdTableName_to_key \<lparr>dt_db_id = d, dt_table_name = a\<rparr>"
    using listing_prefix_iff s assms(3) by blast
  have "valid_utf8 (dt_table_name \<lparr>dt_db_id = d, dt_table_name = a\<rparr>)" using s k by blast
  then have u: "valid_utf8 a" by simp
  show ?thesis
  proof (cases rule: table_cases[OF assms(1), of "\<lparr>dt_db_id = d, dt_table_name = a\<rparr>", case_names no_table table])
    case no_table
    with assms(4) k show ?thesis by simp
  next
    case (table t x' w m)
    then have "x' = x" using assms(4) k by (simp add: table_at_def)
    with table k u from_key_table[OF u, of d] show ?thesis by blast
  qed
qed

lemma collect_tables_alone:
  assumes "\<And>k v. (k, v) \<in> set l \<Longrightarrow> \<exists>a t u m. k = DBIdTableName_to_key \<lparr>dt_db_id = d, dt_table_name = a\<rparr>
      \<and> DBIdTableName_from_key k = Inr \<lparr>dt_db_id = d, dt_table_name = a\<rparr>
      \<and> table_at C sm \<lparr>dt_db_id = d, dt_table_name = a\<rparr> t v u m"
  shows "collect_tables C db
      (zip (map (\<lambda>(k, v). projr (DBIdTableName_from_key k)) l)
        (zip (map (\<lambda>(k, v). projr (id_from_slice C (sv_data v))) l)
          (map (ks_get (kvs sm)) (map (\<lambda>t. table_key t) (map (\<lambda>(k, v). projr (id_from_slice C (sv_data v))) l)))))
    = Inr (map (\<lambda>(k, v). tb_info C sm db k v) l)"
  using assms
proof (induction l)
  case (Cons e l)
  obtain k v where e: "e = (k, v)" by fastforce
  have "\<exists>a t u m. k = DBIdTableName_to_key \<lparr>dt_db_id = d, dt_table_name = a\<rparr>
      \<and> DBIdTableName_from_key k = Inr \<lparr>dt_db_id = d, dt_table_name = a\<rparr>
      \<and> table_at C sm \<lparr>dt_db_id = d, dt_table_name = a\<rparr> t v u m"
    by (rule Cons.prems) (simp add: e)
  then obtain a t u m where "DBIdTableName_from_key k = Inr \<lparr>dt_db_id = d, dt_table_name = a\<rparr>"
      "table_at C sm \<lparr>dt_db_id = d, dt_table_name = a\<rparr> t v u m" by blast
  with Cons e show ?case by (auto simp: table_at_def tb_info_def Let_def)
qed simp


lemma listed_table_iff:
  assumes ok: "schema_ok C sm" and st: "schema_store sm" and db: "db_at C sm n d v0 w0 m0"
    and mem: "\<And>k v. (k, v) \<in> set l \<longleftrightarrow> prefix (DBIdTableName_to_key \<lparr>dt_db_id = d, dt_table_name = ''''\<rparr>) k \<and> ks_get (kvs sm) k = Some v"
  shows "info \<in> set (map (\<lambda>(k, v). tb_info C sm (dn_db_name n) k v) l) \<longleftrightarrow>
      tinfo_desc info = quoted (dn_db_name n) @ ''.'' @ quoted (tinfo_name info)
      \<and> get_table (sm_kv_api now) C (tb_name n (tinfo_name info)) sm
          = (Inr (info\<lparr>tinfo_desc := TableNameIdent_display (tb_name n (tinfo_name info))\<rparr>), sm)"
    (is "_ \<in> set (map ?f l) \<longleftrightarrow> ?desc \<and> ?get")
proof
  assume "info \<in> set (map ?f l)"
  then obtain k v where kv: "(k, v) \<in> set l" "info = tb_info C sm (dn_db_name n) k v" by auto
  from kv(1) have "prefix (DBIdTableName_to_key \<lparr>dt_db_id = d, dt_table_name = ''''\<rparr>) k" "ks_get (kvs sm) k = Some v"
    by (simp_all add: mem)
  from listed_table[OF ok st this] obtain a t u m where a: "k = DBIdTableName_to_key \<lparr>dt_db_id = d, dt_table_name = a\<rparr>"
      "DBIdTableName_from_key k = Inr \<lparr>dt_db_id = d, dt_table_name = a\<rparr>"
      "table_at C sm \<lparr>dt_db_id = d, dt_table_name = a\<rparr> t v u m" "valid_utf8 a" by blast
  have "tinfo_name info = a" ?desc by (simp_all add: kv tb_info_def Let_def a(2))
  with get_table_info[OF ok db a(3,4), of now] show "?desc \<and> ?get" by (simp add: kv a(1))
next
  let ?k = "DBIdTableName_to_key \<lparr>dt_db_id = d, dt_table_name = tinfo_name info\<rparr>"
  assume i: "?desc \<and> ?get"
  then obtain x where x: "ks_get (kvs sm) ?k = Some x" "info\<lparr>tinfo_desc := TableNameIdent_display (tb_name n (tinfo_name info))\<rparr>
      = (tb_info C sm (dn_db_name n) ?k x)\<lparr>tinfo_desc := TableNameIdent_display (tb_name n (tinfo_name info))\<rparr>"
      "valid_utf8 (tinfo_name info)"
    using get_table_some[OF ok st db] by blast
  have "(?k, x) \<in> set l"
    using x(1) by (simp add: mem DBIdTableName_to_key_def escape_def[of "[]"])
  then have "?f (?k, x) \<in> set (map ?f l)" by (simp only: set_map imageI)
  moreover have "tinfo_desc (tb_info C sm (dn_db_name n) ?k x) = tinfo_desc info"
    using i by (simp add: tb_info_def Let_def from_key_table[OF x(3)])
  then have "tb_info C sm (dn_db_name n) ?k x = info"
    using x(2) by (intro TableInfo.equality) (auto dest: arg_cong[where f = tinfo_ident] arg_cong[where f = tinfo_name] arg_cong[where f = tinfo_meta])
  ultimately show "info \<in> set (map ?f l)" by (simp only: prod.case)
qed

lemma list_tables_alone:
  assumes ok: "schema_ok C sm" and st: "schema_store sm" and db: "db_at C sm n d v0 w0 m0"
  shows "\<exists>infos. list_tables (sm_kv_api now) C n sm = (Inr infos, sm)
    \<and> distinct (map tinfo_name infos)
    \<and> (\<forall>info. info \<in> set infos \<longleftrightarrow> tinfo_desc info = quoted (dn_db_name n) @ ''.'' @ quoted (tinfo_name info)
          \<and> get_table (sm_kv_api now) C (tb_name n (tinfo_name info)) sm
              = (Inr (info\<lparr>tinfo_desc := TableNameIdent_display (tb_name n (tinfo_name info))\<rparr>), sm))"
proof -
  let ?key = "\<lambda>a. DBIdTableName_to_key \<lparr>dt_db_id = d, dt_table_name = a\<rparr>"
  let ?p = "?key ''''" and ?f = "\<lambda>(k, v). tb_info C sm (dn_db_name n) k v"
  obtain l where l: "api_prefix_list_kv (sm_kv_api now) ?p sm = (Inr l, sm)" "sorted_wrt (<) (map fst l)"
      "\<And>k v. (k, v) \<in> set l \<longleftrightarrow> prefix ?p k \<and> ks_get (kvs sm) k = Some v"
    using sm_api.prefix_list_kv[OF schema_okD[OF ok], of now ?p] by blast
  have e: "\<exists>a t u m. k = ?key a \<and> DBIdTableName_from_key k = Inr \<lparr>dt_db_id = d, dt_table_name = a\<rparr>
      \<and> table_at C sm \<lparr>dt_db_id = d, dt_table_name = a\<rparr> t v u m \<and> valid_utf8 a" if "(k, v) \<in> set l" for k v
    using that unfolding l(3) by (elim conjE) (rule listed_table[OF ok st])
  have li: "list_id_value (sm_kv_api now) C DBIdTableName_from_key ?p sm
      = (Inr (map (\<lambda>(k, v). projr (DBIdTableName_from_key k)) l,
              map (\<lambda>(k, v). projr (id_from_slice C (sv_data v))) l), sm)"
  proof (rule list_id_value_alone[OF schema_okD[OF ok] l(1)])
    fix k v assume "(k, v) \<in> set l"
    from e[OF this] show "DBIdTableName_from_key k = Inr (projr (DBIdTableName_from_key k))
        \<and> id_from_slice C (sv_data v) = Inr (projr (id_from_slice C (sv_data v)))"
      by (elim exE conjE) (simp add: table_at_def)
  qed
  have "collect_tables C (dn_db_name n) (zip (map (\<lambda>(k, v). projr (DBIdTableName_from_key k)) l)
        (zip (map (\<lambda>(k, v). projr (id_from_slice C (sv_data v))) l)
          (map (ks_get (kvs sm)) (map (\<lambda>t. table_key t) (map (\<lambda>(k, v). projr (id_from_slice C (sv_data v))) l)))))
      = Inr (map ?f l)"
    by (rule collect_tables_alone) (use e in blast)
  then have r: "list_tables (sm_kv_api now) C n sm = (Inr (map ?f l), sm)"
    unfolding list_tables_def Let_def
    by (simp add: db_at_read(1,7)[OF schema_okD[OF ok] db] db_has_to_exist_def li sm_api.mget_kv[OF schema_okD[OF ok]])
  have nm: "tinfo_name (?f kv) = dt_table_name (projr (DBIdTableName_from_key (fst kv)))" for kv
    by (cases kv) (simp add: tb_info_def Let_def)
  have "distinct (map (\<lambda>kv. tinfo_name (?f kv)) l)"
    using l(2)[unfolded strict_sorted_iff, THEN conjunct2] unfolding nm
  proof (rule distinct_by_key[where h = ?key])
    fix k v assume "(k, v) \<in> set l"
    from e[OF this] show "?key (dt_table_name (projr (DBIdTableName_from_key k))) = k"
      by (elim exE conjE) simp
  qed
  moreover have "info \<in> set (map ?f l) \<longleftrightarrow> tinfo_desc info = quoted (dn_db_name n) @ ''.'' @ quoted (tinfo_name info)
          \<and> get_table (sm_kv_api now) C (tb_name n (tinfo_name info)) sm
              = (Inr (info\<lparr>tinfo_desc := TableNameIdent_display (tb_name n (tinfo_name info))\<rparr>), sm)" for info
    by (rule listed_table_iff[OF ok st db l(3)])
  ultimately show ?thesis using r by (intro exI[of _ "map ?f l"]) (simp add: comp_def)
qed



section \<open>The operations against the catalogue, from a reachable state\<close>

text \<open>
  A run of an operation does what the specification says: it returns its result, leaves its
  catalogue, and the state it leaves is one the concurrent system reaches.
\<close>

definition op_refines ::
  "'dt schema_codec \<Rightarrow> 'mem schema_sys \<Rightarrow> (MetaError + 'a) option \<times> 'mem state_machine
     \<Rightarrow> (MetaError + 'a) \<times> 'dt catalog \<Rightarrow> bool" where
  "op_refines C s run spec \<longleftrightarrow>
     fst run = Some (fst spec) \<and> catalog_of C (snd run) = snd spec \<and> sys_run C s (snd run)"

lemma retry_one: "snd (retry (Suc 0) body s) = snd (body s)"
  by (auto split: prod.splits sum.splits option.splits)

lemma retry_more: "fst (retry (Suc 0) body s) \<noteq> None \<Longrightarrow> retry (Suc f) body s = retry (Suc 0) body s"
  by (auto split: prod.splits sum.splits option.splits)

lemma op_refines_retry:
  assumes "\<exists>sm'. retry (Suc 0) body (sys_sm s) = (Some (fst spec), sm') \<and> catalog_of C sm' = snd spec"
    and "sys_run C s (snd (body (sys_sm s)))"
  shows "op_refines C s (retry (Suc f) body (sys_sm s)) spec"
proof -
  have "retry (Suc f) body (sys_sm s) = retry (Suc 0) body (sys_sm s)"
    by (rule retry_more) (use assms(1) in auto)
  then show ?thesis
    using assms retry_one[of body "sys_sm s"] unfolding op_refines_def by (elim exE conjE) (simp del: retry.simps)
qed

lemma sys_inv_schema_ok: "sys_inv C s \<Longrightarrow> schema_ok C (sys_sm s)"
  by (simp add: sys_inv_def schema_ok_def Let_def)

lemma sys_run_schema_ok:
  assumes "codec_laws C" and "sys_inv C s" and "sys_run C s sm"
  shows "schema_ok C sm"
proof -
  obtain s' where "(schema_step C)\<^sup>*\<^sup>* s s'" "sys_sm s' = sm" using assms(3) by (auto simp: sys_run_def)
  then show ?thesis using sys_inv_schema_ok[OF schema_reachable_inv[OF assms(1) _ assms(2)]] by blast
qed


lemma schema_ops_refine:
  assumes C: "codec_laws C" and inv: "sys_inv C s" and room: "unat (kv_counter (sys_sm s)) + 8 < 2 ^ 64"
  shows "op_refines C s (create_database (Suc f) (sm_kv_api now) C r1 (sys_sm s)) (cat_create_database r1 (kv_counter (sys_sm s) + 1) (catalog_of C (sys_sm s)))"
    and "op_refines C s (drop_database (Suc f) (sm_kv_api now) C r2 (sys_sm s)) (cat_drop_database r2 (catalog_of C (sys_sm s)))"
    and "op_refines C s (rename_database (Suc f) (sm_kv_api now) C r3 (sys_sm s)) (cat_rename_database r3 (catalog_of C (sys_sm s)))"
    and "op_refines C s (create_table (Suc f) (sm_kv_api now) C r4 (sys_sm s)) (cat_create_table r4 (kv_counter (sys_sm s) + 1) (catalog_of C (sys_sm s)))"
    and "op_refines C s (drop_table (Suc f) (sm_kv_api now) C r5 (sys_sm s)) (cat_drop_table r5 (catalog_of C (sys_sm s)))"
    and "op_refines C s (rename_table (Suc f) (sm_kv_api now) C r6 (sys_sm s)) (cat_rename_table r6 (catalog_of C (sys_sm s)))"
proof -
  note ok = sys_inv_schema_ok[OF inv]
  show "op_refines C s (create_database (Suc f) (sm_kv_api now) C r1 (sys_sm s)) (cat_create_database r1 (kv_counter (sys_sm s) + 1) (catalog_of C (sys_sm s)))"
    unfolding create_database_def
    by (rule op_refines_retry, use create_database_alone[OF C ok room, of 0 now r1, unfolded create_database_def] in blast, rule create_database_turn[OF inv room])
  show "op_refines C s (drop_database (Suc f) (sm_kv_api now) C r2 (sys_sm s)) (cat_drop_database r2 (catalog_of C (sys_sm s)))"
    unfolding drop_database_def
    by (rule op_refines_retry, use drop_database_alone[OF ok room, of 0 now r2, unfolded drop_database_def] in blast, rule drop_database_turn[OF inv room])
  show "op_refines C s (rename_database (Suc f) (sm_kv_api now) C r3 (sys_sm s)) (cat_rename_database r3 (catalog_of C (sys_sm s)))"
    unfolding rename_database_def
    by (rule op_refines_retry, use rename_database_alone[OF C ok room, of 0 now r3, unfolded rename_database_def] in blast, rule rename_database_turn[OF inv room])
  show "op_refines C s (create_table (Suc f) (sm_kv_api now) C r4 (sys_sm s)) (cat_create_table r4 (kv_counter (sys_sm s) + 1) (catalog_of C (sys_sm s)))"
    unfolding create_table_def
    by (rule op_refines_retry, use create_table_alone[OF C ok room, of 0 now r4, unfolded create_table_def] in blast, rule create_table_turn[OF inv room])
  show "op_refines C s (drop_table (Suc f) (sm_kv_api now) C r5 (sys_sm s)) (cat_drop_table r5 (catalog_of C (sys_sm s)))"
    unfolding drop_table_def
    by (rule op_refines_retry, use drop_table_alone[OF C ok room, of 0 now r5, unfolded drop_table_def] in blast, rule drop_table_turn[OF inv room])
  show "op_refines C s (rename_table (Suc f) (sm_kv_api now) C r6 (sys_sm s)) (cat_rename_table r6 (catalog_of C (sys_sm s)))"
    unfolding rename_table_def
    by (rule op_refines_retry, use rename_table_alone[OF C ok room, of 0 now r6, unfolded rename_table_def] in blast, rule rename_table_turn[OF inv room])
qed



section \<open>Reads\<close>

definition cat_get_database :: "DatabaseNameIdent \<Rightarrow> 'dt catalog \<Rightarrow> MetaError + (u64 \<times> 'dt DatabaseMeta)" where
  "cat_get_database n c =
     (case c_dbs c n of None \<Rightarrow> Inl (unknown_db n ''get_database'') | Some d \<Rightarrow> Inr (d, the (c_db_meta c d)))"

definition cat_get_table :: "TableNameIdent \<Rightarrow> 'dt catalog \<Rightarrow> MetaError + (u64 \<times> 'dt TableMeta)" where
  "cat_get_table n c =
     (case c_dbs c (db_name_ident n) of
        None \<Rightarrow> Inl (unknown_db (db_name_ident n) (''get_table: '' @ TableNameIdent_display n))
      | Some d \<Rightarrow>
          (case c_tables c \<lparr>dt_db_id = d, dt_table_name = tn_table_name n\<rparr> of
             None \<Rightarrow> Inl (AppErr (UnknownTable (tn_table_name n) (''get_table'' @ '': '' @ TableNameIdent_display n)))
           | Some t \<Rightarrow> Inr (t, the (c_table_meta c t))))"

definition cat_get_table_by_id :: "u64 \<Rightarrow> 'dt catalog \<Rightarrow> MetaError + 'dt TableMeta" where
  "cat_get_table_by_id t c =
     (case c_table_meta c t of None \<Rightarrow> Inl (AppErr (UnknownTableId t ''get_table_by_id'')) | Some m \<Rightarrow> Inr m)"

lemma get_database_cat:
  assumes "schema_ok C sm"
  shows "map_sum id (\<lambda>i. (di_db_id (dinfo_ident i), dinfo_meta i)) (fst (get_database (sm_kv_api now) C n sm))
      = cat_get_database n (catalog_of C sm)"
proof (cases rule: db_cases[OF assms, of n, case_names no_db db])
  case no_db
  then show ?thesis
    using get_db_or_err_None[OF schema_okD[OF assms] no_db(1), where C = C] by (simp add: get_database_def cat_get_database_def)
next
  case (db d v w m)
  then show ?thesis
    using db_at_read(2-4)[OF schema_okD[OF assms] db] by (simp add: get_database_def cat_get_database_def)
qed

lemma get_table_cat:
  assumes ok: "schema_ok C sm"
  shows "map_sum id (\<lambda>i. (ti_table_id (tinfo_ident i), tinfo_meta i)) (fst (get_table (sm_kv_api now) C n sm))
      = cat_get_table n (catalog_of C sm)"
proof (cases rule: db_cases[OF ok, of "db_name_ident n", case_names no_db db])
  case no_db
  then show ?thesis
    using get_id_value_None[OF schema_okD[OF ok] no_db(1), where C = C]
    by (simp add: get_table_def cat_get_table_def db_has_to_exist_def unknown_db_def)
next
  case (db d v w m)
  note r = db_at_read(1,3,7)[OF schema_okD[OF ok] db]
  show ?thesis
  proof (cases rule: table_cases[OF ok, of "\<lparr>dt_db_id = d, dt_table_name = tn_table_name n\<rparr>", case_names no_table table])
    case no_table
    with r show ?thesis
      using get_id_value_None[OF schema_okD[OF ok] no_table(1), where C = C]
      by (simp add: get_table_def cat_get_table_def db_has_to_exist_def table_has_to_exist_def)
  next
    case (table t x u tm)
    with r table_at_read(1-4,7,8)[OF schema_okD[OF ok] table] show ?thesis
      by (simp add: get_table_def cat_get_table_def db_has_to_exist_def table_has_to_exist_def)
  qed
qed


lemma get_table_by_id_cat:
  assumes ok: "schema_ok C sm"
  shows "map_sum id snd (fst (get_table_by_id (sm_kv_api now) C t sm)) = cat_get_table_by_id t (catalog_of C sm)"
proof (cases "ks_get (kvs sm) (table_key t)")
  case None
  then show ?thesis
    using get_table_value_None[OF schema_okD[OF ok] None, where C = C]
    by (simp add: get_table_by_id_def cat_get_table_by_id_def cat_of_def view_data_def)
next
  case (Some u)
  have "linked DBIdTableName_to_key table_key (id_from_slice C) (\<lambda>b. is_ok (deserialize_table_meta C b)) (sm_data sm)"
    using ok by (simp add: schema_ok_def schema_inv_def)
  then have "\<forall>i mb. sm_data sm (table_key i) = Some mb \<longrightarrow> is_ok (deserialize_table_meta C mb)"
    unfolding linked_def by blast
  moreover have "sm_data sm (table_key t) = Some (sv_data u)" by (simp add: view_data_def Some)
  ultimately have "is_ok (deserialize_table_meta C (sv_data u))" by blast
  then obtain m where m: "deserialize_table_meta C (sv_data u) = Inr m" by (auto simp: is_ok_def split: sum.splits)
  then show ?thesis
    using get_table_value_Some[OF schema_okD[OF ok] Some m] seq_not_zero[OF ok Some] Some
    by (simp add: get_table_by_id_def cat_get_table_by_id_def cat_of_def view_data_def)
qed



section \<open>Renaming keeps the identity\<close>

lemma get_database_at:
  assumes "sm_ok sm" and "db_at C sm n d v w m"
  shows "get_database (sm_kv_api now) C n sm
    = (Inr \<lparr>dinfo_ident = \<lparr>di_db_id = d, di_seq = sv_seq w\<rparr>, dinfo_name_ident = n, dinfo_meta = m\<rparr>, sm)"
  using db_at_read(2)[OF assms] by (simp add: get_database_def)

lemma get_table_at:
  assumes "sm_ok sm" and "db_at C sm (db_name_ident n) d v w m"
    and "table_at C sm \<lparr>dt_db_id = d, dt_table_name = tn_table_name n\<rparr> t x u tm"
  shows "get_table (sm_kv_api now) C n sm
    = (Inr \<lparr>tinfo_ident = \<lparr>ti_table_id = t, ti_seq = sv_seq u\<rparr>, tinfo_desc = TableNameIdent_display n,
            tinfo_name = tn_table_name n, tinfo_meta = tm\<rparr>, sm)"
  using db_at_read(1,7)[OF assms(1,2)] table_at_read(1,2,7,8)[OF assms(1,3)]
  by (simp add: get_table_def db_has_to_exist_def table_has_to_exist_def)

lemma rename_database_same_ident:
  assumes C: "codec_laws C" and inv: "sys_inv C s" and room: "unat (kv_counter (sys_sm s)) + 8 < 2 ^ 64"
    and g: "get_database (sm_kv_api now) C (rd_name_ident req) (sys_sm s) = (Inr info, sys_sm s)"
    and r: "rename_database (Suc f) (sm_kv_api now) C req (sys_sm s) = (Some (Inr ()), sm')"
    and n': "n' = \<lparr>dn_tenant = dn_tenant (rd_name_ident req), dn_db_name = rd_new_db_name req\<rparr>"
  shows "get_database (sm_kv_api now) C n' sm' = (Inr (info\<lparr>dinfo_name_ident := n'\<rparr>), sm')"
proof -
  let ?sm = "sys_sm s" and ?n = "rd_name_ident req"
  note ok = sys_inv_schema_ok[OF inv]
  obtain d v w m where db: "db_at C ?sm ?n d v w m"
    by (cases rule: db_cases[OF ok, of ?n, case_names no_db db]) (use get_database_none[OF ok, of ?n now] g in simp_all)
  have cat: "fst (cat_rename_database req (catalog_of C ?sm)) = Inr ()"
      "catalog_of C sm' = snd (cat_rename_database req (catalog_of C ?sm))" "sys_run C s sm'"
    using schema_ops_refine(3)[OF C inv room, of f now req] by (simp_all add: op_refines_def r)
  have kept: "\<forall>i. ks_get (kvs sm') (db_key i) = ks_get (kvs ?sm) (db_key i)"
    using rename_database_alone[OF C ok room, of f now req] by (auto simp: r)
  note ok' = sys_run_schema_ok[OF C inv cat(3)]
  have n: "c_dbs (catalog_of C ?sm) ?n = Some d" by (rule db_at_read(3)[OF schema_okD[OF ok] db])
  have f': "c_dbs (catalog_of C ?sm) n' = None"
    using cat(1) n by (auto simp: cat_rename_database_def Let_def n' split: if_splits)
  then have new: "c_dbs (catalog_of C sm') n' = Some d"
    unfolding cat(2) using n by (simp add: cat_rename_database_def Let_def n')
  obtain v' m' where "db_at C sm' n' d v' w m'"
  proof (cases rule: db_cases[OF ok', of n', case_names no_db db'])
    case no_db
    with new show ?thesis by simp
  next
    case (db' d' v' w' m')
    then show ?thesis using that[of v' m'] new db kept by (simp add: db_at_def)
  qed
  moreover from this db kept have "m' = m" by (simp add: db_at_def)
  ultimately show ?thesis
    using g get_database_at[OF schema_okD[OF ok] db, of now] get_database_at[OF schema_okD[OF ok'], of C n' d v' w m' now] by auto
qed


lemma get_table_some_at:
  assumes ok: "schema_ok C sm" and g: "is_ok (fst (get_table (sm_kv_api now) C n sm))"
  obtains d v w m t x u tm where "db_at C sm (db_name_ident n) d v w m"
    "table_at C sm \<lparr>dt_db_id = d, dt_table_name = tn_table_name n\<rparr> t x u tm"
proof -
  have c: "is_ok (cat_get_table n (catalog_of C sm))"
    using g unfolding get_table_cat[OF ok, of now n, symmetric]
    by (cases "fst (get_table (sm_kv_api now) C n sm)") (auto simp: is_ok_def)
  show thesis
  proof (cases rule: db_cases[OF ok, of "db_name_ident n", case_names no_db db])
    case no_db
    with c show ?thesis by (simp add: cat_get_table_def is_ok_def)
  next
    case (db d v w m)
    then have d: "c_dbs (catalog_of C sm) (db_name_ident n) = Some d" by (simp add: db_at_def)
    show ?thesis
      by (cases rule: table_cases[OF ok, of "\<lparr>dt_db_id = d, dt_table_name = tn_table_name n\<rparr>", case_names no_table table])
        (use c d in \<open>simp add: cat_get_table_def is_ok_def\<close>, rule that[OF db])
  qed
qed

lemma rename_table_same_ident:
  assumes C: "codec_laws C" and inv: "sys_inv C s" and room: "unat (kv_counter (sys_sm s)) + 8 < 2 ^ 64"
    and g: "get_table (sm_kv_api now) C (rt_name_ident req) (sys_sm s) = (Inr info, sys_sm s)"
    and r: "rename_table (Suc f) (sm_kv_api now) C req (sys_sm s) = (Some (Inr i), sm')"
    and n': "n' = \<lparr>tn_tenant = tn_tenant (rt_name_ident req), tn_db_name = rt_new_db_name req,
               tn_table_name = rt_new_table_name req\<rparr>"
  shows "get_table (sm_kv_api now) C n' sm'
      = (Inr (info\<lparr>tinfo_desc := TableNameIdent_display n', tinfo_name := rt_new_table_name req\<rparr>), sm')
    \<and> i = ti_table_id (tinfo_ident info)"
proof -
  let ?sm = "sys_sm s" and ?n = "rt_name_ident req" and ?c = "catalog_of C (sys_sm s)"
  note ok = sys_inv_schema_ok[OF inv]
  obtain d v w m t x u tm where db: "db_at C ?sm (db_name_ident ?n) d v w m"
    and tb: "table_at C ?sm \<lparr>dt_db_id = d, dt_table_name = tn_table_name ?n\<rparr> t x u tm"
    by (rule get_table_some_at[OF ok, of now ?n]) (use g in \<open>simp_all add: is_ok_def\<close>)
  have cat: "fst (cat_rename_table req ?c) = Inr i" "catalog_of C sm' = snd (cat_rename_table req ?c)" "sys_run C s sm'"
    using schema_ops_refine(6)[OF C inv room, of f now req] by (simp_all add: op_refines_def r)
  have kept: "\<forall>i. ks_get (kvs sm') (table_key i) = ks_get (kvs ?sm) (table_key i)"
    using rename_table_alone[OF C ok room, of f now req] by (auto simp: r)
  note ok' = sys_run_schema_ok[OF C inv cat(3)]
  have c: "c_dbs ?c (db_name_ident ?n) = Some d" "c_tables ?c \<lparr>dt_db_id = d, dt_table_name = tn_table_name ?n\<rparr> = Some t"
    using db tb by (simp_all add: db_at_def table_at_def)
  have dn: "db_name_ident n' = \<lparr>dn_tenant = tn_tenant ?n, dn_db_name = rt_new_db_name req\<rparr>" "tn_table_name n' = rt_new_table_name req"
    by (simp_all add: n' db_name_ident_def)
  obtain d' where d': "c_dbs ?c (db_name_ident n') = Some d'"
      "c_tables ?c \<lparr>dt_db_id = d', dt_table_name = rt_new_table_name req\<rparr> = None" and i: "i = t"
    using cat(1) c by (auto simp: cat_rename_table_def Let_def dn split: option.splits if_splits)
  have c': "c_dbs (catalog_of C sm') (db_name_ident n') = Some d'"
      "c_tables (catalog_of C sm') \<lparr>dt_db_id = d', dt_table_name = tn_table_name n'\<rparr> = Some t"
    unfolding cat(2) using c d' by (simp_all add: cat_rename_table_def Let_def dn)
  obtain v' w' m' where db': "db_at C sm' (db_name_ident n') d' v' w' m'"
    by (cases rule: db_cases[OF ok', of "db_name_ident n'", case_names no_db db]) (use c'(1) in \<open>auto simp: db_at_def\<close>)
  obtain x' where tb': "table_at C sm' \<lparr>dt_db_id = d', dt_table_name = tn_table_name n'\<rparr> t x' u tm"
  proof (cases rule: table_cases[OF ok', of "\<lparr>dt_db_id = d', dt_table_name = tn_table_name n'\<rparr>", case_names no_table table])
    case no_table
    with c' show ?thesis by simp
  next
    case (table t' x' u' tm')
    then show ?thesis using that[of x'] c'(2) tb kept by (simp add: table_at_def)
  qed
  show ?thesis
    using g get_table_at[OF schema_okD[OF ok] db tb, of now] get_table_at[OF schema_okD[OF ok'] db' tb', of now] i
    by (auto simp: dn)
qed

end
