(* ===== verification/Schema_Laws.thy ===== *)
theory Schema_Laws
  imports Schema_Instance Schema_Catalog
begin

text \<open>
  What the schema layer guarantees on the replicated state machine: the links between names,
  ids and metas under any interleaving of clients, and what each operation does when it runs
  alone. The witnesses run on \<open>demo_codec\<close>.
\<close>

section \<open>Concurrent clients\<close>

definition demo_init :: "unit state_machine" where
  "demo_init = sm_open sm_empty"

definition demo_sm1 :: "unit state_machine" where
  "demo_sm1 = snd (create_database_step (sm_kv_api 0) demo_codec demo_create_db demo_init)"

lemma demo_init_inv: "sys_inv C (sys_init demo_init)"
  unfolding demo_init_def by (rule sys_inv_init)

lemma demo_init_counter: "kv_counter demo_init = 0"
  by code_simp

lemma demo_sm1_run: "sys_run demo_codec (sys_init demo_init) demo_sm1"
  using create_database_turn[OF demo_init_inv, of demo_codec 0 demo_create_db]
  by (simp add: demo_sm1_def sys_init_def demo_init_counter)

definition demo_sm2 :: "unit state_machine" where
  "demo_sm2 = snd (create_table_step (sm_kv_api 0) demo_codec demo_create_table demo_sm1)"

definition demo_rename_db :: RenameDatabaseReq where
  "demo_rename_db = \<lparr>rd_if_exists = False, rd_name_ident = demo_db, rd_new_db_name = ''e''\<rparr>"

definition demo_rename_table :: RenameTableReq where
  "demo_rename_table = \<lparr>rt_if_exists = False, rt_name_ident = demo_table, rt_new_db_name = ''d'', rt_new_table_name = ''y''\<rparr>"

definition demo_db_info :: "string DatabaseInfo" where
  "demo_db_info = \<lparr>dinfo_ident = \<lparr>di_db_id = 1, di_seq = 5\<rparr>, dinfo_name_ident = demo_db, dinfo_meta = demo_db_meta\<rparr>"

definition demo_tb_info :: "string TableInfo" where
  "demo_tb_info = \<lparr>tinfo_ident = \<lparr>ti_table_id = 4, ti_seq = 7\<rparr>, tinfo_desc = TableNameIdent_display demo_table,
     tinfo_name = ''x'', tinfo_meta = demo_table_meta\<rparr>"

text \<open>The two stores are evaluated once; the witnesses use these facts.\<close>

lemma demo_sm1_eval:
  "(let sm = demo_sm1 in (kv_counter sm, map fst (kvs sm), c_dbs (catalog_of demo_codec sm) demo_db))
   = (3, [''__fd_database/t/d'', ''__fd_database_by_id/1'', ''__fd_id_gen/database_id''], Some 1)"
  by code_simp

lemma demo_sm2_eval:
  "(let sm = demo_sm2; api = sm_kv_api 0
    in (kv_counter sm, map fst (kvs sm), c_dbs (catalog_of demo_codec sm) demo_db,
        fst (get_table_by_id api demo_codec 4 sm), fst (get_database api demo_codec demo_db sm),
        fst (get_table api demo_codec demo_table sm), fst (list_databases api demo_codec ''t'' sm),
        fst (rename_database (Suc 0) api demo_codec demo_rename_db sm),
        fst (rename_table (Suc 0) api demo_codec demo_rename_table sm)))
   = (7, [DatabaseNameIdent_to_key demo_db, db_key 1, DatabaseIdGen_to_key, TableIdGen_to_key,
          DBIdTableName_to_key \<lparr>dt_db_id = 1, dt_table_name = ''x''\<rparr>, table_key 4], Some 1,
      Inr (\<lparr>ti_table_id = 4, ti_seq = 7\<rparr>, demo_table_meta), Inr demo_db_info,
      Inr demo_tb_info, Inr [demo_db_info], Some (Inr ()), Some (Inr 4))"
  by code_simp

lemmas demo_sm1_facts = demo_sm1_eval[unfolded Let_def prod.inject, THEN conjunct1]
  demo_sm1_eval[unfolded Let_def prod.inject, THEN conjunct2, THEN conjunct1]
  demo_sm1_eval[unfolded Let_def prod.inject, THEN conjunct2, THEN conjunct2]

lemma demo_sm2_facts:
  "kv_counter demo_sm2 = 7"
  "map fst (kvs demo_sm2) = [DatabaseNameIdent_to_key demo_db, db_key 1, DatabaseIdGen_to_key, TableIdGen_to_key,
     DBIdTableName_to_key \<lparr>dt_db_id = 1, dt_table_name = ''x''\<rparr>, table_key 4]"
  "c_dbs (catalog_of demo_codec demo_sm2) demo_db = Some 1"
  "fst (get_table_by_id (sm_kv_api 0) demo_codec 4 demo_sm2) = Inr (\<lparr>ti_table_id = 4, ti_seq = 7\<rparr>, demo_table_meta)"
  "fst (get_database (sm_kv_api 0) demo_codec demo_db demo_sm2) = Inr demo_db_info"
  "fst (get_table (sm_kv_api 0) demo_codec demo_table demo_sm2) = Inr demo_tb_info"
  "fst (list_databases (sm_kv_api 0) demo_codec ''t'' demo_sm2) = Inr [demo_db_info]"
  "fst (rename_database (Suc 0) (sm_kv_api 0) demo_codec demo_rename_db demo_sm2) = Some (Inr ())"
  "fst (rename_table (Suc 0) (sm_kv_api 0) demo_codec demo_rename_table demo_sm2) = Some (Inr 4)"
  using demo_sm2_eval unfolding Let_def prod.inject by blast+

lemmas demo_counters = demo_sm1_facts(1) demo_sm2_facts(1)

lemma sys_run_trans:
  assumes "sys_run C s sm" and step: "\<And>s'. (schema_step C)\<^sup>*\<^sup>* s s' \<Longrightarrow> sys_sm s' = sm \<Longrightarrow> sys_run C s' sm'"
  shows "sys_run C s sm'"
proof -
  obtain s' where s: "(schema_step C)\<^sup>*\<^sup>* s s'" "sys_sm s' = sm" using assms(1) by (auto simp: sys_run_def)
  obtain s'' where "(schema_step C)\<^sup>*\<^sup>* s' s''" "sys_sm s'' = sm'" using step[OF s] by (auto simp: sys_run_def)
  then show ?thesis using rtranclp_trans[OF s(1)] unfolding sys_run_def by blast
qed

lemma demo_sm2_run: "sys_run demo_codec (sys_init demo_init) demo_sm2"
proof (rule sys_run_trans[OF demo_sm1_run])
  fix s' assume s: "(schema_step demo_codec)\<^sup>*\<^sup>* (sys_init demo_init) s'" "sys_sm s' = demo_sm1"
  from create_table_turn[OF schema_reachable_inv[OF demo_codec_laws s(1) demo_init_inv], of 0 demo_create_table]
  show "sys_run demo_codec s' demo_sm2" by (simp add: s(2) demo_sm2_def demo_counters)
qed

lemma demo_sm2_state:
  obtains s where "(schema_step demo_codec)\<^sup>*\<^sup>* (sys_init (sm_open sm_empty)) s" "sys_sm s = demo_sm2"
  using demo_sm2_run by (auto simp: sys_run_def demo_init_def)

text \<open>
  C1: However many clients create, drop and rename databases and tables at the same time, each
  sending transactions built from records it read at any earlier moment, and whatever
  transactions are refused or retried: in every reachable state of the store each database name
  points to an id that has a readable meta, no two names point to one id, and every meta has a
  name; and the same holds of the tables.
\<close>

theorem schema_inv_concurrent:
  assumes "codec_laws C" and "(schema_step C)\<^sup>*\<^sup>* (sys_init (sm_open sm_empty)) s"
  shows "schema_inv C (view_data (ks_get (kvs (sys_sm s))))"
  using schema_reachable_inv[OF assms sys_inv_init] by (simp add: sys_inv_def Let_def)

theorem schema_inv_concurrent_witness:
  "schema_inv demo_codec (view_data (ks_get (kvs demo_sm1)))
   \<and> map fst (kvs demo_sm1) = [''__fd_database/t/d'', ''__fd_database_by_id/1'', ''__fd_id_gen/database_id'']"
proof
  obtain s where s: "(schema_step demo_codec)\<^sup>*\<^sup>* (sys_init demo_init) s" "sys_sm s = demo_sm1"
    using demo_sm1_run by (auto simp: sys_run_def)
  show "schema_inv demo_codec (view_data (ks_get (kvs demo_sm1)))"
    using schema_inv_concurrent[OF demo_codec_laws s(1)[unfolded demo_init_def]] s(2) by simp
  show "map fst (kvs demo_sm1) = [''__fd_database/t/d'', ''__fd_database_by_id/1'', ''__fd_id_gen/database_id'']"
    by (rule demo_sm1_facts)
qed

text \<open>
  C3: The step relation of the concurrent system leaves out nothing the code does: from every
  reachable state with room in the sequence, one turn of each of the seven operations that
  change the schema, with any request, ends in a state that the system reaches by its steps.
\<close>

theorem schema_turns_are_runs:
  assumes "codec_laws C" and "(schema_step C)\<^sup>*\<^sup>* (sys_init (sm_open sm_empty)) s"
    and "unat (kv_counter (sys_sm s)) + 8 < 2 ^ 64"
  shows "sys_run C s (snd (create_database_step (sm_kv_api now) C r1 (sys_sm s)))
    \<and> sys_run C s (snd (drop_database_step (sm_kv_api now) C r2 (sys_sm s)))
    \<and> sys_run C s (snd (rename_database_step (sm_kv_api now) C r3 (sys_sm s)))
    \<and> sys_run C s (snd (create_table_step (sm_kv_api now) C r4 (sys_sm s)))
    \<and> sys_run C s (snd (drop_table_step (sm_kv_api now) C r5 (sys_sm s)))
    \<and> sys_run C s (snd (rename_table_step (sm_kv_api now) C r6 (sys_sm s)))
    \<and> sys_run C s (snd (upsert_table_option_step (sm_kv_api now) C r7 (sys_sm s)))"
proof -
  note inv = schema_reachable_inv[OF assms(1,2) sys_inv_init]
  note turns = create_database_turn drop_database_turn rename_database_turn create_table_turn drop_table_turn
    rename_table_turn upsert_table_option_turn
  show ?thesis by (intro conjI turns[OF inv assms(3)])
qed

theorem schema_turns_are_runs_witness:
  "sys_run demo_codec (sys_init demo_init) demo_sm1 \<and> kvs demo_sm1 \<noteq> kvs demo_init"
proof
  have "sys_run demo_codec (sys_init demo_init)
      (snd (create_database_step (sm_kv_api 0) demo_codec demo_create_db (sys_sm (sys_init demo_init))))"
    using schema_turns_are_runs[OF demo_codec_laws, of "sys_init demo_init" 0 demo_create_db] demo_init_counter
    by (auto simp: demo_init_def[symmetric] sys_init_def)
  then show "sys_run demo_codec (sys_init demo_init) demo_sm1"
    by (simp add: demo_sm1_def sys_init_def)
  have "kvs demo_init = []" by code_simp
  then show "kvs demo_sm1 \<noteq> kvs demo_init" using demo_sm1_facts(2) by auto
qed



section \<open>The operations and the catalogue\<close>

text \<open>
  C5: An operation that no other client interferes with does what the catalogue says, from every
  reachable state with room in the sequence: \<open>create_database\<close>, \<open>drop_database\<close>,
  \<open>rename_database\<close>, \<open>create_table\<close>, \<open>drop_table\<close> and \<open>rename_table\<close> return in their
  first turn, with the result and the errors of the specification on four maps, and leave
  exactly the catalogue the specification leaves; the state they leave is reachable again.
\<close>

theorem schema_ops_refine_catalog:
  assumes "codec_laws C" and "(schema_step C)\<^sup>*\<^sup>* (sys_init (sm_open sm_empty)) s"
    and "unat (kv_counter (sys_sm s)) + 8 < 2 ^ 64"
  shows "op_refines C s (create_database (Suc f) (sm_kv_api now) C r1 (sys_sm s))
        (cat_create_database r1 (kv_counter (sys_sm s) + 1) (catalog_of C (sys_sm s)))
    \<and> op_refines C s (drop_database (Suc f) (sm_kv_api now) C r2 (sys_sm s)) (cat_drop_database r2 (catalog_of C (sys_sm s)))
    \<and> op_refines C s (rename_database (Suc f) (sm_kv_api now) C r3 (sys_sm s)) (cat_rename_database r3 (catalog_of C (sys_sm s)))
    \<and> op_refines C s (create_table (Suc f) (sm_kv_api now) C r4 (sys_sm s))
        (cat_create_table r4 (kv_counter (sys_sm s) + 1) (catalog_of C (sys_sm s)))
    \<and> op_refines C s (drop_table (Suc f) (sm_kv_api now) C r5 (sys_sm s)) (cat_drop_table r5 (catalog_of C (sys_sm s)))
    \<and> op_refines C s (rename_table (Suc f) (sm_kv_api now) C r6 (sys_sm s)) (cat_rename_table r6 (catalog_of C (sys_sm s)))"
  by (intro conjI schema_ops_refine[OF assms(1) schema_reachable_inv[OF assms(1,2) sys_inv_init] assms(3)])

theorem schema_ops_refine_catalog_witness:
  "op_refines demo_codec (sys_init demo_init) (create_database 1 (sm_kv_api 0) demo_codec demo_create_db demo_init)
     (cat_create_database demo_create_db 1 (catalog_of demo_codec demo_init))
   \<and> fst (create_database 1 (sm_kv_api 0) demo_codec demo_create_db demo_init) = Some (Inr 1)
   \<and> c_dbs (catalog_of demo_codec demo_sm1) demo_db = Some 1"
proof (intro conjI)
  show "op_refines demo_codec (sys_init demo_init) (create_database 1 (sm_kv_api 0) demo_codec demo_create_db demo_init)
     (cat_create_database demo_create_db 1 (catalog_of demo_codec demo_init))"
    using schema_ops_refine_catalog[OF demo_codec_laws, of "sys_init demo_init" 0 0 demo_create_db] demo_init_counter
    by (simp add: demo_init_def[symmetric] sys_init_def One_nat_def)
  show "fst (create_database 1 (sm_kv_api 0) demo_codec demo_create_db demo_init) = Some (Inr 1)" by code_simp
  show "c_dbs (catalog_of demo_codec demo_sm1) demo_db = Some 1" by (rule demo_sm1_facts)
qed




text \<open>
  C7: Listing is complete and exact. In every reachable state of a store that holds nothing but
  schema keys whose names are valid strings, \<open>list_databases\<close> returns each database of the
  tenant once, exactly those \<open>get_database\<close> finds and with the same id, sequence and meta, and
  \<open>list_tables\<close> returns each table of an existing database once, exactly those \<open>get_table\<close>
  finds. Only the description differs: \<open>get_table\<close> puts the tenant in it and \<open>list_tables\<close>
  does not.
\<close>

theorem schema_lists_are_exact:
  assumes "codec_laws C" and "(schema_step C)\<^sup>*\<^sup>* (sys_init (sm_open sm_empty)) s" and "schema_store (sys_sm s)"
    and "c_dbs (catalog_of C (sys_sm s)) n = Some d"
  shows "(\<exists>infos. list_databases (sm_kv_api now) C tenant (sys_sm s) = (Inr infos, sys_sm s)
        \<and> distinct (map dinfo_name_ident infos)
        \<and> (\<forall>info. info \<in> set infos \<longleftrightarrow> dn_tenant (dinfo_name_ident info) = tenant
              \<and> get_database (sm_kv_api now) C (dinfo_name_ident info) (sys_sm s) = (Inr info, sys_sm s)))
    \<and> (\<exists>infos. list_tables (sm_kv_api now) C n (sys_sm s) = (Inr infos, sys_sm s)
        \<and> distinct (map tinfo_name infos)
        \<and> (\<forall>info. info \<in> set infos \<longleftrightarrow> tinfo_desc info = quoted (dn_db_name n) @ ''.'' @ quoted (tinfo_name info)
              \<and> get_table (sm_kv_api now) C (tb_name n (tinfo_name info)) (sys_sm s)
                  = (Inr (info\<lparr>tinfo_desc := TableNameIdent_display (tb_name n (tinfo_name info))\<rparr>), sys_sm s)))"
proof -
  note ok = sys_inv_schema_ok[OF schema_reachable_inv[OF assms(1,2) sys_inv_init]]
  obtain v w m where "db_at C (sys_sm s) n d v w m"
    by (cases rule: db_cases[OF ok, of n, case_names no_db db]) (use assms(4) in \<open>auto simp: db_at_def\<close>)
  then show ?thesis by (intro conjI list_databases_alone[OF ok assms(3)] list_tables_alone[OF ok assms(3)])
qed


end
