(* ===== verification/Schema_Identity.thy ===== *)
theory Schema_Identity
  imports Schema_Laws
begin

text \<open>
  What stays the same when the schema changes: an id and its meta survive renames, a version is
  checked before options are changed, and the tables of a dropped database stay behind.
\<close>

section \<open>Listing the demo store\<close>

lemma demo_sm2_wf: "sm_ok demo_sm2"
proof -
  obtain s where s: "(schema_step demo_codec)\<^sup>*\<^sup>* (sys_init (sm_open sm_empty)) s" "sys_sm s = demo_sm2" by (rule demo_sm2_state)
  from sys_inv_sm[OF schema_reachable_inv[OF demo_codec_laws s(1) sys_inv_init]] s(2) show ?thesis by simp
qed

lemma demo_sm2_store: "schema_store demo_sm2"
  unfolding schema_store_def
proof (intro allI impI)
  fix k v assume "ks_get (kvs demo_sm2) k = Some v"
  then have "k \<in> set (map fst (kvs demo_sm2))" by (force simp: ks_get_def dest: map_of_SomeD)
  then consider "k = DatabaseNameIdent_to_key demo_db" | "k = db_key 1" | "k = DatabaseIdGen_to_key" | "k = TableIdGen_to_key"
    | "k = DBIdTableName_to_key \<lparr>dt_db_id = 1, dt_table_name = ''x''\<rparr>" | "k = table_key 4"
    unfolding demo_sm2_facts(2) by auto
  then show "schema_key k
     \<and> (\<forall>n. k = DatabaseNameIdent_to_key n \<longrightarrow> valid_utf8 (dn_tenant n) \<and> valid_utf8 (dn_db_name n))
     \<and> (\<forall>n. k = DBIdTableName_to_key n \<longrightarrow> valid_utf8 (dt_table_name n))"
    by cases (auto simp: schema_key.intros demo_db_def)
qed

theorem schema_lists_are_exact_witness:
  "fst (list_databases (sm_kv_api 0) demo_codec ''t'' demo_sm2)
     = Inr [demo_db_info]
   \<and> (\<exists>infos. list_tables (sm_kv_api 0) demo_codec demo_db demo_sm2 = (Inr infos, demo_sm2) \<and> distinct (map tinfo_name infos))"
proof
  show "fst (list_databases (sm_kv_api 0) demo_codec ''t'' demo_sm2) = Inr [demo_db_info]" by (rule demo_sm2_facts)
  obtain s where s: "(schema_step demo_codec)\<^sup>*\<^sup>* (sys_init (sm_open sm_empty)) s" "sys_sm s = demo_sm2" by (rule demo_sm2_state)
  from demo_sm2_facts(3) schema_lists_are_exact[OF demo_codec_laws s(1), of demo_db 1 0 "''t''"] demo_sm2_store
  show "\<exists>infos. list_tables (sm_kv_api 0) demo_codec demo_db demo_sm2 = (Inr infos, demo_sm2) \<and> distinct (map tinfo_name infos)"
    unfolding s(2) by blast
qed



section \<open>Renames\<close>

lemma prod_of_fst: "fst p = a \<Longrightarrow> p = (a, snd p)"
  by (cases p) simp

lemma get_database_pure:
  assumes ok: "schema_ok C sm" and g: "fst (get_database (sm_kv_api now) C n sm) = Inr i"
  shows "get_database (sm_kv_api now) C n sm = (Inr i, sm)"
proof (cases rule: db_cases[OF ok, of n, case_names no_db db])
  case no_db
  with get_database_none[OF ok no_db(1), of now] g show ?thesis by simp
next
  case (db d v w m)
  with get_database_at[OF schema_okD[OF ok] db, of now] g show ?thesis by simp
qed

lemma get_table_pure:
  assumes ok: "schema_ok C sm" and g: "fst (get_table (sm_kv_api now) C n sm) = Inr i"
  shows "get_table (sm_kv_api now) C n sm = (Inr i, sm)"
proof -
  obtain d v w m t x u tm where "db_at C sm (db_name_ident n) d v w m"
      "table_at C sm \<lparr>dt_db_id = d, dt_table_name = tn_table_name n\<rparr> t x u tm"
    by (rule get_table_some_at[OF ok, of now n]) (use g in \<open>simp_all add: is_ok_def\<close>)
  from get_table_at[OF schema_okD[OF ok] this, of now] g show ?thesis by simp
qed





section \<open>Versions of a table\<close>

lemma get_table_by_id_at:
  assumes ok: "schema_ok C sm" and u: "ks_get (kvs sm) (table_key t) = Some u" "deserialize_table_meta C (sv_data u) = Inr m"
  shows "get_table_by_id (sm_kv_api now) C t sm = (Inr (\<lparr>ti_table_id = t, ti_seq = sv_seq u\<rparr>, m), sm)"
  using get_table_value_Some[OF schema_okD[OF ok] u] seq_not_zero[OF ok u(1)] by (simp add: get_table_by_id_def)

lemma get_table_by_id_some:
  assumes ok: "schema_ok C sm" and g: "fst (get_table_by_id (sm_kv_api now) C t sm) = Inr (i, m)"
  obtains u where "ks_get (kvs sm) (table_key t) = Some u" "deserialize_table_meta C (sv_data u) = Inr m"
    "i = \<lparr>ti_table_id = t, ti_seq = sv_seq u\<rparr>"
proof -
  have "c_table_meta (catalog_of C sm) t = Some m"
    using get_table_by_id_cat[OF ok, of now t] g by (auto simp: cat_get_table_by_id_def split: option.splits)
  then obtain u where u: "ks_get (kvs sm) (table_key t) = Some u" "deserialize_table_meta C (sv_data u) = Inr m"
    by (auto simp: cat_of_def view_data_def bind_eq_Some_conv)
  from that[OF u] get_table_by_id_at[OF ok u, of now] g show thesis by simp
qed

lemma upsert_table_option_run:
  assumes C: "codec_laws C" and inv: "sys_inv C s" and room: "unat (kv_counter (sys_sm s)) + 8 < 2 ^ 64"
    and r: "upsert_table_option (Suc f) (sm_kv_api now) C req (sys_sm s) = (Some r, sm')"
    and one: "fst (upsert_table_option (Suc 0) (sm_kv_api now) C req (sys_sm s)) \<noteq> None"
  shows "schema_ok C sm'"
proof -
  have "upsert_table_option (Suc f) (sm_kv_api now) C req (sys_sm s) = upsert_table_option (Suc 0) (sm_kv_api now) C req (sys_sm s)"
    using one unfolding upsert_table_option_def by (rule retry_more)
  with r retry_one[of "upsert_table_option_step (sm_kv_api now) C req" "sys_sm s"]
  have "sm' = snd (upsert_table_option_step (sm_kv_api now) C req (sys_sm s))"
    unfolding upsert_table_option_def by (metis snd_conv)
  with sys_run_schema_ok[OF C inv upsert_table_option_turn[OF inv room]] show ?thesis by simp
qed

text \<open>
  C9: Options are changed against a version. Where \<open>get_table_by_id\<close> finds a table,
  \<open>upsert_table_option\<close> with a version condition that holds succeeds, and the table then has the
  options it had, updated with those of the request, in a newer version, and is otherwise the
  same; with a condition that does not hold it returns the version mismatch and changes nothing.
\<close>

theorem table_option_versions:
  assumes "codec_laws C" and "(schema_step C)\<^sup>*\<^sup>* (sys_init (sm_open sm_empty)) s"
    and "unat (kv_counter (sys_sm s)) + 8 < 2 ^ 64"
    and "fst (get_table_by_id (sm_kv_api now) C (uo_table_id req) (sys_sm s)) = Inr (i, m)"
  shows "if is_ok (match_seq (uo_seq req) (ti_seq i))
    then fst (upsert_table_option (Suc f) (sm_kv_api now) C req (sys_sm s)) = Some (Inr ())
      \<and> (\<exists>q. ti_seq i < q
          \<and> fst (get_table_by_id (sm_kv_api now) C (uo_table_id req)
                   (snd (upsert_table_option (Suc f) (sm_kv_api now) C req (sys_sm s))))
              = Inr (i\<lparr>ti_seq := q\<rparr>, m\<lparr>tm_options := update_options (uo_options req) (tm_options m)\<rparr>))
    else upsert_table_option (Suc f) (sm_kv_api now) C req (sys_sm s)
       = (Some (Inl (AppErr (TableVersionMismatched (uo_table_id req) (uo_seq req) (ti_seq i) ''upsert_table_option''))), sys_sm s)"
proof -
  let ?t = "uo_table_id req" and ?m = "m\<lparr>tm_options := update_options (uo_options req) (tm_options m)\<rparr>"
  note inv = schema_reachable_inv[OF assms(1,2) sys_inv_init]
  note ok = sys_inv_schema_ok[OF inv]
  obtain u where u: "ks_get (kvs (sys_sm s)) (table_key ?t) = Some u" "deserialize_table_meta C (sv_data u) = Inr m"
      and i: "i = \<lparr>ti_table_id = ?t, ti_seq = sv_seq u\<rparr>"
    by (rule get_table_by_id_some[OF ok assms(4)])
  note alone = upsert_table_option_alone[OF assms(1) ok assms(3) u]
  show ?thesis
  proof (cases "is_ok (match_seq (uo_seq req) (sv_seq u))")
    case True
    obtain sm' u' where r: "upsert_table_option (Suc f) (sm_kv_api now) C req (sys_sm s) = (Some (Inr ()), sm')"
        and c: "catalog_of C sm' = (catalog_of C (sys_sm s))\<lparr>c_table_meta := (c_table_meta (catalog_of C (sys_sm s)))(?t \<mapsto> ?m)\<rparr>"
        and u': "ks_get (kvs sm') (table_key ?t) = Some u'" and less: "sv_seq u < sv_seq u'"
      using alone[of f now] True by auto
    have ok': "schema_ok C sm'"
      by (rule upsert_table_option_run[OF assms(1) inv assms(3) r]) (use alone[of 0 now] True in auto)
    have "c_table_meta (catalog_of C sm') ?t = Some ?m" by (simp add: c)
    then have "deserialize_table_meta C (sv_data u') = Inr ?m" using u' by (simp add: cat_of_def view_data_def)
    from get_table_by_id_at[OF ok' u' this, of now] r less True show ?thesis by (auto simp: i)
  next
    case False
    then show ?thesis using alone[of f now] by (simp add: i)
  qed
qed

section \<open>Dropping a database\<close>

text \<open>
  C27: Dropping a database does not drop its tables. From every reachable state in which a table
  can be read by its name, \<open>drop_database\<close> of its database succeeds, whether it has tables or
  not; after that the name of the table is not found any more, but \<open>get_table_by_id\<close> still
  returns the table.
\<close>

theorem drop_database_leaves_tables:
  assumes "codec_laws C" and "(schema_step C)\<^sup>*\<^sup>* (sys_init (sm_open sm_empty)) s"
    and "unat (kv_counter (sys_sm s)) + 8 < 2 ^ 64"
    and "fst (get_table (sm_kv_api now) C n (sys_sm s)) = Inr ti"
    and "dd_name_ident req = db_name_ident n"
  shows "\<exists>sm'. drop_database (Suc f) (sm_kv_api now) C req (sys_sm s) = (Some (Inr ()), sm')
    \<and> fst (get_table (sm_kv_api now) C n sm')
        = Inl (unknown_db (db_name_ident n) (''get_table: '' @ TableNameIdent_display n))
    \<and> map_sum id snd (fst (get_table_by_id (sm_kv_api now) C (ti_table_id (tinfo_ident ti)) sm')) = Inr (tinfo_meta ti)"
proof -
  let ?c = "catalog_of C (sys_sm s)"
  note inv = schema_reachable_inv[OF assms(1,2) sys_inv_init]
  note ok = sys_inv_schema_ok[OF inv]
  obtain d v w m t x u tm where db: "db_at C (sys_sm s) (db_name_ident n) d v w m"
    and tb: "table_at C (sys_sm s) \<lparr>dt_db_id = d, dt_table_name = tn_table_name n\<rparr> t x u tm"
    by (rule get_table_some_at[OF ok, of now n]) (use assms(4) in \<open>simp_all add: is_ok_def\<close>)
  have ti: "ti_table_id (tinfo_ident ti) = t" "tinfo_meta ti = tm"
    using get_table_at[OF schema_okD[OF ok] db tb, of now] assms(4) by auto
  have c: "c_dbs ?c (db_name_ident n) = Some d" "c_table_meta ?c t = Some tm"
    using db tb by (simp_all add: db_at_def table_at_def)
  let ?run = "drop_database (Suc f) (sm_kv_api now) C req (sys_sm s)"
  have r: "fst ?run = Some (Inr ())" "catalog_of C (snd ?run)
      = ?c\<lparr>c_dbs := (c_dbs ?c)(db_name_ident n := None), c_db_meta := (c_db_meta ?c)(d := None)\<rparr>" "sys_run C s (snd ?run)"
    using schema_ops_refine(2)[OF assms(1) inv assms(3), of f now req]
    by (simp_all add: op_refines_def cat_drop_database_def Let_def assms(5) c)
  note ok' = sys_run_schema_ok[OF assms(1) inv r(3)]
  have "map_sum id (\<lambda>i. (ti_table_id (tinfo_ident i), tinfo_meta i)) (fst (get_table (sm_kv_api now) C n (snd ?run)))
      = Inl (unknown_db (db_name_ident n) (''get_table: '' @ TableNameIdent_display n))"
    unfolding get_table_cat[OF ok'] r(2) by (simp add: cat_get_table_def)
  moreover have "map_sum id snd (fst (get_table_by_id (sm_kv_api now) C t (snd ?run))) = Inr tm"
    unfolding get_table_by_id_cat[OF ok'] r(2) by (simp add: cat_get_table_by_id_def c)
  ultimately show ?thesis
    using prod_of_fst[OF r(1)] ti by (intro exI[of _ "snd ?run"]) (cases "fst (get_table (sm_kv_api now) C n (snd ?run))"; simp)
qed

section \<open>Witnesses\<close>

definition demo_option :: UpsertTableOptionReq where
  "demo_option = \<lparr>uo_table_id = 4, uo_seq = Exact 7, uo_options = [(''o'', Some ''p'')]\<rparr>"

definition demo_drop :: DropDatabaseReq where
  "demo_drop = \<lparr>dd_if_exists = False, dd_name_ident = demo_db\<rparr>"

theorem table_option_versions_witness:
  "\<exists>q > 7. fst (get_table_by_id (sm_kv_api 0) demo_codec 4
                   (snd (upsert_table_option (Suc 0) (sm_kv_api 0) demo_codec demo_option demo_sm2)))
              = Inr (\<lparr>ti_table_id = 4, ti_seq = q\<rparr>, demo_table_meta\<lparr>tm_options := [(''o'', ''p'')]\<rparr>)"
proof -
  obtain s where s: "(schema_step demo_codec)\<^sup>*\<^sup>* (sys_init (sm_open sm_empty)) s" "sys_sm s = demo_sm2" by (rule demo_sm2_state)
  have i: "uo_table_id demo_option = 4" "is_ok (match_seq (uo_seq demo_option) 7)"
      "update_options (uo_options demo_option) (tm_options demo_table_meta) = [(''o'', ''p'')]"
    by code_simp+
  show ?thesis
    using table_option_versions[OF demo_codec_laws s(1), of 0 demo_option "\<lparr>ti_table_id = 4, ti_seq = 7\<rparr>" demo_table_meta 0]
    using demo_sm2_facts unfolding s(2) i(1) by (simp add: demo_counters i)
qed

theorem drop_database_leaves_tables_witness:
  "\<exists>sm'. drop_database (Suc 0) (sm_kv_api 0) demo_codec demo_drop demo_sm2 = (Some (Inr ()), sm')
     \<and> map_sum id snd (fst (get_table_by_id (sm_kv_api 0) demo_codec 4 sm')) = Inr demo_table_meta"
proof -
  obtain s where s: "(schema_step demo_codec)\<^sup>*\<^sup>* (sys_init (sm_open sm_empty)) s" "sys_sm s = demo_sm2" by (rule demo_sm2_state)
  have n: "dd_name_ident demo_drop = db_name_ident demo_table" "ti_table_id (tinfo_ident demo_tb_info) = 4"
      "tinfo_meta demo_tb_info = demo_table_meta"
    by (simp_all add: demo_drop_def demo_db_def db_name_ident_def demo_table_def demo_tb_info_def)
  show ?thesis
    using drop_database_leaves_tables[OF demo_codec_laws s(1), of 0 demo_table demo_tb_info demo_drop 0, OF _ _ n(1)]
    using demo_sm2_facts unfolding s(2) n(2,3) by (simp add: demo_counters) blast
qed

end
