(* ===== verification/Lru_Cache.thy ===== *)
theory Lru_Cache
  imports Meta_Prelude
begin

text \<open>
  The cache of \<open>common/cache\<close>: meters and \<open>LruCache\<close>. The linked hash map below it
  (\<open>ritelinked::LinkedHashMap\<close>) is a parameter, a record of the operations the cache calls, and
  \<open>lhm_laws\<close> is what its documentation says of them: it lists its pairs in the order in which
  they were inserted or refreshed. A \<open>usize\<close> is a word of 64 bits whose sums wrap around, as in
  a release build.
\<close>

section \<open>The linked hash map\<close>

record ('k, 'v, 'm) linked_hash_map =
  lh_new :: 'm
  lh_iter :: "'m \<Rightarrow> ('k \<times> 'v) list"
  lh_get :: "'k \<Rightarrow> 'm \<Rightarrow> 'v option"
  lh_get_refresh :: "'k \<Rightarrow> 'm \<Rightarrow> 'v option \<times> 'm"
  lh_update :: "'k \<Rightarrow> ('v \<Rightarrow> 'v) \<Rightarrow> 'm \<Rightarrow> 'm"
  lh_front :: "'m \<Rightarrow> ('k \<times> 'v) option"
  lh_contains_key :: "'k \<Rightarrow> 'm \<Rightarrow> bool"
  lh_insert :: "'k \<Rightarrow> 'v \<Rightarrow> 'm \<Rightarrow> 'v option \<times> 'm"
  lh_remove :: "'k \<Rightarrow> 'm \<Rightarrow> 'v option \<times> 'm"
  lh_pop_front :: "'m \<Rightarrow> ('k \<times> 'v) option \<times> 'm"
  lh_len :: "'m \<Rightarrow> nat"
  lh_clear :: "'m \<Rightarrow> 'm"

definition al_del :: "'k \<Rightarrow> ('k \<times> 'v) list \<Rightarrow> ('k \<times> 'v) list" where
  "al_del k xs = filter (\<lambda>kv. fst kv \<noteq> k) xs"

definition al_touch :: "'k \<Rightarrow> ('k \<times> 'v) list \<Rightarrow> ('k \<times> 'v) list" where
  "al_touch k xs = (case map_of xs k of None \<Rightarrow> xs | Some v \<Rightarrow> al_del k xs @ [(k, v)])"

definition al_modify :: "'k \<Rightarrow> ('v \<Rightarrow> 'v) \<Rightarrow> ('k \<times> 'v) list \<Rightarrow> ('k \<times> 'v) list" where
  "al_modify k f xs = map (\<lambda>(k', v). (k', if k' = k then f v else v)) xs"

text \<open>
  \<open>lh_update\<close> is a write through the reference that \<open>get_mut\<close> or \<open>get_refresh\<close> returned.
\<close>

definition lhm_laws :: "('k, 'v, 'm) linked_hash_map \<Rightarrow> bool" where
  "lhm_laws L \<longleftrightarrow>
     lh_iter L (lh_new L) = []
   \<and> (\<forall>m. distinct (map fst (lh_iter L m)))
   \<and> (\<forall>k m. lh_get L k m = map_of (lh_iter L m) k)
   \<and> (\<forall>k m. fst (lh_get_refresh L k m) = map_of (lh_iter L m) k
          \<and> lh_iter L (snd (lh_get_refresh L k m)) = al_touch k (lh_iter L m))
   \<and> (\<forall>k f m. lh_iter L (lh_update L k f m) = al_modify k f (lh_iter L m))
   \<and> (\<forall>m. lh_front L m = (case lh_iter L m of [] \<Rightarrow> None | kv # _ \<Rightarrow> Some kv))
   \<and> (\<forall>k m. lh_contains_key L k m \<longleftrightarrow> k \<in> fst ` set (lh_iter L m))
   \<and> (\<forall>k v m. fst (lh_insert L k v m) = map_of (lh_iter L m) k
          \<and> lh_iter L (snd (lh_insert L k v m)) = al_del k (lh_iter L m) @ [(k, v)])
   \<and> (\<forall>k m. fst (lh_remove L k m) = map_of (lh_iter L m) k
          \<and> lh_iter L (snd (lh_remove L k m)) = al_del k (lh_iter L m))
   \<and> (\<forall>m. fst (lh_pop_front L m) = (case lh_iter L m of [] \<Rightarrow> None | kv # _ \<Rightarrow> Some kv)
          \<and> lh_iter L (snd (lh_pop_front L m)) = tl (lh_iter L m))
   \<and> (\<forall>m. lh_len L m = length (lh_iter L m))
   \<and> (\<forall>m. lh_iter L (lh_clear L m) = [])"


section \<open>Meters\<close>

text \<open>
  A meter measures a pair and adds and subtracts measures. \<open>Count\<close> stores nothing and leaves the
  size to the map; the meters with \<open>Measure = usize\<close> add up words.
\<close>

record ('k, 'v, 'ms) meter =
  m_default :: 'ms
  m_measure :: "'k \<Rightarrow> 'v \<Rightarrow> 'ms"
  m_add :: "'ms \<Rightarrow> 'ms \<Rightarrow> 'ms"
  m_sub :: "'ms \<Rightarrow> 'ms \<Rightarrow> 'ms"
  m_size :: "'ms \<Rightarrow> u64 option"

definition Count :: "('k, 'v, unit) meter" where
  "Count = \<lparr>m_default = (), m_measure = (\<lambda>_ _. ()), m_add = (\<lambda>_ _. ()), m_sub = (\<lambda>_ _. ()), m_size = (\<lambda>_. None)\<rparr>"

definition usize_meter :: "('k \<Rightarrow> 'v \<Rightarrow> u64) \<Rightarrow> ('k, 'v, u64) meter" where
  "usize_meter f = \<lparr>m_default = 0, m_measure = f, m_add = (+), m_sub = (-), m_size = Some\<rparr>"

definition BytesMeter :: "('k, bytes, u64) meter" where
  "BytesMeter = usize_meter (\<lambda>_ v. of_nat (length v))"

definition FileSize :: "('k, u64, u64) meter" where
  "FileSize = usize_meter (\<lambda>_ v. v)"


section \<open>The cache\<close>

record ('m, 'ms) LruCache =
  lc_map :: 'm
  current_measure :: 'ms
  max_capacity :: u64

definition LruCache_with_meter :: "('k, 'v, 'm) linked_hash_map \<Rightarrow> ('k, 'v, 'ms) meter \<Rightarrow> u64 \<Rightarrow> ('m, 'ms) LruCache" where
  "LruCache_with_meter L M capacity = \<lparr>lc_map = lh_new L, current_measure = m_default M, max_capacity = capacity\<rparr>"

definition lru_get :: "('k, 'v, 'm) linked_hash_map \<Rightarrow> 'k \<Rightarrow> ('m, 'ms) LruCache \<Rightarrow> 'v option \<times> ('m, 'ms) LruCache" where
  "lru_get L k self = (let (v, m) = lh_get_refresh L k (lc_map self) in (v, self\<lparr>lc_map := m\<rparr>))"

text \<open>\<open>f\<close> is what the caller does to the value through the reference it gets.\<close>

definition lru_get_mut ::
  "('k, 'v, 'm) linked_hash_map \<Rightarrow> 'k \<Rightarrow> ('v \<Rightarrow> 'v) \<Rightarrow> ('m, 'ms) LruCache \<Rightarrow> 'v option \<times> ('m, 'ms) LruCache" where
  "lru_get_mut L k f self =
     (let (v, m) = lh_get_refresh L k (lc_map self) in (v, self\<lparr>lc_map := lh_update L k f m\<rparr>))"

definition lru_peek :: "('k, 'v, 'm) linked_hash_map \<Rightarrow> 'k \<Rightarrow> ('m, 'ms) LruCache \<Rightarrow> 'v option" where
  "lru_peek L k self = lh_get L k (lc_map self)"

definition lru_peek_mut ::
  "('k, 'v, 'm) linked_hash_map \<Rightarrow> 'k \<Rightarrow> ('v \<Rightarrow> 'v) \<Rightarrow> ('m, 'ms) LruCache \<Rightarrow> 'v option \<times> ('m, 'ms) LruCache" where
  "lru_peek_mut L k f self = (lh_get L k (lc_map self), self\<lparr>lc_map := lh_update L k f (lc_map self)\<rparr>)"

definition lru_peek_by_policy :: "('k, 'v, 'm) linked_hash_map \<Rightarrow> ('m, 'ms) LruCache \<Rightarrow> ('k \<times> 'v) option" where
  "lru_peek_by_policy L self = lh_front L (lc_map self)"

definition lru_contains :: "('k, 'v, 'm) linked_hash_map \<Rightarrow> 'k \<Rightarrow> ('m, 'ms) LruCache \<Rightarrow> bool" where
  "lru_contains L k self = lh_contains_key L k (lc_map self)"

definition lru_len :: "('k, 'v, 'm) linked_hash_map \<Rightarrow> ('m, 'ms) LruCache \<Rightarrow> nat" where
  "lru_len L self = lh_len L (lc_map self)"

definition lru_is_empty :: "('k, 'v, 'm) linked_hash_map \<Rightarrow> ('m, 'ms) LruCache \<Rightarrow> bool" where
  "lru_is_empty L self = (lh_len L (lc_map self) = 0)"

definition lru_size :: "('k, 'v, 'm) linked_hash_map \<Rightarrow> ('k, 'v, 'ms) meter \<Rightarrow> ('m, 'ms) LruCache \<Rightarrow> u64" where
  "lru_size L M self =
     (case m_size M (current_measure self) of Some n \<Rightarrow> n | None \<Rightarrow> of_nat (lh_len L (lc_map self)))"

definition lru_pop ::
  "('k, 'v, 'm) linked_hash_map \<Rightarrow> ('k, 'v, 'ms) meter \<Rightarrow> 'k \<Rightarrow> ('m, 'ms) LruCache \<Rightarrow> 'v option \<times> ('m, 'ms) LruCache" where
  "lru_pop L M k self =
     (case lh_remove L k (lc_map self) of
        (None, m) \<Rightarrow> (None, self\<lparr>lc_map := m\<rparr>)
      | (Some v, m) \<Rightarrow> (Some v, self\<lparr>lc_map := m, current_measure := m_sub M (current_measure self) (m_measure M k v)\<rparr>))"

definition lru_pop_by_policy ::
  "('k, 'v, 'm) linked_hash_map \<Rightarrow> ('k, 'v, 'ms) meter \<Rightarrow> ('m, 'ms) LruCache \<Rightarrow> ('k \<times> 'v) option \<times> ('m, 'ms) LruCache" where
  "lru_pop_by_policy L M self =
     (case lh_pop_front L (lc_map self) of
        (None, m) \<Rightarrow> (None, self\<lparr>lc_map := m\<rparr>)
      | (Some (k, v), m) \<Rightarrow>
          (Some (k, v), self\<lparr>lc_map := m, current_measure := m_sub M (current_measure self) (m_measure M k v)\<rparr>))"

text \<open>
  The loop \<open>while self.size() > capacity { self.pop_by_policy(); }\<close>; \<open>None\<close> is a loop that never
  ends.
\<close>

partial_function (option) pop_while_larger ::
  "('k, 'v, 'm) linked_hash_map \<Rightarrow> ('k, 'v, 'ms) meter \<Rightarrow> u64 \<Rightarrow> ('m, 'ms) LruCache \<Rightarrow> ('m, 'ms) LruCache option" where
  "pop_while_larger L M capacity self =
     (if capacity < lru_size L M self then pop_while_larger L M capacity (snd (lru_pop_by_policy L M self))
      else Some self)"

declare pop_while_larger.simps [code]

definition lru_put ::
  "('k, 'v, 'm) linked_hash_map \<Rightarrow> ('k, 'v, 'ms) meter \<Rightarrow> 'k \<Rightarrow> 'v \<Rightarrow> ('m, 'ms) LruCache
     \<Rightarrow> ('v option \<times> ('m, 'ms) LruCache) option" where
  "lru_put L M k v self =
     (let new_size = m_measure M k v;
          c = m_add M (current_measure self) new_size;
          c = (case lh_get L k (lc_map self) of None \<Rightarrow> c | Some old \<Rightarrow> m_sub M c (m_measure M k old));
          (old_val, m) = lh_insert L k v (lc_map self)
      in map_option (Pair old_val)
           (pop_while_larger L M (max_capacity self) (self\<lparr>lc_map := m, current_measure := c\<rparr>)))"

definition lru_set_capacity ::
  "('k, 'v, 'm) linked_hash_map \<Rightarrow> ('k, 'v, 'ms) meter \<Rightarrow> u64 \<Rightarrow> ('m, 'ms) LruCache \<Rightarrow> ('m, 'ms) LruCache option" where
  "lru_set_capacity L M capacity self =
     map_option (\<lambda>c. c\<lparr>max_capacity := capacity\<rparr>) (pop_while_larger L M capacity self)"

definition lru_clear ::
  "('k, 'v, 'm) linked_hash_map \<Rightarrow> ('k, 'v, 'ms) meter \<Rightarrow> ('m, 'ms) LruCache \<Rightarrow> ('m, 'ms) LruCache" where
  "lru_clear L M self = self\<lparr>lc_map := lh_clear L (lc_map self), current_measure := m_default M\<rparr>"

definition lru_iter :: "('k, 'v, 'm) linked_hash_map \<Rightarrow> ('m, 'ms) LruCache \<Rightarrow> ('k \<times> 'v) list" where
  "lru_iter L self = lh_iter L (lc_map self)"

text \<open>\<open>f\<close> is what the caller does to each value it gets from the iterator.\<close>

definition lru_iter_mut ::
  "('k, 'v, 'm) linked_hash_map \<Rightarrow> ('k \<Rightarrow> 'v \<Rightarrow> 'v) \<Rightarrow> ('m, 'ms) LruCache \<Rightarrow> ('m, 'ms) LruCache" where
  "lru_iter_mut L f self = self\<lparr>lc_map := fold (\<lambda>k. lh_update L k (f k)) (map fst (lru_iter L self)) (lc_map self)\<rparr>"

text \<open>\<open>extend\<close>: one \<open>put\<close> after the other.\<close>

fun lru_extend ::
  "('k, 'v, 'm) linked_hash_map \<Rightarrow> ('k, 'v, 'ms) meter \<Rightarrow> ('k \<times> 'v) list \<Rightarrow> ('m, 'ms) LruCache
     \<Rightarrow> ('m, 'ms) LruCache option" where
  "lru_extend L M [] self = Some self"
| "lru_extend L M ((k, v) # kvs) self =
     Option.bind (lru_put L M k v self) (\<lambda>(_, self). lru_extend L M kvs self)"



section \<open>Runs\<close>

text \<open>A client that uses the cache: its calls one after the other, and what they return.\<close>

datatype ('k, 'v) lru_op = Put 'k 'v | Get 'k | Pop 'k | PopByPolicy | SetCapacity u64 | Clear

fun lru_step ::
  "('k, 'v, 'm) linked_hash_map \<Rightarrow> ('k, 'v, 'ms) meter \<Rightarrow> ('k, 'v) lru_op \<Rightarrow> ('m, 'ms) LruCache
     \<Rightarrow> ('v option \<times> ('m, 'ms) LruCache) option" where
  "lru_step L M (Put k v) c = lru_put L M k v c"
| "lru_step L M (Get k) c = Some (lru_get L k c)"
| "lru_step L M (Pop k) c = Some (lru_pop L M k c)"
| "lru_step L M PopByPolicy c = (case lru_pop_by_policy L M c of (r, c) \<Rightarrow> Some (map_option snd r, c))"
| "lru_step L M (SetCapacity n) c = map_option (Pair None) (lru_set_capacity L M n c)"
| "lru_step L M Clear c = Some (None, lru_clear L M c)"

fun lru_run ::
  "('k, 'v, 'm) linked_hash_map \<Rightarrow> ('k, 'v, 'ms) meter \<Rightarrow> ('k, 'v) lru_op list \<Rightarrow> ('m, 'ms) LruCache
     \<Rightarrow> ('v option list \<times> ('m, 'ms) LruCache) option" where
  "lru_run L M [] c = Some ([], c)"
| "lru_run L M (op # ops) c =
     Option.bind (lru_step L M op c) (\<lambda>(r, c). map_option (apfst (Cons r)) (lru_run L M ops c))"

end
