(* ===== verification/Disk_Cache.thy ===== *)
theory Disk_Cache
  imports Lru_Cache
begin

text \<open>
  The cache of files on disk (\<open>common/cache/src/disk_cache.rs\<close>), \<open>LruDiskCache\<close>: an LRU cache
  from relative paths to file sizes, beside the files themselves. A file system is a map from
  absolute paths to contents: an operation on a file that is not there fails, directories can
  always be created, and no other failure of the operating system is modelled. What the
  directory walk of \<open>walkdir\<close> returns is an argument.
\<close>

section \<open>Files\<close>

type_synonym path = string
type_synonym fs = "path \<Rightarrow> bytes option"

text \<open>\<open>Path::join\<close>: an absolute path replaces the first one.\<close>

definition path_join :: "path \<Rightarrow> path \<Rightarrow> path" where
  "path_join root p =
     (if p \<noteq> [] \<and> hd p = CHR ''/'' then p
      else if root = [] \<or> last root = CHR ''/'' then root @ p else root @ ''/'' @ p)"

definition strip_prefix :: "path \<Rightarrow> path \<Rightarrow> path option" where
  "strip_prefix root p =
     (let r = (if root = [] \<or> last root = CHR ''/'' then root else root @ ''/'')
      in if take (length r) p = r then Some (drop (length r) p) else None)"

datatype dc_error = FileTooLarge | FileNotInCache | Io string | Panic string

definition remove_file :: "path \<Rightarrow> fs \<Rightarrow> (dc_error, unit, fs) st_result" where
  "remove_file p files =
     (case files p of None \<Rightarrow> (Inl (Io ''not found''), files) | Some _ \<Rightarrow> (Inr (), files(p := None)))"

definition metadata_len :: "path \<Rightarrow> fs \<Rightarrow> dc_error + u64" where
  "metadata_len p files =
     (case files p of None \<Rightarrow> Inl (Io ''not found'') | Some b \<Rightarrow> Inr (of_nat (length b)))"

text \<open>
  \<open>walked\<close> is what the walk found: modification time, path and size of each file it could read.
\<close>

definition get_all_files :: "(nat \<times> path \<times> u64) list \<Rightarrow> (path \<times> u64) list" where
  "get_all_files walked = map snd (sort_key fst walked)"


section \<open>The disk cache\<close>

record 'm DiskCache =
  dc_cache :: "('m, u64) LruCache"
  dc_root :: path

type_synonym 'm dc_state = "'m DiskCache \<times> fs"
type_synonym 'm lhm = "(path, u64, 'm) linked_hash_map"

datatype AddFile = AbsPath path | RelPath path

definition dc_size :: "'m lhm \<Rightarrow> 'm DiskCache \<Rightarrow> u64" where
  "dc_size L self = lru_size L FileSize (dc_cache self)"

definition dc_capacity :: "'m DiskCache \<Rightarrow> u64" where
  "dc_capacity self = max_capacity (dc_cache self)"

definition rel_to_abs_path :: "'m DiskCache \<Rightarrow> path \<Rightarrow> path" where
  "rel_to_abs_path self rel_path = path_join (dc_root self) rel_path"

definition can_store :: "'m DiskCache \<Rightarrow> u64 \<Rightarrow> bool" where
  "can_store self fsize \<longleftrightarrow> fsize \<le> max_capacity (dc_cache self)"

text \<open>The loop of \<open>add_file\<close>: files go until the new one has room.\<close>

partial_function (option) make_room ::
  "'m lhm \<Rightarrow> u64 \<Rightarrow> 'm dc_state \<Rightarrow> (dc_error, unit, 'm dc_state) st_result option" where
  "make_room L fsize s =
     (if max_capacity (dc_cache (fst s)) < lru_size L FileSize (dc_cache (fst s)) + fsize
      then (let (popped, c) = lru_pop_by_policy L FileSize (dc_cache (fst s)); self = (fst s)\<lparr>dc_cache := c\<rparr>
            in if popped = None then Some (Inl (Panic ''Unexpectedly empty cache!''), self, snd s)
               else let (r, files) = remove_file (rel_to_abs_path self (fst (the popped))) (snd s)
                    in if isl r then Some (Inl (Panic ''Error removing file from cache''), self, files)
                       else make_room L fsize (self, files))
      else Some (Inr (), s))"

declare make_room.simps [code]

definition add_file ::
  "'m lhm \<Rightarrow> AddFile \<Rightarrow> u64 \<Rightarrow> 'm dc_state \<Rightarrow> (dc_error, unit, 'm dc_state) st_result option" where
  "add_file L addfile_path fsize s =
     (if \<not> can_store (fst s) fsize then Some (Inl FileTooLarge, s)
      else case (case addfile_path of AbsPath p \<Rightarrow> strip_prefix (dc_root (fst s)) p | RelPath p \<Rightarrow> Some p) of
             None \<Rightarrow> Some (Inl (Panic ''Bad path?''), s)
           | Some rel_path \<Rightarrow>
               Option.bind (make_room L fsize s) (\<lambda>(r, s).
                 case r of
                   Inl e \<Rightarrow> Some (Inl e, s)
                 | Inr _ \<Rightarrow> map_option (\<lambda>(_, c). (Inr (), (fst s)\<lparr>dc_cache := c\<rparr>, snd s))
                             (lru_put L FileSize rel_path fsize (dc_cache (fst s)))))"

text \<open>\<open>by\<close> writes the file at the path it is given.\<close>

definition insert_by ::
  "'m lhm \<Rightarrow> path \<Rightarrow> u64 option \<Rightarrow> (path \<Rightarrow> fs \<Rightarrow> (dc_error, unit, fs) st_result) \<Rightarrow> 'm dc_state
     \<Rightarrow> (dc_error, unit, 'm dc_state) st_result option" where
  "insert_by L key fsize wr s =
     (let self = fst s; path = rel_to_abs_path self key
      in if (case fsize of None \<Rightarrow> False | Some n \<Rightarrow> \<not> can_store self n) then Some (Inl FileTooLarge, s)
         else case wr path (snd s) of
                (Inl e, files) \<Rightarrow> Some (Inl e, self, files)
              | (Inr _, files) \<Rightarrow>
                  (case metadata_len path files of
                     Inl e \<Rightarrow> Some (Inl e, self, files)
                   | Inr len \<Rightarrow>
                       map_option (\<lambda>(r, s).
                           case r of
                             Inr _ \<Rightarrow> (Inr (), s)
                           | Inl (Panic e) \<Rightarrow> (Inl (Panic e), s)
                           | Inl e \<Rightarrow>
                               (case remove_file (rel_to_abs_path (fst s) key) (snd s) of
                                  (Inl _, files) \<Rightarrow> (Inl (Panic ''Failed to remove file we just created!''), fst s, files)
                                | (Inr _, files) \<Rightarrow> (Inl e, fst s, files)))
                         (add_file L (RelPath key) (case fsize of None \<Rightarrow> len | Some n \<Rightarrow> n) (self, files))))"

text \<open>The closure of \<open>insert_with\<close> leaves some contents in the file and returns a result.\<close>

definition insert_with ::
  "'m lhm \<Rightarrow> path \<Rightarrow> bytes \<times> (string + unit) \<Rightarrow> 'm dc_state \<Rightarrow> (dc_error, unit, 'm dc_state) st_result option" where
  "insert_with L key written s =
     insert_by L key None
       (\<lambda>path files. (case snd written of Inl e \<Rightarrow> Inl (Io e) | Inr _ \<Rightarrow> Inr (), files(path \<mapsto> fst written))) s"

definition insert_bytes ::
  "'m lhm \<Rightarrow> path \<Rightarrow> bytes \<Rightarrow> 'm dc_state \<Rightarrow> (dc_error, unit, 'm dc_state) st_result option" where
  "insert_bytes L key content s =
     insert_by L key (Some (of_nat (length content))) (\<lambda>path files. (Inr (), files(path \<mapsto> content))) s"

text \<open>A rename, or the copy and removal it falls back to, moves the contents.\<close>

definition insert_file ::
  "'m lhm \<Rightarrow> path \<Rightarrow> path \<Rightarrow> 'm dc_state \<Rightarrow> (dc_error, unit, 'm dc_state) st_result option" where
  "insert_file L key path s =
     (case metadata_len path (snd s) of
        Inl e \<Rightarrow> Some (Inl e, s)
      | Inr fsize \<Rightarrow>
          insert_by L key (Some fsize)
            (\<lambda>new_path files. (Inr (), if new_path = path then files else files(new_path := files path, path := None))) s)"

definition contains_key :: "'m lhm \<Rightarrow> path \<Rightarrow> 'm DiskCache \<Rightarrow> bool" where
  "contains_key L key self = lru_contains L key (dc_cache self)"

definition get_file :: "'m lhm \<Rightarrow> path \<Rightarrow> 'm dc_state \<Rightarrow> (dc_error, bytes, 'm dc_state) st_result" where
  "get_file L key s =
     (let self = fst s; path = rel_to_abs_path self key; (r, c) = lru_get L key (dc_cache self); self = self\<lparr>dc_cache := c\<rparr>
      in case r of
           None \<Rightarrow> (Inl FileNotInCache, self, snd s)
         | Some _ \<Rightarrow> (case snd s path of None \<Rightarrow> (Inl (Io ''not found''), self, snd s) | Some b \<Rightarrow> (Inr b, self, snd s)))"

definition dc_remove :: "'m lhm \<Rightarrow> path \<Rightarrow> 'm dc_state \<Rightarrow> (dc_error, unit, 'm dc_state) st_result" where
  "dc_remove L key s =
     (let (r, c) = lru_pop L FileSize key (dc_cache (fst s)); self = (fst s)\<lparr>dc_cache := c\<rparr>
      in case r of
           None \<Rightarrow> (Inr (), self, snd s)
         | Some _ \<Rightarrow> (let (r, files) = remove_file (rel_to_abs_path self key) (snd s) in (r, self, files)))"

text \<open>
  \<open>init\<close> of \<open>DiskCache::new\<close>: files that are too large are removed, the others added from the
  oldest to the newest; errors are logged and only a panic stops the scan.
\<close>

fun dc_init :: "'m lhm \<Rightarrow> (path \<times> u64) list \<Rightarrow> 'm dc_state \<Rightarrow> (dc_error, unit, 'm dc_state) st_result option" where
  "dc_init L [] s = Some (Inr (), s)"
| "dc_init L ((file, fsize) # rest) s =
     (if \<not> can_store (fst s) fsize then dc_init L rest (fst s, snd (remove_file file (snd s)))
      else Option.bind (add_file L (AbsPath file) fsize s) (\<lambda>(r, s).
             case r of Inl (Panic e) \<Rightarrow> Some (Inl (Panic e), s) | _ \<Rightarrow> dc_init L rest s))"

definition DiskCache_new ::
  "'m lhm \<Rightarrow> path \<Rightarrow> u64 \<Rightarrow> (nat \<times> path \<times> u64) list \<Rightarrow> fs \<Rightarrow> (dc_error, unit, 'm dc_state) st_result option" where
  "DiskCache_new L path fsize walked files =
     dc_init L (get_all_files walked) (\<lparr>dc_cache = LruCache_with_meter L FileSize fsize, dc_root = path\<rparr>, files)"

end
