(* ===== verification/Lru_Cache_Laws.thy ===== *)
theory Lru_Cache_Laws
  imports Lru_Cache "HOL-Library.Multiset" "HOL-Library.AList"
begin

text \<open>
  The contract of a meter as a locale, with \<open>Count\<close> and the word meters as its interpretations;
  that the loops of the cache end, and what the cache holds after each operation.
\<close>

section \<open>Lists of pairs with a weight\<close>

definition al_total :: "('a \<Rightarrow> nat) \<Rightarrow> 'a list \<Rightarrow> nat" where
  "al_total w xs = sum_list (map w xs)"

lemma al_total_simps [simp]: "al_total w [] = 0" "al_total w (x # xs) = w x + al_total w xs"
  "al_total w (xs @ ys) = al_total w xs + al_total w ys"
  by (simp_all add: al_total_def)

lemma al_total_mset: "mset xs = mset ys \<Longrightarrow> al_total w xs = al_total w ys"
  unfolding al_total_def using sum_mset_sum_list by (metis mset_map)

lemma al_total_filter: "al_total w (filter P xs) \<le> al_total w xs"
  by (induction xs) auto

text \<open>The longest rest of a list that weighs at most \<open>n\<close>.\<close>

fun al_fit :: "('a \<Rightarrow> nat) \<Rightarrow> nat \<Rightarrow> 'a list \<Rightarrow> 'a list" where
  "al_fit w n [] = []"
| "al_fit w n (x # xs) = (if n < al_total w (x # xs) then al_fit w n xs else x # xs)"

lemma al_fit_weight: "al_total w (al_fit w n xs) \<le> n"
  by (induction xs) auto

lemma al_fit_suffix: "\<exists>ys. xs = ys @ al_fit w n xs"
  by (induction xs) (auto intro: exI[of _ "_ # _"])

lemma al_fit_longest: "xs = ys @ zs \<Longrightarrow> al_total w zs \<le> n \<Longrightarrow> length zs \<le> length (al_fit w n xs)"
proof (induction xs arbitrary: ys)
  case (Cons x xs)
  then show ?case by (cases ys) (auto simp: le_SucI)
qed simp

lemma al_fit_all: "al_total w xs \<le> n \<Longrightarrow> al_fit w n xs = xs"
  by (cases xs) auto

lemma distinct_al_fit: "distinct (map f xs) \<Longrightarrow> distinct (map f (al_fit w n xs))"
  by (induction xs) auto

lemma al_del_mset:
  assumes "distinct (map fst xs)" and "map_of xs k = Some v"
  shows "mset xs = add_mset (k, v) (mset (al_del k xs))"
  using assms
proof (induction xs)
  case (Cons x xs)
  show ?case
  proof (cases "fst x = k")
    case True
    then have "al_del k xs = xs"
      using Cons.prems by (auto simp: al_del_def filter_id_conv rev_image_eqI)
    moreover have "x = (k, v)" using True Cons.prems by (cases x) auto
    ultimately show ?thesis using True by (simp add: al_del_def)
  next
    case False
    then have "map_of xs k = Some v" using Cons.prems by (cases x) auto
    with Cons False show ?thesis by (simp add: al_del_def)
  qed
qed simp

lemma al_del_absent: "map_of xs k = None \<Longrightarrow> al_del k xs = xs"
  by (auto simp: al_del_def filter_id_conv map_of_eq_None_iff rev_image_eqI)

lemma al_touch_mset: "distinct (map fst xs) \<Longrightarrow> mset (al_touch k xs) = mset xs"
  by (cases "map_of xs k") (simp_all add: al_touch_def al_del_mset)



section \<open>Least recently used, on a list\<close>

text \<open>
  The specification: the pairs from the least to the most recently used, and the capacity. A
  pair that is put is the most recent one, and then as many of the least recent ones go as have
  to.
\<close>

fun spec_step :: "('k \<times> 'v \<Rightarrow> nat) \<Rightarrow> ('k, 'v) lru_op \<Rightarrow> ('k \<times> 'v) list \<times> u64 \<Rightarrow> 'v option \<times> ('k \<times> 'v) list \<times> u64" where
  "spec_step w (Put k v) (xs, n) = (map_of xs k, al_fit w (unat n) (al_del k xs @ [(k, v)]), n)"
| "spec_step w (Get k) (xs, n) = (map_of xs k, al_touch k xs, n)"
| "spec_step w (Pop k) (xs, n) = (map_of xs k, al_del k xs, n)"
| "spec_step w PopByPolicy (xs, n) = ((case xs of [] \<Rightarrow> None | x # _ \<Rightarrow> Some (snd x)), tl xs, n)"
| "spec_step w (SetCapacity n') (xs, n) = (None, al_fit w (unat n') xs, n')"
| "spec_step w Clear (xs, n) = (None, [], n)"

fun spec_run :: "('k \<times> 'v \<Rightarrow> nat) \<Rightarrow> ('k, 'v) lru_op list \<Rightarrow> ('k \<times> 'v) list \<times> u64 \<Rightarrow> 'v option list \<times> ('k \<times> 'v) list \<times> u64" where
  "spec_run w [] s = ([], s)"
| "spec_run w (op # ops) s = (let (r, s) = spec_step w op s; (rs, s) = spec_run w ops s in (r # rs, s))"

text \<open>Weights and capacities for which no sum of words wraps around.\<close>

fun op_bounded :: "('k \<times> 'v \<Rightarrow> nat) \<Rightarrow> ('k, 'v) lru_op \<Rightarrow> bool" where
  "op_bounded w (Put k v) \<longleftrightarrow> w (k, v) < 2 ^ 63"
| "op_bounded w (SetCapacity n) \<longleftrightarrow> unat n < 2 ^ 63"
| "op_bounded w _ \<longleftrightarrow> True"

lemma spec_step_fits:
  assumes "al_total w xs \<le> unat n" and "distinct (map fst xs)"
  shows "case snd (spec_step w op (xs, n)) of (ys, m) \<Rightarrow> al_total w ys \<le> unat m"
proof (cases op)
  case (Get k)
  then show ?thesis using assms al_total_mset[OF al_touch_mset[OF assms(2), of k], of w] by simp
next
  case (Pop k)
  then show ?thesis using assms(1) al_total_filter[of w _ xs] by (auto simp: al_del_def intro: order_trans)
next
  case PopByPolicy
  then show ?thesis using assms(1) by (cases xs) auto
qed (simp_all add: al_fit_weight)

lemma lhm_distinct: "lhm_laws L \<Longrightarrow> distinct (map fst (lh_iter L m))"
  by (simp add: lhm_laws_def)


section \<open>The contract of a meter\<close>

text \<open>
  The measure of a cache is a function of what it holds, whatever the order; adding a pair and
  taking one away follow it; and the size is the total weight, as long as that fits a word.
\<close>

locale countable_meter =
  fixes M :: "('k, 'v, 'ms) meter" and weight :: "'k \<times> 'v \<Rightarrow> nat" and repr :: "('k \<times> 'v) multiset \<Rightarrow> 'ms"
  assumes default: "m_default M = repr {#}"
    and add: "m_add M (repr A) (m_measure M k v) = repr (add_mset (k, v) A)"
    and sub: "m_sub M (repr (add_mset (k, v) A)) (m_measure M k v) = repr A"
    and size: "al_total weight xs < 2 ^ 64 \<Longrightarrow>
      (case m_size M (repr (mset xs)) of Some n \<Rightarrow> n | None \<Rightarrow> of_nat (length xs)) = (of_nat (al_total weight xs) :: u64)"
begin

definition holds :: "('k, 'v, 'm) linked_hash_map \<Rightarrow> ('m, 'ms) LruCache \<Rightarrow> ('k \<times> 'v) list \<Rightarrow> bool" where
  "holds L self xs \<longleftrightarrow> lh_iter L (lc_map self) = xs \<and> current_measure self = repr (mset xs)"

lemma holdsD: "holds L self xs \<Longrightarrow> lh_iter L (lc_map self) = xs"
  by (simp add: holds_def)

lemma size_holds:
  assumes "lhm_laws L" and "holds L self xs" and "al_total weight xs < 2 ^ 64"
  shows "unat (lru_size L M self) = al_total weight xs"
proof -
  have "lh_len L (lc_map self) = length xs" using assms(1,2) by (simp add: lhm_laws_def holds_def)
  moreover have "current_measure self = repr (mset xs)" using assms(2) by (simp add: holds_def)
  ultimately have "lru_size L M self = of_nat (al_total weight xs)"
    unfolding lru_size_def using size[OF assms(3)] by (cases "m_size M (repr (mset xs))") simp_all
  then show ?thesis using assms(3) by (simp add: unat_of_nat take_bit_nat_eq_self)
qed

lemma holds_new: "lhm_laws L \<Longrightarrow> holds L (LruCache_with_meter L M cap) []"
  by (simp add: holds_def LruCache_with_meter_def lhm_laws_def default)

lemma holds_clear: "lhm_laws L \<Longrightarrow> holds L (lru_clear L M self) []"
  by (simp add: holds_def lru_clear_def lhm_laws_def default)

lemma lru_holds_get:
  assumes "lhm_laws L" and "holds L self xs"
  shows "holds L (snd (lru_get L k self)) (al_touch k xs)" and "fst (lru_get L k self) = map_of xs k"
proof -
  have "distinct (map fst xs)" using assms by (auto simp: lhm_laws_def holds_def)
  then show "holds L (snd (lru_get L k self)) (al_touch k xs)" and "fst (lru_get L k self) = map_of xs k"
    using assms by (auto simp: lhm_laws_def holds_def lru_get_def case_prod_beta al_touch_mset)
qed

lemma holds_pop:
  assumes "lhm_laws L" and "holds L self xs"
  shows "holds L (snd (lru_pop L M k self)) (al_del k xs)" and "fst (lru_pop L M k self) = map_of xs k"
proof -
  have d: "distinct (map fst xs)" using assms by (auto simp: lhm_laws_def holds_def)
  obtain v m where r: "lh_remove L k (lc_map self) = (v, m)" by fastforce
  have "fst (lh_remove L k (lc_map self)) = map_of (lh_iter L (lc_map self)) k
      \<and> lh_iter L (snd (lh_remove L k (lc_map self))) = al_del k (lh_iter L (lc_map self))"
    using assms(1) by (simp add: lhm_laws_def)
  then have m: "v = map_of xs k" "lh_iter L m = al_del k xs" using r assms(2) by (simp_all add: holds_def)
  have c: "current_measure self = repr (mset xs)" using assms(2) by (simp add: holds_def)
  show "holds L (snd (lru_pop L M k self)) (al_del k xs)"
  proof (cases "map_of xs k")
    case None
    then show ?thesis by (simp add: lru_pop_def r m holds_def c al_del_absent)
  next
    case (Some w)
    then show ?thesis by (simp add: lru_pop_def r m holds_def c al_del_mset[OF d Some] sub)
  qed
  show "fst (lru_pop L M k self) = map_of xs k"
    by (cases "map_of xs k") (simp_all add: lru_pop_def r m)
qed

lemma holds_pop_front:
  assumes "lhm_laws L" and "holds L self (x # xs)"
  shows "holds L (snd (lru_pop_by_policy L M self)) xs" and "fst (lru_pop_by_policy L M self) = Some x"
    and "max_capacity (snd (lru_pop_by_policy L M self)) = max_capacity self"
proof -
  obtain r m where p: "lh_pop_front L (lc_map self) = (r, m)" by fastforce
  then have "r = Some x" "lh_iter L m = xs"
    using assms by (auto simp: lhm_laws_def holds_def dest: spec[of _ "lc_map self"])
  then show "holds L (snd (lru_pop_by_policy L M self)) xs" and "fst (lru_pop_by_policy L M self) = Some x"
    and "max_capacity (snd (lru_pop_by_policy L M self)) = max_capacity self"
    using assms(2) by (cases x; simp add: holds_def lru_pop_by_policy_def p sub)+
qed

text \<open>The loop ends, with the longest rest that fits.\<close>

lemma pop_while_larger_ends:
  assumes "lhm_laws L" and "holds L self xs" and "al_total weight xs < 2 ^ 64"
  shows "\<exists>self'. pop_while_larger L M cap self = Some self' \<and> holds L self' (al_fit weight (unat cap) xs)
    \<and> max_capacity self' = max_capacity self"
  using assms(2,3)
proof (induction xs arbitrary: self)
  case Nil
  then have "unat (lru_size L M self) = 0" using size_holds[OF assms(1)] by fastforce
  then have "\<not> cap < lru_size L M self" by (simp add: word_less_nat_alt)
  with Nil show ?case by (subst pop_while_larger.simps) simp
next
  case (Cons x xs)
  have s: "cap < lru_size L M self \<longleftrightarrow> unat cap < al_total weight (x # xs)"
    using size_holds[OF assms(1) Cons.prems] by (simp add: word_less_nat_alt)
  note p = holds_pop_front[OF assms(1) Cons.prems(1)]
  show ?case
  proof (cases "cap < lru_size L M self")
    case True
    then show ?thesis
      using Cons.IH[OF p(1)] Cons.prems(2) s p(3) by (subst pop_while_larger.simps) auto
  next
    case False
    then show ?thesis using Cons.prems(1) s by (subst pop_while_larger.simps) simp
  qed
qed

lemma lru_put_ends:
  assumes L: "lhm_laws L" and h: "holds L self xs" and t: "al_total weight (al_del k xs @ [(k, v)]) < 2 ^ 64"
  shows "\<exists>self'. lru_put L M k v self = Some (map_of xs k, self')
    \<and> holds L self' (al_fit weight (unat (max_capacity self)) (al_del k xs @ [(k, v)]))
    \<and> max_capacity self' = max_capacity self"
proof -
  have d: "distinct (map fst xs)" using L h by (auto simp: lhm_laws_def holds_def)
  obtain old m where i: "lh_insert L k v (lc_map self) = (old, m)" by fastforce
  have "fst (lh_insert L k v (lc_map self)) = map_of (lh_iter L (lc_map self)) k
      \<and> lh_iter L (snd (lh_insert L k v (lc_map self))) = al_del k (lh_iter L (lc_map self)) @ [(k, v)]"
    using L by (simp add: lhm_laws_def)
  then have m: "old = map_of xs k" "lh_iter L m = al_del k xs @ [(k, v)]" using i h by (simp_all add: holds_def)
  have g: "lh_get L k (lc_map self) = map_of xs k" using L h by (simp add: lhm_laws_def holds_def)
  let ?c = "case map_of xs k of None \<Rightarrow> m_add M (current_measure self) (m_measure M k v)
     | Some old \<Rightarrow> m_sub M (m_add M (current_measure self) (m_measure M k v)) (m_measure M k old)"
  have "?c = repr (mset (al_del k xs @ [(k, v)]))"
    using h al_del_mset[OF d, of k] al_del_absent[of xs k]
    by (auto simp: holds_def add sub add_mset_commute[of "(k, v)"] split: option.splits)
  then have h': "holds L (self\<lparr>lc_map := m, current_measure := ?c\<rparr>) (al_del k xs @ [(k, v)])"
    using m by (simp add: holds_def)
  obtain self' where "pop_while_larger L M (max_capacity self) (self\<lparr>lc_map := m, current_measure := ?c\<rparr>) = Some self'"
      "holds L self' (al_fit weight (unat (max_capacity self)) (al_del k xs @ [(k, v)]))" "max_capacity self' = max_capacity self"
    using pop_while_larger_ends[OF L h' t, of "max_capacity self"] by auto
  then show ?thesis by (simp add: lru_put_def i g m(1) Let_def)
qed

text \<open>One call does what the specification does.\<close>

lemma lru_step_holds:
  assumes L: "lhm_laws L" and h: "holds L self xs" and cap: "max_capacity self = n"
    and fits: "al_total weight xs \<le> unat n" and n: "unat n < 2 ^ 63" and op: "op_bounded weight op"
  shows "\<exists>self'. lru_step L M op self = Some (fst (spec_step weight op (xs, n)), self')
    \<and> holds L self' (fst (snd (spec_step weight op (xs, n))))
    \<and> max_capacity self' = snd (snd (spec_step weight op (xs, n)))"
proof (cases op)
  case (Put k v)
  have "al_total weight (al_del k xs @ [(k, v)]) < 2 ^ 64"
    using op Put fits n al_total_filter[of weight "\<lambda>kv. fst kv \<noteq> k" xs] by (simp add: al_del_def)
  from lru_put_ends[OF L h this] Put cap show ?thesis by auto
next
  case (Get k)
  have "max_capacity (snd (lru_get L k self)) = n" using cap by (simp add: lru_get_def case_prod_beta)
  then show ?thesis using lru_holds_get[OF L h, of k] Get by (cases "lru_get L k self") simp
next
  case (Pop k)
  have "max_capacity (snd (lru_pop L M k self)) = n" using cap by (simp add: lru_pop_def split: prod.splits option.splits)
  then show ?thesis using holds_pop[OF L h, of k] Pop by (cases "lru_pop L M k self") simp
next
  case PopByPolicy
  show ?thesis
  proof (cases xs)
    case Nil
    have "fst (lh_pop_front L (lc_map self)) = None \<and> lh_iter L (snd (lh_pop_front L (lc_map self))) = []"
      using L h Nil by (simp add: lhm_laws_def holds_def)
    then show ?thesis
      using h Nil PopByPolicy cap by (cases "lh_pop_front L (lc_map self)") (simp add: lru_pop_by_policy_def holds_def)
  next
    case (Cons x ys)
    with h have "holds L self (x # ys)" by simp
    from holds_pop_front[OF L this] show ?thesis
      using Cons PopByPolicy cap by (cases "lru_pop_by_policy L M self") simp
  qed
next
  case (SetCapacity n')
  have "al_total weight xs < 2 ^ 64" using fits n by simp
  from pop_while_larger_ends[OF L h this, of n'] show ?thesis
    using SetCapacity by (auto simp: lru_set_capacity_def holds_def)
next
  case Clear
  then show ?thesis using holds_clear[OF L, of self] cap by (simp add: lru_clear_def)
qed

lemma lru_run_holds:
  assumes L: "lhm_laws L" and h: "holds L self xs" and "max_capacity self = n"
    and "al_total weight xs \<le> unat n" and "unat n < 2 ^ 63" and "list_all (op_bounded weight) ops"
  shows "\<exists>self'. lru_run L M ops self = Some (fst (spec_run weight ops (xs, n)), self')
    \<and> holds L self' (fst (snd (spec_run weight ops (xs, n))))
    \<and> max_capacity self' = snd (snd (spec_run weight ops (xs, n)))
    \<and> al_total weight (fst (snd (spec_run weight ops (xs, n)))) \<le> unat (snd (snd (spec_run weight ops (xs, n))))
    \<and> unat (snd (snd (spec_run weight ops (xs, n)))) < 2 ^ 63"
  using assms(2-)
proof (induction ops arbitrary: self xs n)
  case (Cons op ops)
  obtain r ys m where sp: "spec_step weight op (xs, n) = (r, ys, m)" by (metis prod_cases3)
  obtain self1 where s: "lru_step L M op self = Some (r, self1)" "holds L self1 ys" "max_capacity self1 = m"
    using lru_step_holds[OF L Cons.prems(1-4), of op] Cons.prems(5) sp by auto
  have "distinct (map fst xs)" using L Cons.prems(1) by (auto simp: lhm_laws_def holds_def)
  from spec_step_fits[OF Cons.prems(3) this, of op] sp have f: "al_total weight ys \<le> unat m" by simp
  have b: "unat m < 2 ^ 63" using sp Cons.prems(4,5) by (cases op) auto
  show ?case using Cons.IH[OF s(2,3) f b] Cons.prems(5) s(1) by (auto simp: sp case_prod_beta Let_def)
qed simp

lemma lru_run_new:
  assumes "lhm_laws L" and "unat n < 2 ^ 63" and "list_all (op_bounded weight) ops"
  shows "\<exists>self'. lru_run L M ops (LruCache_with_meter L M n) = Some (fst (spec_run weight ops ([], n)), self')
    \<and> (lh_iter L (lc_map self'), max_capacity self') = snd (spec_run weight ops ([], n))
    \<and> unat (lru_size L M self') = al_total weight (lh_iter L (lc_map self')) \<and> lru_size L M self' \<le> max_capacity self'"
proof -
  have "max_capacity (LruCache_with_meter L M n) = n" by (simp add: LruCache_with_meter_def)
  from lru_run_holds[OF assms(1) holds_new[OF assms(1)] this _ assms(2,3)]
  obtain self' ys m where r: "lru_run L M ops (LruCache_with_meter L M n) = Some (fst (spec_run weight ops ([], n)), self')"
      and h: "holds L self' ys" and m: "max_capacity self' = m" "al_total weight ys \<le> unat m" "unat m < 2 ^ 63"
      and s: "snd (spec_run weight ops ([], n)) = (ys, m)"
    by (cases "snd (spec_run weight ops ([], n))") auto
  have t: "al_total weight ys < 2 ^ 64" using m by simp
  have "unat (lru_size L M self') = al_total weight ys" by (rule size_holds[OF assms(1) h t])
  then show ?thesis using r holdsD[OF h] m s by (auto simp: word_le_nat_alt)
qed

end



section \<open>The meters of the cache\<close>

interpretation count: countable_meter Count "\<lambda>_. 1" "\<lambda>_. ()"
proof unfold_locales
  fix xs :: "('k \<times> 'v) list"
  have "al_total (\<lambda>_. 1) xs = length xs" by (induction xs) simp_all
  then show "(case m_size Count () of None \<Rightarrow> of_nat (length xs) | Some n \<Rightarrow> n) = (of_nat (al_total (\<lambda>_. 1) xs) :: u64)"
    by (simp add: Count_def)
qed (simp_all add: Count_def)

interpretation usize: countable_meter "usize_meter f" "\<lambda>kv. unat (f (fst kv) (snd kv))" "\<lambda>A. \<Sum>kv\<in>#A. f (fst kv) (snd kv)"
  for f :: "'k \<Rightarrow> 'v \<Rightarrow> u64"
proof unfold_locales
  fix xs :: "('k \<times> 'v) list"
  have "(of_nat (al_total (\<lambda>kv. unat (f (fst kv) (snd kv))) xs) :: u64) = (\<Sum>kv\<leftarrow>xs. f (fst kv) (snd kv))"
    by (induction xs) simp_all
  then show "(case m_size (usize_meter f) (\<Sum>kv\<in>#mset xs. f (fst kv) (snd kv)) of None \<Rightarrow> of_nat (length xs) | Some n \<Rightarrow> n)
      = (of_nat (al_total (\<lambda>kv. unat (f (fst kv) (snd kv))) xs) :: u64)"
    by (simp add: usize_meter_def sum_mset_sum_list[symmetric])
qed (simp_all add: usize_meter_def)


section \<open>The linked hash map as a list\<close>

text \<open>That the laws can hold: the map as the list of its pairs; of a key that is there twice the first counts.\<close>

definition list_lhm :: "('k, 'v, ('k \<times> 'v) list) linked_hash_map" where
  "list_lhm = \<lparr>lh_new = [], lh_iter = AList.clearjunk, lh_get = (\<lambda>k m. map_of m k),
     lh_get_refresh = (\<lambda>k m. (map_of m k, al_touch k (AList.clearjunk m))),
     lh_update = (\<lambda>k f m. al_modify k f (AList.clearjunk m)),
     lh_front = (\<lambda>m. case m of [] \<Rightarrow> None | kv # _ \<Rightarrow> Some kv),
     lh_contains_key = (\<lambda>k m. k \<in> fst ` set m),
     lh_insert = (\<lambda>k v m. (map_of m k, al_del k (AList.clearjunk m) @ [(k, v)])),
     lh_remove = (\<lambda>k m. (map_of m k, al_del k (AList.clearjunk m))),
     lh_pop_front = (\<lambda>m. (case m of [] \<Rightarrow> None | kv # _ \<Rightarrow> Some kv, tl (AList.clearjunk m))),
     lh_len = (\<lambda>m. length (AList.clearjunk m)), lh_clear = (\<lambda>_. [])\<rparr>"

lemma distinct_al_ops:
  assumes "distinct (map fst xs)"
  shows "distinct (map fst (al_del k xs))" and "distinct (map fst (al_del k xs @ [(k, v)]))"
    and "distinct (map fst (al_touch k xs))" and "distinct (map fst (al_modify k f xs))" and "distinct (map fst (tl xs))"
proof -
  show d: "distinct (map fst (al_del k xs))" using assms by (induction xs) (auto simp: al_del_def)
  then show i: "distinct (map fst (al_del k xs @ [(k, v)]))" for v by (auto simp: al_del_def)
  then show "distinct (map fst (al_touch k xs))" using assms by (auto simp: al_touch_def split: option.splits)
  have "map fst (al_modify k f xs) = map fst xs" by (auto simp: al_modify_def)
  then show "distinct (map fst (al_modify k f xs))" using assms by simp
  show "distinct (map fst (tl xs))" using assms by (cases xs) auto
qed

lemma list_lhm_laws: "lhm_laws list_lhm"
proof -
  have c: "AList.clearjunk m = [] \<longleftrightarrow> m = []" "(case AList.clearjunk m of [] \<Rightarrow> None | kv # _ \<Rightarrow> Some kv)
      = (case m of [] \<Rightarrow> None | kv # _ \<Rightarrow> Some kv)" for m :: "('a \<times> 'b) list"
    by (cases m; simp)+
  have t: "distinct (map fst (tl (AList.clearjunk m)))" for m :: "('a \<times> 'b) list"
    by (rule distinct_al_ops(5)[OF distinct_clearjunk])
  show ?thesis
    unfolding lhm_laws_def list_lhm_def linked_hash_map.simps fst_conv snd_conv
    by (intro conjI allI distinct_clearjunk_id distinct_al_ops t distinct_clearjunk) (simp_all add: c map_of_clearjunk dom_clearjunk)
qed


section \<open>What the cache guarantees\<close>

text \<open>
  C28: The cache is a least-recently-used cache, and its loops end. From a new cache, with
  capacities and sizes below \<open>2 ^ 63\<close>, any sequence of \<open>put\<close>, \<open>get\<close>, \<open>pop\<close>, \<open>pop_by_policy\<close>,
  \<open>set_capacity\<close> and \<open>clear\<close> returns, with the results of the specification on a list from
  the least to the most recently used pair, and leaves exactly the pairs the specification
  leaves, in its order; for every meter that adds up words and for the count of the entries.
\<close>

theorem lru_run_refines:
  assumes "lhm_laws L" and "unat n < 2 ^ 63"
    and "list_all (op_bounded (\<lambda>kv. unat (f (fst kv) (snd kv)))) ops" and "list_all (op_bounded (\<lambda>_. 1)) ops'"
  shows "(\<exists>c. lru_run L (usize_meter f) ops (LruCache_with_meter L (usize_meter f) n)
            = Some (fst (spec_run (\<lambda>kv. unat (f (fst kv) (snd kv))) ops ([], n)), c)
          \<and> (lh_iter L (lc_map c), max_capacity c) = snd (spec_run (\<lambda>kv. unat (f (fst kv) (snd kv))) ops ([], n)))
    \<and> (\<exists>c. lru_run L Count ops' (LruCache_with_meter L Count n) = Some (fst (spec_run (\<lambda>_. 1) ops' ([], n)), c)
          \<and> (lh_iter L (lc_map c), max_capacity c) = snd (spec_run (\<lambda>_. 1) ops' ([], n)))"
  using usize.lru_run_new[OF assms(1-3)] count.lru_run_new[OF assms(1,2,4)] by blast

theorem lru_run_refines_witness:
  "(\<exists>c. lru_run list_lhm BytesMeter [Put (1::nat) ''ab'', Put 2 ''cd'', Get 1, Put 3 ''e'', SetCapacity 2]
          (LruCache_with_meter list_lhm BytesMeter 4) = Some ([None, None, Some ''ab'', None, None], c)
      \<and> lh_iter list_lhm (lc_map c) = [(3, ''e'')])
   \<and> (\<exists>c. lru_run list_lhm Count [SetCapacity 1, Put (1::nat) ''ab'', Put 2 ''cd''] (LruCache_with_meter list_lhm Count 4)
          = Some ([None, None, None], c) \<and> lh_iter list_lhm (lc_map c) = [(2, ''cd'')])"
proof -
  have "spec_run (\<lambda>kv. unat ((\<lambda>_ v. of_nat (length v)) (fst kv) (snd kv) :: u64))
      [Put (1::nat) ''ab'', Put 2 ''cd'', Get 1, Put 3 ''e'', SetCapacity 2] ([], 4)
      = ([None, None, Some ''ab'', None, None], [(3, ''e'')], 2)"
    by (simp add: al_del_def al_touch_def)
  moreover have "spec_run (\<lambda>_. 1) [SetCapacity 1, Put (1::nat) ''ab'', Put 2 ''cd''] ([], 4) = ([None, None, None], [(2, ''cd'')], 1)"
    by (simp add: al_del_def)
  ultimately show ?thesis
    using lru_run_refines[OF list_lhm_laws, of 4 "\<lambda>_ v. of_nat (length v)"
        "[Put (1::nat) ''ab'', Put 2 ''cd'', Get 1, Put 3 ''e'', SetCapacity 2]" "[SetCapacity 1, Put (1::nat) ''ab'', Put 2 ''cd'']"]
    by (simp add: BytesMeter_def del: spec_run.simps lru_run.simps) blast
qed


text \<open>
  C29: The cache keeps within its capacity. From a new cache, with capacities and sizes below
  \<open>2 ^ 63\<close>, after any sequence of calls the size the cache reports is the sum of the sizes of
  the pairs it holds, no wrap-around included, and is at most its capacity.
\<close>

theorem lru_within_capacity:
  assumes "lhm_laws L" and "unat n < 2 ^ 63" and "list_all (op_bounded (\<lambda>kv. unat (f (fst kv) (snd kv)))) ops"
    and "lru_run L (usize_meter f) ops (LruCache_with_meter L (usize_meter f) n) = Some (rs, c)"
  shows "unat (lru_size L (usize_meter f) c) = (\<Sum>kv\<leftarrow>lh_iter L (lc_map c). unat (f (fst kv) (snd kv)))
    \<and> lru_size L (usize_meter f) c \<le> max_capacity c"
  using usize.lru_run_new[OF assms(1-3)] assms(4) by (auto simp: al_total_def)

theorem lru_within_capacity_witness:
  "let c = snd (the (lru_run list_lhm FileSize [Put ''a'' 3, Put ''b'' 4, Put ''a'' 5] (LruCache_with_meter list_lhm FileSize 8)))
   in lh_iter list_lhm (lc_map c) = [(''a'', 5)] \<and> lru_size list_lhm FileSize c = 5 \<and> lru_size list_lhm FileSize c \<le> max_capacity c"
proof -
  let ?ops = "[Put ''a'' 3, Put ''b'' 4, Put ''a'' (5 :: u64)]" and ?c = "LruCache_with_meter list_lhm FileSize 8"
  let ?c' = "\<lparr>lc_map = [(''a'', 5 :: u64)], current_measure = 5, max_capacity = 8\<rparr>"
  have r: "lru_run list_lhm FileSize ?ops ?c = Some ([None, None, Some 3], ?c')" by code_simp
  moreover have "lru_size list_lhm FileSize ?c' \<le> max_capacity ?c'"
    using lru_within_capacity[OF list_lhm_laws, of 8 "\<lambda>_ v. v" ?ops "[None, None, Some 3]" ?c'] r[unfolded FileSize_def]
    by (simp add: FileSize_def del: lru_run.simps)
  moreover have "lh_iter list_lhm (lc_map ?c') = [(''a'', 5)]" "lru_size list_lhm FileSize ?c' = 5" by code_simp+
  ultimately show ?thesis by (simp del: lru_run.simps)
qed

text \<open>An empty map whose measure is not that of an empty map: the loop never ends.\<close>

lemma pop_while_larger_stuck:
  assumes "pop_while_larger L M cap self = Some self'" and "lhm_laws L" and "lh_iter L (lc_map self) = []"
    and "m_size M (current_measure self) = Some n"
  shows "n \<le> cap"
proof -
  let ?P = "\<lambda>L M cap self. lhm_laws L \<longrightarrow> lh_iter L (lc_map self) = [] \<longrightarrow> m_size M (current_measure self) = Some n \<longrightarrow> n \<le> cap"
  have "?P L M cap self"
  proof (rule pop_while_larger.raw_induct[OF _ assms(1), of "\<lambda>L M cap self _. ?P L M cap self"], intro impI)
    fix loop and L :: "('k, 'v, 'm) linked_hash_map" and M :: "('k, 'v, 'ms) meter" and cap :: u64 and self y
    assume IH: "\<And>L M cap self y. loop L M cap self = Some y \<Longrightarrow> ?P L M cap self"
      and step: "(if cap < lru_size L M self then loop L M cap (snd (lru_pop_by_policy L M self)) else Some self) = Some y"
      and L: "lhm_laws L" "lh_iter L (lc_map self) = []" "m_size M (current_measure self) = Some n"
    have p: "fst (lh_pop_front L (lc_map self)) = None \<and> lh_iter L (snd (lh_pop_front L (lc_map self))) = []"
      using L by (simp add: lhm_laws_def)
    then have q: "lh_iter L (lc_map (snd (lru_pop_by_policy L M self))) = []"
        "current_measure (snd (lru_pop_by_policy L M self)) = current_measure self"
      by (cases "lh_pop_front L (lc_map self)"; simp add: lru_pop_by_policy_def)+
    show "n \<le> cap"
      using step IH[of L M cap "snd (lru_pop_by_policy L M self)" y] L q by (cases "cap < lru_size L M self") (simp_all add: lru_size_def)
  qed
  then show ?thesis using assms by blast
qed


lemma minus_of_nat_large:
  assumes "0 < d" and "d + unat n < 2 ^ 64"
  shows "n < - (of_nat d :: u64)"
proof -
  have "- (of_nat d :: u64) = of_nat (2 ^ 64 - d)" using assms(2) by (simp add: of_nat_diff)
  moreover have "unat (of_nat (2 ^ 64 - d) :: u64) = 2 ^ 64 - d" using assms(1) by (simp add: unat_of_nat take_bit_nat_eq_self)
  ultimately have "unat (- (of_nat d :: u64)) = 2 ^ 64 - d" by metis
  then show ?thesis using assms by (simp add: word_less_nat_alt)
qed

text \<open>What a cache of byte strings with the wrong measure does next.\<close>

lemma bytes_pop_front:
  assumes "lhm_laws L" and "lh_iter L (lc_map self) = (k, v) # xs"
  shows "lh_iter L (lc_map (snd (lru_pop_by_policy L BytesMeter self))) = xs"
    and "current_measure (snd (lru_pop_by_policy L BytesMeter self)) = current_measure self - of_nat (length v)"
proof -
  have "fst (lh_pop_front L (lc_map self)) = Some (k, v) \<and> lh_iter L (snd (lh_pop_front L (lc_map self))) = xs"
    using assms by (simp add: lhm_laws_def)
  then show "lh_iter L (lc_map (snd (lru_pop_by_policy L BytesMeter self))) = xs"
    and "current_measure (snd (lru_pop_by_policy L BytesMeter self)) = current_measure self - of_nat (length v)"
    by (cases "lh_pop_front L (lc_map self)"; simp add: lru_pop_by_policy_def BytesMeter_def usize_meter_def)+
qed

lemma pop_while_larger_loops:
  assumes "lhm_laws L" and "lh_iter L (lc_map self) = [(k, w), (k', v')]"
    and "current_measure self = of_nat (a + length v')" and "unat n < a + length v'" and "a + length v' < 2 ^ 64"
    and "a + length v' < length w" and "length w + unat n < 2 ^ 64"
  shows "pop_while_larger L BytesMeter n self = None"
proof (rule ccontr)
  let ?pop = "\<lambda>c. snd (lru_pop_by_policy L BytesMeter c)"
  assume "pop_while_larger L BytesMeter n self \<noteq> None"
  then obtain r where r: "pop_while_larger L BytesMeter n self = Some r" by blast
  have size: "lru_size L BytesMeter c = current_measure c" for c by (simp add: lru_size_def BytesMeter_def usize_meter_def)
  note p1 = bytes_pop_front[OF assms(1,2)]
  note p2 = bytes_pop_front[OF assms(1) p1(1)]
  have m1: "current_measure (?pop self) = - of_nat (length w - (a + length v'))"
    using assms(6) by (simp add: p1(2) assms(3) of_nat_diff)
  have m2: "current_measure (?pop (?pop self)) = - of_nat (length w - a)"
    using assms(6) by (simp add: p2(2) m1 of_nat_diff)
  have "n < current_measure self"
    using assms(4,5) by (simp add: assms(3) word_less_nat_alt unat_of_nat take_bit_nat_eq_self del: of_nat_add)
  moreover have "n < current_measure (?pop self)"
    unfolding m1 by (rule minus_of_nat_large) (use assms(6,7) in auto)
  ultimately have "pop_while_larger L BytesMeter n (?pop (?pop self)) = Some r"
    using r by (simp add: pop_while_larger.simps[of L BytesMeter n self] pop_while_larger.simps[of L BytesMeter n "?pop self"] size)
  from pop_while_larger_stuck[OF this assms(1) p2(1), of "- of_nat (length w - a)"] m2
  have "- of_nat (length w - a) \<le> n" by (simp add: BytesMeter_def usize_meter_def)
  moreover have "n < - (of_nat (length w - a) :: u64)"
    by (rule minus_of_nat_large) (use assms(6,7) in auto)
  ultimately show False by simp
qed

text \<open>
  C30: A value that grows through \<open>get_mut\<close> can make a later \<open>put\<close> loop for ever, because the
  measure is not brought up to date. After a value has been put and then replaced through
  \<open>get_mut\<close> by one longer than it and the next value together, the \<open>put\<close> of that next value,
  if the two original lengths do not both fit the capacity, subtracts below zero, wraps around
  and pops an empty map without end.
\<close>

theorem lru_put_loops_after_get_mut:
  assumes "lhm_laws L" and "k \<noteq> k'" and "length v \<le> unat n" and "length v' \<le> unat n"
    and "unat n < length v + length v'" and "length v + length v' < length w" and "length w + unat n < 2 ^ 64"
  shows "\<exists>c. lru_put L BytesMeter k v (LruCache_with_meter L BytesMeter n) = Some (None, c)
    \<and> lru_put L BytesMeter k' v' (snd (lru_get_mut L k (\<lambda>_. w) c)) = None"
proof -
  let ?new = "LruCache_with_meter L BytesMeter n"
  note put = usize.lru_put_ends[OF assms(1) usize.holds_new[OF assms(1), where cap = n and f = "\<lambda>_ v. of_nat (length v)"], of k v,
      folded BytesMeter_def]
  have len: "unat (of_nat (length v) :: u64) = length v" using assms(6,7) by (simp add: unat_of_nat take_bit_nat_eq_self)
  obtain c where c: "lru_put L BytesMeter k v ?new = Some (None, c)" "usize.holds (\<lambda>_ v. of_nat (length v)) L c [(k, v)]"
      "max_capacity c = n"
    using put assms(3,6,7) by (auto simp: al_del_def LruCache_with_meter_def len)
  let ?c = "snd (lru_get_mut L k (\<lambda>_. w) c)"
  have i: "lh_iter L (lc_map c) = [(k, v)]" "current_measure c = of_nat (length v)"
    using c(2) unfolding usize.holds_def[where f = "\<lambda>_ v. of_nat (length v)"] by simp_all
  have "lh_iter L (snd (lh_get_refresh L k (lc_map c))) = [(k, v)]"
    using assms(1) i by (simp add: lhm_laws_def al_touch_def al_del_def)
  then have g: "lh_iter L (lc_map ?c) = [(k, w)]" "current_measure ?c = of_nat (length v)" "max_capacity ?c = n"
    using assms(1) i c(3) by (auto simp: lru_get_mut_def lhm_laws_def al_modify_def case_prod_beta)
  have ins: "lh_iter L (snd (lh_insert L k' v' (lc_map ?c))) = [(k, w), (k', v')]" "lh_get L k' (lc_map ?c) = None"
    using assms(1,2) g(1) by (auto simp: lhm_laws_def al_del_def)
  have "lru_put L BytesMeter k' v' ?c = None"
    unfolding lru_put_def Let_def case_prod_beta ins(2) option.case option.map_disc_iff
    by (rule pop_while_larger_loops[OF assms(1), of _ k w k' v' "length v"])
      (use ins g assms in \<open>simp_all add: BytesMeter_def usize_meter_def\<close>)
  with c(1) show ?thesis by blast
qed

theorem lru_put_loops_after_get_mut_witness:
  "\<exists>c. lru_put list_lhm BytesMeter (1::nat) ''a'' (LruCache_with_meter list_lhm BytesMeter 1) = Some (None, c)
    \<and> lru_put list_lhm BytesMeter 2 ''b'' (snd (lru_get_mut list_lhm 1 (\<lambda>_. ''aaa'') c)) = None"
  by (rule lru_put_loops_after_get_mut[OF list_lhm_laws]) simp_all

end
