(* ===== verification/Disk_Cache_Laws.thy ===== *)
theory Disk_Cache_Laws
  imports Disk_Cache Lru_Cache_Laws
begin

text \<open>
  What the disk cache keeps: every entry has its file, of the size the cache has for it, and the
  files of the cache fit its capacity. This holds as long as no key is inserted that is in the
  cache already and has to make room for itself.
\<close>

section \<open>Paths\<close>

definition relative :: "path \<Rightarrow> bool" where
  "relative p \<longleftrightarrow> p = [] \<or> hd p \<noteq> CHR ''/''"

lemma path_join_inj: "relative p \<Longrightarrow> relative q \<Longrightarrow> path_join root p = path_join root q \<longleftrightarrow> p = q"
  by (auto simp: path_join_def relative_def)

lemma strip_prefix_join: "relative p \<Longrightarrow> strip_prefix root (path_join root p) = Some p"
  by (auto simp: strip_prefix_def path_join_def relative_def Let_def)


section \<open>The entries and their files\<close>

abbreviation entries :: "'m lhm \<Rightarrow> 'm DiskCache \<Rightarrow> (path \<times> u64) list" where
  "entries L self \<equiv> lh_iter L (lc_map (dc_cache self))"

definition has_file :: "path \<Rightarrow> fs \<Rightarrow> path \<times> u64 \<Rightarrow> bool" where
  "has_file root files kn \<longleftrightarrow>
     relative (fst kn) \<and> (\<exists>b. files (path_join root (fst kn)) = Some b \<and> snd kn = of_nat (length b))"

definition dc_inv :: "'m lhm \<Rightarrow> 'm dc_state \<Rightarrow> bool" where
  "dc_inv L s \<longleftrightarrow>
     (let xs = entries L (fst s); c = dc_cache (fst s)
      in current_measure c = (\<Sum>kn\<leftarrow>xs. snd kn)
       \<and> (\<Sum>kn\<leftarrow>xs. unat (snd kn)) \<le> unat (max_capacity c) \<and> unat (max_capacity c) < 2 ^ 63
       \<and> list_all (has_file (dc_root (fst s)) (snd s)) xs)"

abbreviation fsw :: "path \<times> u64 \<Rightarrow> nat" where
  "fsw \<equiv> \<lambda>kn. unat (snd kn)"

abbreviation fs_holds :: "'m lhm \<Rightarrow> ('m, u64) LruCache \<Rightarrow> (path \<times> u64) list \<Rightarrow> bool" where
  "fs_holds \<equiv> usize.holds (\<lambda>_ v. v)"

lemma fs_holds_iff: "fs_holds L c xs \<longleftrightarrow> lh_iter L (lc_map c) = xs \<and> current_measure c = (\<Sum>kn\<leftarrow>xs. snd kn)"
  by (simp add: usize.holds_def[where f = "\<lambda>_ v. v"] sum_mset_sum_list[symmetric])

lemma dc_inv_iff:
  "dc_inv L (self, files) \<longleftrightarrow> (\<exists>xs. fs_holds L (dc_cache self) xs \<and> al_total fsw xs \<le> unat (max_capacity (dc_cache self))
     \<and> unat (max_capacity (dc_cache self)) < 2 ^ 63 \<and> list_all (has_file (dc_root self) files) xs)"
  by (auto simp: dc_inv_def fs_holds_iff al_total_def Let_def)

lemmas fs_size_holds = usize.size_holds[where f = "\<lambda>_ v. v", folded FileSize_def]
lemmas fs_pop_front = usize.holds_pop_front[where f = "\<lambda>_ v. v", folded FileSize_def]
lemmas fs_put_ends = usize.lru_put_ends[where f = "\<lambda>_ v. v", folded FileSize_def]
lemmas fs_pop = usize.holds_pop[where f = "\<lambda>_ v. v", folded FileSize_def]
lemmas fs_get = usize.lru_holds_get[where f = "\<lambda>_ v. v"]

text \<open>What the files are after those of some entries have been removed.\<close>

definition without :: "path \<Rightarrow> (path \<times> u64) list \<Rightarrow> fs \<Rightarrow> fs" where
  "without root ys files = (\<lambda>p. if p \<in> path_join root ` fst ` set ys then None else files p)"

lemma without_simps [simp]: "without root [] files = files"
  "without root ys (files(path_join root (fst y) := None)) = without root (y # ys) files"
  by (auto simp: without_def)

lemma without_other:
  assumes "list_all (\<lambda>kn. relative (fst kn)) ys" and "relative k" and "k \<notin> fst ` set ys"
  shows "without root ys files (path_join root k) = files (path_join root k)"
proof -
  have "path_join root k \<noteq> path_join root (fst y)" if "y \<in> set ys" for y
    using that assms path_join_inj[of k "fst y" root] by (auto simp: list_all_iff)
  then show ?thesis by (auto simp: without_def)
qed

lemma has_file_without:
  assumes "list_all (\<lambda>kn. relative (fst kn)) ys" and "list_all (has_file root files) zs" and "fst ` set ys \<inter> fst ` set zs = {}"
  shows "list_all (has_file root (without root ys files)) zs"
proof -
  have "has_file root (without root ys files) z" if "z \<in> set zs" for z
  proof -
    have "has_file root files z" and n: "fst z \<notin> fst ` set ys" using that assms(2,3) by (auto simp: list_all_iff)
    then show ?thesis using without_other[OF assms(1) _ n, of root files] by (auto simp: has_file_def)
  qed
  then show ?thesis by (simp add: list_all_iff)
qed

definition has_path :: "path \<Rightarrow> fs \<Rightarrow> path \<times> u64 \<Rightarrow> bool" where
  "has_path root files kn \<longleftrightarrow> relative (fst kn) \<and> files (path_join root (fst kn)) \<noteq> None"

lemma has_file_path: "list_all (has_file root files) xs \<Longrightarrow> list_all (has_path root files) xs"
  by (auto simp: list_all_iff has_file_def has_path_def)

lemma has_path_removed:
  assumes "list_all (has_path root files) (x # xs)" and "distinct (map fst (x # xs))"
  shows "list_all (has_path root (files(path_join root (fst x) := None))) xs"
proof -
  have "has_path root (files(path_join root (fst x) := None)) z" if "z \<in> set xs" for z
  proof -
    have "has_path root files z" "has_path root files x" using that assms(1) by (auto simp: list_all_iff)
    moreover have "fst z \<noteq> fst x" using imageI[OF that, of fst] assms(2) by (metis distinct.simps(2) list.set_map list.simps(9))
    ultimately show ?thesis using path_join_inj[of "fst z" "fst x" root] by (auto simp: has_path_def)
  qed
  then show ?thesis by (simp add: list_all_iff)
qed

text \<open>The loop that makes room ends, removes entries with their files and leaves enough room.\<close>

lemma make_room_ends:
  assumes L: "lhm_laws L" and "fs_holds L (dc_cache self) xs" and "list_all (has_path (dc_root self) files) xs"
    and "al_total fsw xs \<le> unat (max_capacity (dc_cache self))" and "unat (max_capacity (dc_cache self)) < 2 ^ 63"
    and "n \<le> max_capacity (dc_cache self)"
  shows "\<exists>ys zs c. xs = ys @ zs \<and> make_room L n (self, files) = Some (Inr (), self\<lparr>dc_cache := c\<rparr>, without (dc_root self) ys files)
    \<and> fs_holds L c zs \<and> max_capacity c = max_capacity (dc_cache self)
    \<and> al_total fsw zs + unat n \<le> unat (max_capacity (dc_cache self))
    \<and> (al_total fsw xs + unat n \<le> unat (max_capacity (dc_cache self)) \<longrightarrow> ys = [])"
  using assms(2-)
proof (induction xs arbitrary: self files)
  case Nil
  have "unat (lru_size L FileSize (dc_cache self)) = 0" using fs_size_holds[OF L Nil.prems(1)] by simp
  then have "\<not> max_capacity (dc_cache self) < lru_size L FileSize (dc_cache self) + n"
    using Nil.prems(5) by (simp add: unat_eq_zero)
  then have "make_room L n (self, files) = Some (Inr (), self, files)" by (subst make_room.simps) simp
  then show ?case using Nil.prems by (intro exI[of _ "[]"] exI[of _ "dc_cache self"]) (simp add: word_le_nat_alt)
next
  case (Cons x xs)
  let ?cap = "max_capacity (dc_cache self)" and ?root = "dc_root self"
  have s: "unat (lru_size L FileSize (dc_cache self)) = al_total fsw (x # xs)"
    using fs_size_holds[OF L Cons.prems(1)] Cons.prems(3,4) by simp
  have "unat (lru_size L FileSize (dc_cache self) + n) = al_total fsw (x # xs) + unat n"
    using Cons.prems(3-5) s by (subst unat_add_lem[THEN iffD1]) (auto simp: word_le_nat_alt)
  then have c: "?cap < lru_size L FileSize (dc_cache self) + n \<longleftrightarrow> unat ?cap < al_total fsw (x # xs) + unat n"
    by (simp add: word_less_nat_alt)
  show ?case
  proof (cases "?cap < lru_size L FileSize (dc_cache self) + n")
    case False
    then have "make_room L n (self, files) = Some (Inr (), self, files)" by (subst make_room.simps) simp
    then show ?thesis using Cons.prems False c by (intro exI[of _ "[]"] exI[of _ "x # xs"] exI[of _ "dc_cache self"]) simp
  next
    case True
    obtain c1 where p: "lru_pop_by_policy L FileSize (dc_cache self) = (Some x, c1)" "fs_holds L c1 xs" "max_capacity c1 = ?cap"
      using fs_pop_front[OF L Cons.prems(1)] by (cases "lru_pop_by_policy L FileSize (dc_cache self)") auto
    define files1 where "files1 = files(path_join ?root (fst x) := None)"
    have rx: "relative (fst x)" "files (path_join ?root (fst x)) \<noteq> None" using Cons.prems(2) by (auto simp: has_path_def)
    have "distinct (map fst (x # xs))" using lhm_distinct[OF L] Cons.prems(1) unfolding fs_holds_iff by metis
    then have f: "list_all (has_path ?root files1) xs"
      unfolding files1_def using Cons.prems(2) by (rule has_path_removed[rotated])
    have step: "make_room L n (self, files) = make_room L n (self\<lparr>dc_cache := c1\<rparr>, files1)"
      using True p rx(2) by (subst make_room.simps) (auto simp: remove_file_def rel_to_abs_path_def files1_def Let_def)
    obtain ys zs c2 where r: "xs = ys @ zs"
        "make_room L n (self\<lparr>dc_cache := c1\<rparr>, files1) = Some (Inr (), self\<lparr>dc_cache := c2\<rparr>, without ?root ys files1)"
        "fs_holds L c2 zs" "max_capacity c2 = ?cap" "al_total fsw zs + unat n \<le> unat ?cap"
      using Cons.IH[of "self\<lparr>dc_cache := c1\<rparr>" files1] p f Cons.prems(3-5) by auto
    show ?thesis
      using r True c unfolding step by (intro exI[of _ "x # ys"] exI[of _ zs] exI[of _ c2]) (simp add: files1_def)
  qed
qed


lemma make_room_skip:
  assumes "lhm_laws L" and "fs_holds L (dc_cache self) xs" and "al_total fsw xs + unat n \<le> unat (max_capacity (dc_cache self))"
    and "unat (max_capacity (dc_cache self)) < 2 ^ 63"
  shows "make_room L n (self, files) = Some (Inr (), self, files)"
proof -
  have s: "unat (lru_size L FileSize (dc_cache self)) = al_total fsw xs"
    using fs_size_holds[OF assms(1,2)] assms(3,4) by simp
  have "unat (lru_size L FileSize (dc_cache self) + n) = al_total fsw xs + unat n"
    using assms(3,4) s by (subst unat_add_lem[THEN iffD1]) auto
  then have "\<not> max_capacity (dc_cache self) < lru_size L FileSize (dc_cache self) + n"
    using assms(3) by (simp add: word_less_nat_alt)
  then show ?thesis by (subst make_room.simps) simp
qed


section \<open>Inserting\<close>

lemma put_in_room:
  assumes L: "lhm_laws L" and h: "fs_holds L c zs" and room: "al_total fsw zs + unat n \<le> unat (max_capacity c)"
    and cap: "unat (max_capacity c) < 2 ^ 63"
  shows "\<exists>c'. lru_put L FileSize k n c = Some (map_of zs k, c') \<and> fs_holds L c' (al_del k zs @ [(k, n)])
    \<and> max_capacity c' = max_capacity c \<and> al_total fsw (al_del k zs @ [(k, n)]) \<le> unat (max_capacity c)"
proof -
  have t: "al_total fsw (al_del k zs @ [(k, n)]) \<le> unat (max_capacity c)"
    using al_total_filter[of fsw "\<lambda>kv. fst kv \<noteq> k" zs] room by (simp add: al_del_def)
  then show ?thesis using fs_put_ends[OF L h, of k n] al_fit_all[OF t] cap by auto
qed

lemma has_file_put:
  assumes "list_all (has_file root files) (al_del k zs)" and "relative k" and "files (path_join root k) = Some b"
    and "n = of_nat (length b)"
  shows "list_all (has_file root files) (al_del k zs @ [(k, n)])"
  using assms by (auto simp: has_file_def)

text \<open>A file that is written for a key does not touch the files of the other entries.\<close>

lemma has_file_write:
  assumes "list_all (has_file root files) zs" and "relative k"
  shows "list_all (has_file root (files(path_join root k \<mapsto> b))) (al_del k zs)"
proof -
  have "has_file root (files(path_join root k \<mapsto> b)) z" if "z \<in> set (al_del k zs)" for z
  proof -
    have z: "has_file root files z" "fst z \<noteq> k" using that assms(1) by (auto simp: al_del_def list_all_iff)
    then have "path_join root (fst z) \<noteq> path_join root k"
      using path_join_inj[of "fst z" k root] assms(2) by (auto simp: has_file_def)
    with z show ?thesis by (simp add: has_file_def)
  qed
  then show ?thesis by (simp add: list_all_iff)
qed

lemma add_file_ends:
  assumes L: "lhm_laws L" and h: "fs_holds L (dc_cache self) xs"
    and f: "list_all (has_file (dc_root self) files) (al_del k xs)" and b: "files (path_join (dc_root self) k) = Some b" "n = of_nat (length b)"
    and t: "al_total fsw xs \<le> unat (max_capacity (dc_cache self))" and cap: "unat (max_capacity (dc_cache self)) < 2 ^ 63"
    and n: "n \<le> max_capacity (dc_cache self)" and k: "relative k"
    and fresh: "k \<notin> fst ` set xs \<or> al_total fsw xs + unat n \<le> unat (max_capacity (dc_cache self))"
  shows "\<exists>self' files'. add_file L (RelPath k) n (self, files) = Some (Inr (), self', files') \<and> dc_root self' = dc_root self
    \<and> dc_inv L (self', files') \<and> (k, n) \<in> set (entries L self') \<and> set (entries L self') \<subseteq> insert (k, n) (set xs)
    \<and> (\<forall>z \<in> set (entries L self'). files' (path_join (dc_root self) (fst z)) = files (path_join (dc_root self) (fst z)))"
proof -
  let ?cap = "max_capacity (dc_cache self)" and ?root = "dc_root self"
  have d: "distinct (map fst xs)" using lhm_distinct[OF L] h unfolding fs_holds_iff by metis
  obtain ys zs c where r: "xs = ys @ zs" "make_room L n (self, files) = Some (Inr (), self\<lparr>dc_cache := c\<rparr>, without ?root ys files)"
      "fs_holds L c zs" "max_capacity c = ?cap" "al_total fsw zs + unat n \<le> unat ?cap" and ky: "k \<notin> fst ` set ys"
      and ry: "list_all (\<lambda>kn. relative (fst kn)) ys"
  proof (cases "al_total fsw xs + unat n \<le> unat ?cap")
    case True
    then show ?thesis using that[of "[]" xs "dc_cache self"] make_room_skip[OF L h True cap] h by simp
  next
    case False
    with fresh have k0: "k \<notin> fst ` set xs" by blast
    then have "al_del k xs = xs" by (simp add: al_del_absent map_of_eq_None_iff)
    with f have f': "list_all (has_file ?root files) xs" by simp
    obtain ys zs c where m: "xs = ys @ zs" "make_room L n (self, files) = Some (Inr (), self\<lparr>dc_cache := c\<rparr>, without ?root ys files)"
        "fs_holds L c zs" "max_capacity c = ?cap" "al_total fsw zs + unat n \<le> unat ?cap"
      using make_room_ends[OF L h has_file_path[OF f'] t cap n] by blast
    show ?thesis by (rule that[OF m]) (use k0 f' m(1) in \<open>auto simp: list_all_iff has_file_def\<close>)
  qed
  obtain c' where p: "lru_put L FileSize k n c = Some (map_of zs k, c')" "fs_holds L c' (al_del k zs @ [(k, n)])"
      "max_capacity c' = ?cap" "al_total fsw (al_del k zs @ [(k, n)]) \<le> unat ?cap"
    using put_in_room[OF L r(3), of n k] r(4,5) cap by auto
  have run: "add_file L (RelPath k) n (self, files) = Some (Inr (), self\<lparr>dc_cache := c'\<rparr>, without ?root ys files)"
    using n r(2) p(1) by (simp add: add_file_def can_store_def)
  have dis: "fst ` set ys \<inter> fst ` set (al_del k zs) = {}" using d r(1) by (auto simp: al_del_def)
  have fz: "list_all (has_file ?root files) (al_del k zs)" using f r(1) by (simp add: al_del_def)
  have keep: "without ?root ys files (path_join ?root k) = Some b" using without_other[OF ry k ky] b by simp
  have fo: "list_all (has_file ?root (without ?root ys files)) (al_del k zs @ [(k, n)])"
    by (rule has_file_put[OF has_file_without[OF ry fz dis] k keep b(2)])
  then have inv: "dc_inv L (self\<lparr>dc_cache := c'\<rparr>, without ?root ys files)"
    using p(2-4) cap by (auto simp: dc_inv_iff)
  have e: "lh_iter L (lc_map c') = al_del k zs @ [(k, n)]" using p(2) by (simp add: fs_holds_iff)
  have same: "without ?root ys files (path_join ?root (fst z)) = files (path_join ?root (fst z))"
    if "z \<in> set (al_del k zs @ [(k, n)])" for z
  proof (rule without_other[OF ry])
    show "relative (fst z)" using that fo by (auto simp: list_all_iff has_file_def)
    show "fst z \<notin> fst ` set ys" using that dis ky by (cases "z = (k, n)") auto
  qed
  show ?thesis
    by (rule exI[of _ "self\<lparr>dc_cache := c'\<rparr>"], rule exI[of _ "without ?root ys files"])
      (use run inv same r(1) in \<open>auto simp: e al_del_def\<close>)
qed


lemma get_file_hit:
  assumes "lhm_laws L" and "map_of (entries L self) k = Some n" and "files (path_join (dc_root self) k) = Some b"
  shows "fst (get_file L k (self, files)) = Inr b"
  using assms by (simp add: get_file_def lru_get_def rel_to_abs_path_def lhm_laws_def case_prod_beta Let_def)

lemma contains_key_iff: "lhm_laws L \<Longrightarrow> contains_key L k self \<longleftrightarrow> k \<in> fst ` set (entries L self)"
  by (simp add: contains_key_def lru_contains_def lhm_laws_def)

lemma insert_bytes_ends:
  assumes L: "lhm_laws L" and inv: "dc_inv L (self, files)" and k: "relative k"
    and len: "length content \<le> unat (dc_capacity self)"
    and fresh: "\<not> contains_key L k self \<or> unat (dc_size L self) + length content \<le> unat (dc_capacity self)"
  shows "\<exists>self' files'. insert_bytes L k content (self, files) = Some (Inr (), self', files')
    \<and> dc_inv L (self', files') \<and> contains_key L k self' \<and> fst (get_file L k (self', files')) = Inr content
    \<and> (\<forall>k'. contains_key L k' self' \<and> k' \<noteq> k \<longrightarrow> contains_key L k' self
          \<and> files' (rel_to_abs_path self k') = files (rel_to_abs_path self k'))"
proof -
  obtain xs where xs: "fs_holds L (dc_cache self) xs" "al_total fsw xs \<le> unat (max_capacity (dc_cache self))"
      "unat (max_capacity (dc_cache self)) < 2 ^ 63" "list_all (has_file (dc_root self) files) xs"
    using inv by (auto simp: dc_inv_iff)
  let ?root = "dc_root self" and ?n = "of_nat (length content) :: u64"
  let ?files = "files(path_join ?root k \<mapsto> content)"
  have e: "entries L self = xs" using xs(1) by (simp add: fs_holds_iff)
  have n: "unat ?n = length content" using len xs(3) by (simp add: dc_capacity_def unat_of_nat take_bit_nat_eq_self)
  then have fits: "?n \<le> max_capacity (dc_cache self)" using len by (simp add: dc_capacity_def word_le_nat_alt)
  have sz: "unat (dc_size L self) = al_total fsw xs" unfolding dc_size_def using fs_size_holds[OF L xs(1)] xs(2,3) by simp
  have fr: "k \<notin> fst ` set xs \<or> al_total fsw xs + unat ?n \<le> unat (max_capacity (dc_cache self))"
    using fresh n sz by (simp add: contains_key_iff[OF L] e dc_capacity_def)
  obtain self' files' where a: "add_file L (RelPath k) ?n (self, ?files) = Some (Inr (), self', files')" "dc_root self' = ?root"
      "dc_inv L (self', files')" "(k, ?n) \<in> set (entries L self')" "set (entries L self') \<subseteq> insert (k, ?n) (set xs)"
      "\<And>z. z \<in> set (entries L self') \<Longrightarrow> files' (path_join ?root (fst z)) = ?files (path_join ?root (fst z))"
    using add_file_ends[OF L xs(1) has_file_write[OF xs(4) k], of content content ?n] xs(2,3) fits k fr by auto
  have run: "insert_bytes L k content (self, files) = Some (Inr (), self', files')"
    using fits a(1) by (simp add: insert_bytes_def insert_by_def can_store_def rel_to_abs_path_def metadata_len_def Let_def)
  have "map_of (entries L self') k = Some ?n" using a(4) lhm_distinct[OF L] by simp
  moreover have "files' (path_join ?root k) = Some content" using a(6)[OF a(4)] by simp
  ultimately have g: "fst (get_file L k (self', files')) = Inr content" using get_file_hit[OF L] a(2) by simp
  have o: "contains_key L k' self \<and> files' (rel_to_abs_path self k') = files (rel_to_abs_path self k')"
    if ck: "contains_key L k' self'" and ne: "k' \<noteq> k" for k'
  proof -
    obtain z where z: "z \<in> set (entries L self')" "fst z = k'" using ck unfolding contains_key_iff[OF L] by blast
    with a(5) ne have "z \<in> set xs" by auto
    moreover from this have "path_join ?root k' \<noteq> path_join ?root k"
      using xs(4) path_join_inj[of k' k ?root] k z(2) ne by (auto simp: list_all_iff has_file_def)
    ultimately show ?thesis using a(6)[OF z(1)] z(2) by (auto simp: contains_key_iff[OF L] e rel_to_abs_path_def)
  qed
  show ?thesis using run a(3,4) g o by (intro exI[of _ self'] exI[of _ files']) (auto simp: contains_key_iff[OF L] rev_image_eqI)
qed



section \<open>Reading and removing\<close>

lemma get_file_inv:
  assumes L: "lhm_laws L" and inv: "dc_inv L (self, files)"
  shows "dc_inv L (snd (get_file L k (self, files)))"
    and "fst (get_file L k (self, files))
      = (if contains_key L k self then Inr (the (files (rel_to_abs_path self k))) else Inl FileNotInCache)"
proof -
  obtain xs where xs: "fs_holds L (dc_cache self) xs" "al_total fsw xs \<le> unat (max_capacity (dc_cache self))"
      "unat (max_capacity (dc_cache self)) < 2 ^ 63" "list_all (has_file (dc_root self) files) xs"
    using inv by (auto simp: dc_inv_iff)
  have e: "entries L self = xs" using xs(1) by (simp add: fs_holds_iff)
  have d: "distinct (map fst xs)" using lhm_distinct[OF L] e by metis
  have m: "mset (al_touch k xs) = mset xs" by (rule al_touch_mset[OF d])
  obtain r c where r: "lru_get L k (dc_cache self) = (r, c)" by fastforce
  have g: "fs_holds L c (al_touch k xs)" "r = map_of xs k" using fs_get[OF L xs(1), of k] r by simp_all
  have cap: "max_capacity c = max_capacity (dc_cache self)" using r by (auto simp: lru_get_def case_prod_beta)
  have "list_all (has_file (dc_root self) files) (al_touch k xs)"
    using xs(4) mset_eq_setD[OF m] by (simp add: list_all_iff)
  then have "dc_inv L (self\<lparr>dc_cache := c\<rparr>, files)"
    using g(1) xs(2,3) cap al_total_mset[OF m, of fsw] by (auto simp: dc_inv_iff)
  then show "dc_inv L (snd (get_file L k (self, files)))"
    by (simp add: get_file_def r Let_def split: option.splits)
  have "contains_key L k self \<longleftrightarrow> map_of xs k \<noteq> None" by (simp add: contains_key_iff[OF L] e map_of_eq_None_iff)
  moreover have "files (path_join (dc_root self) k) \<noteq> None" if "map_of xs k = Some n" for n
    using map_of_SomeD[OF that] xs(4) by (auto simp: list_all_iff has_file_def)
  ultimately show "fst (get_file L k (self, files))
      = (if contains_key L k self then Inr (the (files (rel_to_abs_path self k))) else Inl FileNotInCache)"
    by (cases "map_of xs k") (auto simp: get_file_def r g(2) rel_to_abs_path_def Let_def)
qed

lemma dc_remove_inv:
  assumes L: "lhm_laws L" and inv: "dc_inv L (self, files)"
  shows "\<exists>self' files'. dc_remove L k (self, files) = (Inr (), self', files') \<and> dc_inv L (self', files')
    \<and> \<not> contains_key L k self' \<and> (contains_key L k self \<longrightarrow> files' (rel_to_abs_path self k) = None)"
proof -
  let ?root = "dc_root self"
  obtain xs where xs: "fs_holds L (dc_cache self) xs" "al_total fsw xs \<le> unat (max_capacity (dc_cache self))"
      "unat (max_capacity (dc_cache self)) < 2 ^ 63" "list_all (has_file ?root files) xs"
    using inv by (auto simp: dc_inv_iff)
  have e: "entries L self = xs" using xs(1) by (simp add: fs_holds_iff)
  obtain r c where r: "lru_pop L FileSize k (dc_cache self) = (r, c)" by fastforce
  have g: "fs_holds L c (al_del k xs)" "r = map_of xs k" using fs_pop[OF L xs(1), of k] r by simp_all
  have cap: "max_capacity c = max_capacity (dc_cache self)" using r by (auto simp: lru_pop_def split: prod.splits option.splits)
  have t: "al_total fsw (al_del k xs) \<le> unat (max_capacity (dc_cache self))"
    using al_total_filter[of fsw "\<lambda>kv. fst kv \<noteq> k" xs] xs(2) by (simp add: al_del_def)
  have k': "\<not> contains_key L k (self\<lparr>dc_cache := c\<rparr>)"
    using g(1) by (auto simp: contains_key_iff[OF L] fs_holds_iff al_del_def)
  show ?thesis
  proof (cases "map_of xs k")
    case None
    then have "list_all (has_file ?root files) (al_del k xs)" using xs(4) by (simp add: al_del_absent)
    then have "dc_inv L (self\<lparr>dc_cache := c\<rparr>, files)" using g(1) t xs(3) cap by (auto simp: dc_inv_iff)
    moreover have "dc_remove L k (self, files) = (Inr (), self\<lparr>dc_cache := c\<rparr>, files)" by (simp add: dc_remove_def r g(2) None)
    moreover have "\<not> contains_key L k self" using None by (simp add: contains_key_iff[OF L] e map_of_eq_None_iff)
    ultimately show ?thesis using k' by blast
  next
    case (Some n)
    then have kx: "(k, n) \<in> set xs" by (rule map_of_SomeD)
    then have hf: "relative k" "files (path_join ?root k) \<noteq> None" using xs(4) by (auto simp: list_all_iff has_file_def)
    have "list_all (has_file ?root (without ?root [(k, n)] files)) (al_del k xs)"
      by (rule has_file_without) (use hf xs(4) in \<open>auto simp: list_all_iff al_del_def\<close>)
    then have "list_all (has_file ?root (files(path_join ?root k := None))) (al_del k xs)"
      by (simp add: without_def fun_upd_def)
    then have "dc_inv L (self\<lparr>dc_cache := c\<rparr>, files(path_join ?root k := None))" using g(1) t xs(3) cap by (auto simp: dc_inv_iff)
    then show ?thesis
      using Some k' hf(2) by (auto simp: dc_remove_def r g(2) remove_file_def rel_to_abs_path_def Let_def)
  qed
qed


section \<open>What the disk cache guarantees\<close>


text \<open>
  C32: Inserting a key again can lose its file. In a cache that holds one file, inserting other
  contents under the same key, which fit the capacity but not beside the old ones, succeeds: but
  the new file, already written under that path, is the one that is removed to make room. The
  cache then has the key, with no file on disk, and reading it fails.
\<close>

theorem disk_cache_reinsert_loses_file:
  assumes "lhm_laws L" and "dc_inv L (self, files)" and "entries L self = [(k, n)]"
    and "length content \<le> unat (dc_capacity self)" and "unat (dc_capacity self) < unat n + length content"
  shows "\<exists>self' files'. insert_bytes L k content (self, files) = Some (Inr (), self', files')
    \<and> contains_key L k self' \<and> files' (rel_to_abs_path self' k) = None
    \<and> fst (get_file L k (self', files')) = Inl (Io ''not found'')"
proof -
  let ?root = "dc_root self" and ?m = "of_nat (length content) :: u64" and ?cap = "max_capacity (dc_cache self)"
  let ?files = "files(path_join ?root k \<mapsto> content)"
  have xs: "fs_holds L (dc_cache self) [(k, n)]" "al_total fsw [(k, n)] \<le> unat ?cap" "unat ?cap < 2 ^ 63"
      "has_file ?root files (k, n)"
    using assms(2,3) by (auto simp: dc_inv_iff fs_holds_iff)
  have m: "unat ?m = length content"
    using assms(4) xs(3) by (simp add: dc_capacity_def unat_of_nat take_bit_nat_eq_self)
  then have fits: "?m \<le> ?cap" using assms(4) by (simp add: dc_capacity_def word_le_nat_alt)
  have hp: "list_all (has_path ?root ?files) [(k, n)]" using xs(4) by (simp add: has_file_def has_path_def)
  obtain ys zs c where r: "[(k, n)] = ys @ zs"
      "make_room L ?m (self, ?files) = Some (Inr (), self\<lparr>dc_cache := c\<rparr>, without ?root ys ?files)"
      "fs_holds L c zs" "max_capacity c = ?cap" "al_total fsw zs + unat ?m \<le> unat ?cap"
    using make_room_ends[OF assms(1) xs(1) hp xs(2,3) fits] by blast
  have ys: "ys = [(k, n)]" "zs = []"
    using r(1,5) assms(5) m by (auto simp: Cons_eq_append_conv dc_capacity_def)
  obtain c' where p: "lru_put L FileSize k ?m c = Some (None, c')" "fs_holds L c' [(k, ?m)]"
    using put_in_room[OF assms(1) r(3), of ?m k] r(4,5) xs(3) by (auto simp: ys al_del_def)
  let ?files' = "without ?root [(k, n)] ?files"
  have run: "insert_bytes L k content (self, files) = Some (Inr (), self\<lparr>dc_cache := c'\<rparr>, ?files')"
    using fits r(2) p(1) by (simp add: insert_bytes_def insert_by_def add_file_def can_store_def rel_to_abs_path_def metadata_len_def ys Let_def)
  have gone: "?files' (path_join ?root k) = None" by (simp add: without_def)
  have e: "lh_iter L (lc_map c') = [(k, ?m)]" using p(2) by (simp add: fs_holds_iff)
  have "fst (get_file L k (self\<lparr>dc_cache := c'\<rparr>, ?files')) = Inl (Io ''not found'')"
    using assms(1) e gone by (simp add: get_file_def lru_get_def rel_to_abs_path_def lhm_laws_def case_prod_beta Let_def)
  then show ?thesis using run gone e by (auto simp: contains_key_iff[OF assms(1)] rel_to_abs_path_def)
qed



section \<open>Witnesses\<close>

definition demo_dc :: "(path \<times> u64) list DiskCache" where
  "demo_dc = \<lparr>dc_cache = \<lparr>lc_map = [(''a'', 2)], current_measure = 2, max_capacity = 3\<rparr>, dc_root = ''r''\<rparr>"

definition demo_files :: fs where
  "demo_files = (\<lambda>_. None)(''r/a'' \<mapsto> ''xy'')"

lemma demo_dc_inv: "dc_inv list_lhm (demo_dc, demo_files)"
  by (simp add: dc_inv_def demo_dc_def demo_files_def list_lhm_def has_file_def relative_def path_join_def)


theorem disk_cache_reinsert_loses_file_witness:
  "\<exists>self' files'. insert_bytes list_lhm ''a'' ''uv'' (demo_dc, demo_files) = Some (Inr (), self', files')
    \<and> contains_key list_lhm ''a'' self' \<and> fst (get_file list_lhm ''a'' (self', files')) = Inl (Io ''not found'')"
proof -
  have "entries list_lhm demo_dc = [(''a'', 2)]" "length ''uv'' \<le> unat (dc_capacity demo_dc)"
      "unat (dc_capacity demo_dc) < unat (2 :: u64) + length ''uv''" by code_simp+
  from disk_cache_reinsert_loses_file[OF list_lhm_laws demo_dc_inv this] show ?thesis by blast
qed

end
