(* ===== verification/Type_Coercion.thy ===== *)
theory Type_Coercion
  imports Schema_Types
begin

text \<open>
  The type identifiers of columns and the rules that give the type of an arithmetic operation, of a
  comparison and of a list of values (\<open>common/datavalues/src/types/type_id.rs\<close>, \<open>eq.rs\<close>,
  \<open>type_coercion.rs\<close>), the table of result types the build generates from these rules
  (\<open>arithmetics_type.rs\<close>) and its generator (\<open>common/codegen/src/writes/arithmetics_type.rs\<close>).
  A Rust number type is a \<open>prim\<close>; the text of an error message is left out.
\<close>

section \<open>Type identifiers\<close>

datatype TypeID =
    ID_Null
  | ID_Nullable
  | ID_Boolean
  | ID_UInt8
  | ID_UInt16
  | ID_UInt32
  | ID_UInt64
  | ID_Int8
  | ID_Int16
  | ID_Int32
  | ID_Int64
  | ID_Float32
  | ID_Float64
  | ID_String
  | ID_Date
  | ID_Timestamp
  | ID_Interval
  | ID_Array
  | ID_Struct
  | ID_Variant
  | ID_VariantArray
  | ID_VariantObject

datatype PhysicalTypeID =
    Phys_Null
  | Phys_Nullable
  | Phys_Boolean
  | Phys_String
  | Phys_Array
  | Phys_Struct
  | Phys_Variant
  | Phys_Int8
  | Phys_Int16
  | Phys_Int32
  | Phys_Int64
  | Phys_UInt8
  | Phys_UInt16
  | Phys_UInt32
  | Phys_UInt64
  | Phys_Float32
  | Phys_Float64

datatype query_error = BadArguments | BadDataValueType | IllegalDataType | UnknownColumn | UnknownException | LogicalError | Panic

fun data_type_id :: "DataTypeImpl \<Rightarrow> TypeID" where
  "data_type_id Null = ID_Null"
| "data_type_id (Nullable t) = ID_Nullable"
| "data_type_id Boolean = ID_Boolean"
| "data_type_id UInt8 = ID_UInt8"
| "data_type_id UInt16 = ID_UInt16"
| "data_type_id UInt32 = ID_UInt32"
| "data_type_id UInt64 = ID_UInt64"
| "data_type_id Int8 = ID_Int8"
| "data_type_id Int16 = ID_Int16"
| "data_type_id Int32 = ID_Int32"
| "data_type_id Int64 = ID_Int64"
| "data_type_id Float32 = ID_Float32"
| "data_type_id Float64 = ID_Float64"
| "data_type_id StringT = ID_String"
| "data_type_id Date = ID_Date"
| "data_type_id (Timestamp t) = ID_Timestamp"
| "data_type_id (Interval t) = ID_Interval"
| "data_type_id (Array t) = ID_Array"
| "data_type_id (Struct t) = ID_Struct"
| "data_type_id Variant = ID_Variant"
| "data_type_id VariantArray = ID_VariantArray"
| "data_type_id VariantObject = ID_VariantObject"

definition null_at :: "TypeID \<Rightarrow> bool" where
  "null_at i = (case i of ID_Nullable \<Rightarrow> True | _ \<Rightarrow> False)"

definition is_string :: "TypeID \<Rightarrow> bool" where
  "is_string i = (case i of ID_String \<Rightarrow> True | _ \<Rightarrow> False)"

definition is_null :: "TypeID \<Rightarrow> bool" where
  "is_null i = (case i of ID_Null \<Rightarrow> True | _ \<Rightarrow> False)"

definition is_integer :: "TypeID \<Rightarrow> bool" where
  "is_integer i = (case i of ID_Int8 \<Rightarrow> True | ID_Int16 \<Rightarrow> True | ID_Int32 \<Rightarrow> True | ID_Int64 \<Rightarrow> True | ID_UInt8 \<Rightarrow> True | ID_UInt16 \<Rightarrow> True | ID_UInt32 \<Rightarrow> True | ID_UInt64 \<Rightarrow> True | _ \<Rightarrow> False)"

definition is_signed_integer :: "TypeID \<Rightarrow> bool" where
  "is_signed_integer i = (case i of ID_Int8 \<Rightarrow> True | ID_Int16 \<Rightarrow> True | ID_Int32 \<Rightarrow> True | ID_Int64 \<Rightarrow> True | _ \<Rightarrow> False)"

definition is_unsigned_integer :: "TypeID \<Rightarrow> bool" where
  "is_unsigned_integer i = (case i of ID_UInt8 \<Rightarrow> True | ID_UInt16 \<Rightarrow> True | ID_UInt32 \<Rightarrow> True | ID_UInt64 \<Rightarrow> True | _ \<Rightarrow> False)"

definition is_floating :: "TypeID \<Rightarrow> bool" where
  "is_floating i = (case i of ID_Float32 \<Rightarrow> True | ID_Float64 \<Rightarrow> True | _ \<Rightarrow> False)"

definition is_date_or_date_time :: "TypeID \<Rightarrow> bool" where
  "is_date_or_date_time i = (case i of ID_Date \<Rightarrow> True | ID_Timestamp \<Rightarrow> True | _ \<Rightarrow> False)"

definition is_signed_numeric :: "TypeID \<Rightarrow> bool" where
  "is_signed_numeric i = (case i of ID_Int8 \<Rightarrow> True | ID_Int16 \<Rightarrow> True | ID_Int32 \<Rightarrow> True | ID_Int64 \<Rightarrow> True | ID_Float32 \<Rightarrow> True | ID_Float64 \<Rightarrow> True | _ \<Rightarrow> False)"

definition is_numeric :: "TypeID \<Rightarrow> bool" where
  "is_numeric i = (is_integer i \<or> is_floating i)"

definition is_interval :: "TypeID \<Rightarrow> bool" where
  "is_interval i = (case i of ID_Interval \<Rightarrow> True | _ \<Rightarrow> False)"

definition is_array :: "TypeID \<Rightarrow> bool" where
  "is_array i = (case i of ID_Array \<Rightarrow> True | _ \<Rightarrow> False)"

definition is_struct :: "TypeID \<Rightarrow> bool" where
  "is_struct i = (case i of ID_Struct \<Rightarrow> True | _ \<Rightarrow> False)"

definition is_quoted :: "TypeID \<Rightarrow> bool" where
  "is_quoted i = (case i of ID_String \<Rightarrow> True | ID_Date \<Rightarrow> True | ID_Timestamp \<Rightarrow> True | _ \<Rightarrow> False)"

definition is_variant :: "TypeID \<Rightarrow> bool" where
  "is_variant i = (case i of ID_Variant \<Rightarrow> True | ID_VariantArray \<Rightarrow> True | ID_VariantObject \<Rightarrow> True | _ \<Rightarrow> False)"

definition is_variant_or_array :: "TypeID \<Rightarrow> bool" where
  "is_variant_or_array i = (case i of ID_Variant \<Rightarrow> True | ID_VariantArray \<Rightarrow> True | _ \<Rightarrow> False)"

definition is_variant_or_object :: "TypeID \<Rightarrow> bool" where
  "is_variant_or_object i = (case i of ID_Variant \<Rightarrow> True | ID_VariantObject \<Rightarrow> True | _ \<Rightarrow> False)"

definition numeric_byte_size :: "TypeID \<Rightarrow> query_error + nat" where
  "numeric_byte_size i =
     (case i of
        ID_Int8 \<Rightarrow> Inr 1 | ID_UInt8 \<Rightarrow> Inr 1
      | ID_Int16 \<Rightarrow> Inr 2 | ID_UInt16 \<Rightarrow> Inr 2
      | ID_Int32 \<Rightarrow> Inr 4 | ID_UInt32 \<Rightarrow> Inr 4 | ID_Float32 \<Rightarrow> Inr 4 | ID_Date \<Rightarrow> Inr 4
      | ID_Int64 \<Rightarrow> Inr 8 | ID_UInt64 \<Rightarrow> Inr 8 | ID_Float64 \<Rightarrow> Inr 8 | ID_Timestamp \<Rightarrow> Inr 8
      | _ \<Rightarrow> Inl BadArguments)"

fun to_physical_type :: "TypeID \<Rightarrow> PhysicalTypeID" where
  "to_physical_type ID_Null = Phys_Null"
| "to_physical_type ID_Nullable = Phys_Nullable"
| "to_physical_type ID_Boolean = Phys_Boolean"
| "to_physical_type ID_UInt8 = Phys_UInt8"
| "to_physical_type ID_UInt16 = Phys_UInt16"
| "to_physical_type ID_UInt32 = Phys_UInt32"
| "to_physical_type ID_UInt64 = Phys_UInt64"
| "to_physical_type ID_Int8 = Phys_Int8"
| "to_physical_type ID_Int16 = Phys_Int16"
| "to_physical_type ID_Int32 = Phys_Int32"
| "to_physical_type ID_Int64 = Phys_Int64"
| "to_physical_type ID_Float32 = Phys_Float32"
| "to_physical_type ID_Float64 = Phys_Float64"
| "to_physical_type ID_String = Phys_String"
| "to_physical_type ID_Date = Phys_Int32"
| "to_physical_type ID_Timestamp = Phys_Int64"
| "to_physical_type ID_Interval = Phys_Int64"
| "to_physical_type ID_Array = Phys_Array"
| "to_physical_type ID_Struct = Phys_Struct"
| "to_physical_type ID_Variant = Phys_Variant"
| "to_physical_type ID_VariantArray = Phys_Variant"
| "to_physical_type ID_VariantObject = Phys_Variant"


section \<open>Types\<close>

definition is_nullable :: "DataTypeImpl \<Rightarrow> bool" where
  "is_nullable t = (case t of Nullable _ \<Rightarrow> True | _ \<Rightarrow> False)"

definition can_inside_nullable :: "DataTypeImpl \<Rightarrow> bool" where
  "can_inside_nullable t = (case t of Null \<Rightarrow> False | Nullable _ \<Rightarrow> False | Struct _ \<Rightarrow> False | _ \<Rightarrow> True)"

definition wrap_nullable :: "DataTypeImpl \<Rightarrow> DataTypeImpl" where
  "wrap_nullable t = (if \<not> can_inside_nullable t then t else Nullable (NullableType t))"

definition remove_nullable :: "DataTypeImpl \<Rightarrow> DataTypeImpl" where
  "remove_nullable t = (case t of Nullable n \<Rightarrow> nullable_inner n | _ \<Rightarrow> t)"

text \<open>\<open>PartialEq\<close> of the types: two intervals are equal whatever their kinds.\<close>

fun type_equal :: "DataTypeImpl \<Rightarrow> DataTypeImpl \<Rightarrow> bool"
  and types_equal :: "DataTypeImpl list \<Rightarrow> DataTypeImpl list \<Rightarrow> bool" where
  "type_equal (Timestamp l) rhs = (case rhs of Timestamp r \<Rightarrow> ts_precision l = ts_precision r | _ \<Rightarrow> False)"
| "type_equal (Nullable (NullableType l)) rhs =
     (case rhs of Nullable (NullableType r) \<Rightarrow> type_equal l r | _ \<Rightarrow> False)"
| "type_equal (Array (ArrayType l)) rhs = (case rhs of Array (ArrayType r) \<Rightarrow> type_equal l r | _ \<Rightarrow> False)"
| "type_equal (Struct (StructType ln lt)) rhs =
     (case rhs of Struct (StructType rn rt) \<Rightarrow> types_equal lt rt \<and> ln = rn | _ \<Rightarrow> False)"
| "type_equal lhs rhs = (data_type_id lhs = data_type_id rhs)"
| "types_equal [] rhs = (rhs = [])"
| "types_equal (l # ls) rhs = (case rhs of [] \<Rightarrow> False | r # rs \<Rightarrow> type_equal l r \<and> types_equal ls rs)"


section \<open>Coercion\<close>

datatype DataValueBinaryOperator = Plus | Minus | Mul | Div | IntDiv | Modulo

datatype DataValueUnaryOperator = Negate

definition next_size :: "nat \<Rightarrow> nat" where
  "next_size sz = (if sz < 8 then sz * 2 else sz)"

definition construct_numeric_type :: "bool \<Rightarrow> bool \<Rightarrow> nat \<Rightarrow> query_error + DataTypeImpl" where
  "construct_numeric_type has_sign has_point byte_size =
     (case (has_sign, has_point) of
        (False, False) \<Rightarrow>
          if byte_size = 1 then Inr UInt8 else if byte_size = 2 then Inr UInt16
          else if byte_size = 4 then Inr UInt32 else if byte_size = 8 then Inr UInt64
          else if byte_size > 8 then Inr Int64 else Inl BadDataValueType
      | (False, True) \<Rightarrow>
          if byte_size = 4 then Inr Float32 else if byte_size = 8 then Inr Float64
          else if byte_size > 8 then Inr Float64 else Inl BadDataValueType
      | (True, False) \<Rightarrow>
          if byte_size = 1 then Inr Int8 else if byte_size = 2 then Inr Int16
          else if byte_size = 4 then Inr Int32 else if byte_size = 8 then Inr Int64
          else if byte_size > 8 then Inr UInt64 else Inl BadDataValueType
      | (True, True) \<Rightarrow>
          if byte_size = 1 then Inr Float32 else if byte_size = 2 then Inr Float32
          else if byte_size = 4 then Inr Float32 else if byte_size = 8 then Inr Float64
          else if byte_size > 8 then Inr Float64 else Inl BadDataValueType)"

definition numerical_coercion :: "DataTypeImpl \<Rightarrow> DataTypeImpl \<Rightarrow> bool \<Rightarrow> query_error + DataTypeImpl" where
  "numerical_coercion lhs_type rhs_type allow_overflow =
     (let lhs_id = data_type_id lhs_type; rhs_id = data_type_id rhs_type;
          has_float = is_floating lhs_id \<or> is_floating rhs_id;
          has_integer = is_integer lhs_id \<or> is_integer rhs_id;
          has_signed = is_signed_numeric lhs_id \<or> is_signed_numeric rhs_id
      in try_res (numeric_byte_size lhs_id) (\<lambda>size_of_lhs.
         try_res (numeric_byte_size rhs_id) (\<lambda>size_of_rhs.
         let max_size_of_unsigned_integer =
               max (if is_signed_numeric lhs_id then 0 else size_of_lhs)
                   (if is_signed_numeric rhs_id then 0 else size_of_rhs);
             max_size_of_signed_integer =
               max (if \<not> is_signed_numeric lhs_id then 0 else size_of_lhs)
                   (if \<not> is_signed_numeric rhs_id then 0 else size_of_rhs);
             max_size_of_integer =
               max (if \<not> is_integer lhs_id then 0 else size_of_lhs) (if \<not> is_integer rhs_id then 0 else size_of_rhs);
             max_size_of_float =
               max (if \<not> is_floating lhs_id then 0 else size_of_lhs) (if \<not> is_floating rhs_id then 0 else size_of_rhs);
             should_double =
               ((has_float \<and> has_integer \<and> max_size_of_integer \<ge> max_size_of_float)
                \<or> (has_signed \<and> max_size_of_unsigned_integer \<ge> max_size_of_signed_integer));
             max_size = (if should_double then max size_of_rhs size_of_lhs * 2 else max size_of_rhs size_of_lhs)
         in if max_size > 8
            then (if allow_overflow then construct_numeric_type has_signed has_float 8 else Inl BadDataValueType)
            else construct_numeric_type has_signed has_float max_size)))"

definition numerical_arithmetic_coercion ::
  "DataValueBinaryOperator \<Rightarrow> DataTypeImpl \<Rightarrow> DataTypeImpl \<Rightarrow> query_error + DataTypeImpl" where
  "numerical_arithmetic_coercion op lhs_type rhs_type =
     (let lhs_id = data_type_id lhs_type; rhs_id = data_type_id rhs_type in
      if \<not> is_numeric lhs_id \<or> \<not> is_numeric rhs_id then Inl BadDataValueType
      else
        let has_signed = is_signed_numeric lhs_id \<or> is_signed_numeric rhs_id;
            has_float = is_floating lhs_id \<or> is_floating rhs_id
        in try_res (numeric_byte_size lhs_id) (\<lambda>size_of_lhs.
           try_res (numeric_byte_size rhs_id) (\<lambda>size_of_rhs.
           let max_size = max size_of_lhs size_of_rhs in
           case op of
             Plus \<Rightarrow> construct_numeric_type has_signed has_float (next_size max_size)
           | Mul \<Rightarrow> construct_numeric_type has_signed has_float (next_size max_size)
           | Modulo \<Rightarrow>
               if has_float then Inr Float64
               else
                 let result_is_signed = is_signed_numeric lhs_id;
                     size_of_result = (if result_is_signed then next_size size_of_rhs else size_of_rhs)
                 in construct_numeric_type result_is_signed False size_of_result
           | Minus \<Rightarrow> construct_numeric_type True has_float (next_size max_size)
           | Div \<Rightarrow> Inr Float64
           | IntDiv \<Rightarrow> construct_numeric_type has_signed False max_size)))"

definition numerical_unary_arithmetic_coercion ::
  "DataValueUnaryOperator \<Rightarrow> DataTypeImpl \<Rightarrow> query_error + DataTypeImpl" where
  "numerical_unary_arithmetic_coercion op val_type =
     (let type_id = data_type_id val_type in
      if \<not> is_numeric type_id then Inl BadDataValueType
      else case op of Negate \<Rightarrow>
        let has_float = is_floating type_id; has_signed = is_signed_numeric type_id in
        try_res (numeric_byte_size type_id) (\<lambda>numeric_size.
          construct_numeric_type True has_float (if has_signed then numeric_size else next_size numeric_size)))"

definition compare_coercion :: "DataTypeImpl \<Rightarrow> DataTypeImpl \<Rightarrow> query_error + DataTypeImpl" where
  "compare_coercion lhs_type rhs_type =
     (let lhs_id = data_type_id lhs_type; rhs_id = data_type_id rhs_type in
      if type_equal lhs_type rhs_type then Inr lhs_type
      else if is_numeric lhs_id \<and> is_numeric rhs_id then numerical_coercion lhs_type rhs_type True
      else if lhs_id = ID_Null then Inr (wrap_nullable rhs_type)
      else if rhs_id = ID_Null then Inr (wrap_nullable lhs_type)
      else if (is_numeric lhs_id \<and> is_string rhs_id) \<or> (is_numeric rhs_id \<and> is_string lhs_id) then Inr Float64
      else if (is_numeric lhs_id \<or> is_string lhs_id) \<and> is_date_or_date_time rhs_id then Inr rhs_type
      else if (is_numeric rhs_id \<or> is_string rhs_id) \<and> is_date_or_date_time lhs_id then Inr lhs_type
      else if is_date_or_date_time lhs_id \<and> is_date_or_date_time rhs_id then
        (case (lhs_type, rhs_type) of
           (Date, _) \<Rightarrow> Inr rhs_type
         | (_, Date) \<Rightarrow> Inr lhs_type
         | (Timestamp l, Timestamp r) \<Rightarrow> Inr (Timestamp \<lparr>ts_precision = max (ts_precision l) (ts_precision r)\<rparr>)
         | _ \<Rightarrow> Inl Panic)
      else Inl IllegalDataType)"

lemma type_part_sizes:
  "size (nullable_inner n) < size n"
  "size (array_inner a) < size a"
  "size_list size (struct_types s) < size s"
  by (cases n, simp) (cases a, simp, cases s, simp)

lemma size_remove_nullable: "size (remove_nullable t) \<le> size t"
  using type_part_sizes(1) by (auto simp: remove_nullable_def intro: less_imp_le less_SucI split: DataTypeImpl.splits)

lemma size_remove_nullable_less: "is_nullable t \<Longrightarrow> size (remove_nullable t) < size t"
  using type_part_sizes(1) by (auto simp: remove_nullable_def is_nullable_def intro: less_SucI split: DataTypeImpl.splits)

text \<open>
  \<open>merge_types\<close>; its second function is the \<open>collect\<close> over the zipped members of two structs, which
  stops at the first error.
\<close>

function merge_types :: "DataTypeImpl \<Rightarrow> DataTypeImpl \<Rightarrow> query_error + DataTypeImpl"
  and merge_members :: "DataTypeImpl list \<Rightarrow> DataTypeImpl list \<Rightarrow> query_error + DataTypeImpl list" where
  "merge_types lhs_type rhs_type =
     (if is_nullable lhs_type \<or> is_nullable rhs_type
      then try_res (merge_types (remove_nullable lhs_type) (remove_nullable rhs_type))
             (\<lambda>t. Inr (wrap_nullable t))
      else
        case (lhs_type, rhs_type) of
          (Null, _) \<Rightarrow> Inr (wrap_nullable rhs_type)
        | (_, Null) \<Rightarrow> Inr (wrap_nullable lhs_type)
        | (Array a, Array b) \<Rightarrow>
            try_res (merge_types (array_inner a) (array_inner b)) (\<lambda>typ. Inr (Array (ArrayType typ)))
        | (Struct a, Struct b) \<Rightarrow>
            if struct_names a \<noteq> struct_names b then Inl BadArguments
            else try_res (merge_members (struct_types a) (struct_types b))
                   (\<lambda>types. Inr (Struct (StructType (struct_names a) types)))
        | _ \<Rightarrow>
            let lhs_id = data_type_id lhs_type; rhs_id = data_type_id rhs_type in
            if lhs_id = rhs_id then Inr lhs_type
            else if is_numeric lhs_id \<and> is_numeric rhs_id then numerical_coercion lhs_type rhs_type False
            else Inl BadDataValueType)"
| "merge_members [] bs = Inr []"
| "merge_members (a # as) [] = Inr []"
| "merge_members (a # as) (b # bs) =
     try_res (merge_types a b) (\<lambda>t. try_res (merge_members as bs) (\<lambda>ts. Inr (t # ts)))"
  by pat_completeness auto

termination
proof (relation "measure (\<lambda>x. case x of Inl (a, b) \<Rightarrow> size a + size b | Inr (as, bs) \<Rightarrow> size_list size as + size_list size bs)", goal_cases)
  case 1
  show ?case by simp
next
  case (2 l r)
  then show ?case
    using size_remove_nullable[of l] size_remove_nullable[of r] size_remove_nullable_less[of l]
      size_remove_nullable_less[of r] by auto
qed (use type_part_sizes(2,3) in \<open>auto intro!: less_SucI add_strict_mono\<close>)

declare merge_types.simps [simp del]

fun aggregate_types :: "DataTypeImpl list \<Rightarrow> query_error + DataTypeImpl" where
  "aggregate_types [] = Inl BadArguments"
| "aggregate_types [t] = Inr t"
| "aggregate_types (left # t # ts) = try_res (aggregate_types (t # ts)) (\<lambda>right. merge_types left right)"


section \<open>The generated result types\<close>

datatype prim = U8 | U16 | U32 | U64 | I8 | I16 | I32 | I64 | F32 | F64

definition all_prims :: "prim list" where
  "all_prims = [U8, U16, U32, U64, I8, I16, I32, I64, F32, F64]"

text \<open>\<open>ToDataType\<close> of the number types.\<close>

fun to_data_type :: "prim \<Rightarrow> DataTypeImpl" where
  "to_data_type U8 = UInt8"
| "to_data_type U16 = UInt16"
| "to_data_type U32 = UInt32"
| "to_data_type U64 = UInt64"
| "to_data_type I8 = Int8"
| "to_data_type I16 = Int16"
| "to_data_type I32 = Int32"
| "to_data_type I64 = Int64"
| "to_data_type F32 = Float32"
| "to_data_type F64 = Float64"

record ResultTypeOfBinary =
  AddMul :: prim
  MinusT :: prim
  IntDivT :: prim
  ModuloT :: prim
  LeastSuper :: prim

fun result_type_u8 :: "prim \<Rightarrow> ResultTypeOfBinary" where
  "result_type_u8 U8 = \<lparr>AddMul = U16, MinusT = I16, IntDivT = U8, ModuloT = U8, LeastSuper = U8\<rparr>"
| "result_type_u8 U16 = \<lparr>AddMul = U32, MinusT = I32, IntDivT = U16, ModuloT = U16, LeastSuper = U16\<rparr>"
| "result_type_u8 U32 = \<lparr>AddMul = U64, MinusT = I64, IntDivT = U32, ModuloT = U32, LeastSuper = U32\<rparr>"
| "result_type_u8 U64 = \<lparr>AddMul = U64, MinusT = I64, IntDivT = U64, ModuloT = U64, LeastSuper = U64\<rparr>"
| "result_type_u8 I8 = \<lparr>AddMul = I16, MinusT = I16, IntDivT = I8, ModuloT = U8, LeastSuper = I16\<rparr>"
| "result_type_u8 I16 = \<lparr>AddMul = I32, MinusT = I32, IntDivT = I16, ModuloT = U16, LeastSuper = I16\<rparr>"
| "result_type_u8 I32 = \<lparr>AddMul = I64, MinusT = I64, IntDivT = I32, ModuloT = U32, LeastSuper = I32\<rparr>"
| "result_type_u8 I64 = \<lparr>AddMul = I64, MinusT = I64, IntDivT = I64, ModuloT = U64, LeastSuper = I64\<rparr>"
| "result_type_u8 F32 = \<lparr>AddMul = F64, MinusT = F64, IntDivT = I32, ModuloT = F64, LeastSuper = F32\<rparr>"
| "result_type_u8 F64 = \<lparr>AddMul = F64, MinusT = F64, IntDivT = I64, ModuloT = F64, LeastSuper = F64\<rparr>"

fun result_type_u16 :: "prim \<Rightarrow> ResultTypeOfBinary" where
  "result_type_u16 U8 = \<lparr>AddMul = U32, MinusT = I32, IntDivT = U16, ModuloT = U8, LeastSuper = U16\<rparr>"
| "result_type_u16 U16 = \<lparr>AddMul = U32, MinusT = I32, IntDivT = U16, ModuloT = U16, LeastSuper = U16\<rparr>"
| "result_type_u16 U32 = \<lparr>AddMul = U64, MinusT = I64, IntDivT = U32, ModuloT = U32, LeastSuper = U32\<rparr>"
| "result_type_u16 U64 = \<lparr>AddMul = U64, MinusT = I64, IntDivT = U64, ModuloT = U64, LeastSuper = U64\<rparr>"
| "result_type_u16 I8 = \<lparr>AddMul = I32, MinusT = I32, IntDivT = I16, ModuloT = U8, LeastSuper = I32\<rparr>"
| "result_type_u16 I16 = \<lparr>AddMul = I32, MinusT = I32, IntDivT = I16, ModuloT = U16, LeastSuper = I32\<rparr>"
| "result_type_u16 I32 = \<lparr>AddMul = I64, MinusT = I64, IntDivT = I32, ModuloT = U32, LeastSuper = I32\<rparr>"
| "result_type_u16 I64 = \<lparr>AddMul = I64, MinusT = I64, IntDivT = I64, ModuloT = U64, LeastSuper = I64\<rparr>"
| "result_type_u16 F32 = \<lparr>AddMul = F64, MinusT = F64, IntDivT = I32, ModuloT = F64, LeastSuper = F32\<rparr>"
| "result_type_u16 F64 = \<lparr>AddMul = F64, MinusT = F64, IntDivT = I64, ModuloT = F64, LeastSuper = F64\<rparr>"

fun result_type_u32 :: "prim \<Rightarrow> ResultTypeOfBinary" where
  "result_type_u32 U8 = \<lparr>AddMul = U64, MinusT = I64, IntDivT = U32, ModuloT = U8, LeastSuper = U32\<rparr>"
| "result_type_u32 U16 = \<lparr>AddMul = U64, MinusT = I64, IntDivT = U32, ModuloT = U16, LeastSuper = U32\<rparr>"
| "result_type_u32 U32 = \<lparr>AddMul = U64, MinusT = I64, IntDivT = U32, ModuloT = U32, LeastSuper = U32\<rparr>"
| "result_type_u32 U64 = \<lparr>AddMul = U64, MinusT = I64, IntDivT = U64, ModuloT = U64, LeastSuper = U64\<rparr>"
| "result_type_u32 I8 = \<lparr>AddMul = I64, MinusT = I64, IntDivT = I32, ModuloT = U8, LeastSuper = I64\<rparr>"
| "result_type_u32 I16 = \<lparr>AddMul = I64, MinusT = I64, IntDivT = I32, ModuloT = U16, LeastSuper = I64\<rparr>"
| "result_type_u32 I32 = \<lparr>AddMul = I64, MinusT = I64, IntDivT = I32, ModuloT = U32, LeastSuper = I64\<rparr>"
| "result_type_u32 I64 = \<lparr>AddMul = I64, MinusT = I64, IntDivT = I64, ModuloT = U64, LeastSuper = I64\<rparr>"
| "result_type_u32 F32 = \<lparr>AddMul = F64, MinusT = F64, IntDivT = I32, ModuloT = F64, LeastSuper = F64\<rparr>"
| "result_type_u32 F64 = \<lparr>AddMul = F64, MinusT = F64, IntDivT = I64, ModuloT = F64, LeastSuper = F64\<rparr>"

fun result_type_u64 :: "prim \<Rightarrow> ResultTypeOfBinary" where
  "result_type_u64 U8 = \<lparr>AddMul = U64, MinusT = I64, IntDivT = U64, ModuloT = U8, LeastSuper = U64\<rparr>"
| "result_type_u64 U16 = \<lparr>AddMul = U64, MinusT = I64, IntDivT = U64, ModuloT = U16, LeastSuper = U64\<rparr>"
| "result_type_u64 U32 = \<lparr>AddMul = U64, MinusT = I64, IntDivT = U64, ModuloT = U32, LeastSuper = U64\<rparr>"
| "result_type_u64 U64 = \<lparr>AddMul = U64, MinusT = I64, IntDivT = U64, ModuloT = U64, LeastSuper = U64\<rparr>"
| "result_type_u64 I8 = \<lparr>AddMul = I64, MinusT = I64, IntDivT = I64, ModuloT = U8, LeastSuper = I64\<rparr>"
| "result_type_u64 I16 = \<lparr>AddMul = I64, MinusT = I64, IntDivT = I64, ModuloT = U16, LeastSuper = I64\<rparr>"
| "result_type_u64 I32 = \<lparr>AddMul = I64, MinusT = I64, IntDivT = I64, ModuloT = U32, LeastSuper = I64\<rparr>"
| "result_type_u64 I64 = \<lparr>AddMul = I64, MinusT = I64, IntDivT = I64, ModuloT = U64, LeastSuper = I64\<rparr>"
| "result_type_u64 F32 = \<lparr>AddMul = F64, MinusT = F64, IntDivT = I64, ModuloT = F64, LeastSuper = F64\<rparr>"
| "result_type_u64 F64 = \<lparr>AddMul = F64, MinusT = F64, IntDivT = I64, ModuloT = F64, LeastSuper = F64\<rparr>"

fun result_type_i8 :: "prim \<Rightarrow> ResultTypeOfBinary" where
  "result_type_i8 U8 = \<lparr>AddMul = I16, MinusT = I16, IntDivT = I8, ModuloT = I16, LeastSuper = I16\<rparr>"
| "result_type_i8 U16 = \<lparr>AddMul = I32, MinusT = I32, IntDivT = I16, ModuloT = I32, LeastSuper = I32\<rparr>"
| "result_type_i8 U32 = \<lparr>AddMul = I64, MinusT = I64, IntDivT = I32, ModuloT = I64, LeastSuper = I64\<rparr>"
| "result_type_i8 U64 = \<lparr>AddMul = I64, MinusT = I64, IntDivT = I64, ModuloT = I64, LeastSuper = I64\<rparr>"
| "result_type_i8 I8 = \<lparr>AddMul = I16, MinusT = I16, IntDivT = I8, ModuloT = I16, LeastSuper = I8\<rparr>"
| "result_type_i8 I16 = \<lparr>AddMul = I32, MinusT = I32, IntDivT = I16, ModuloT = I32, LeastSuper = I16\<rparr>"
| "result_type_i8 I32 = \<lparr>AddMul = I64, MinusT = I64, IntDivT = I32, ModuloT = I64, LeastSuper = I32\<rparr>"
| "result_type_i8 I64 = \<lparr>AddMul = I64, MinusT = I64, IntDivT = I64, ModuloT = I64, LeastSuper = I64\<rparr>"
| "result_type_i8 F32 = \<lparr>AddMul = F64, MinusT = F64, IntDivT = I32, ModuloT = F64, LeastSuper = F32\<rparr>"
| "result_type_i8 F64 = \<lparr>AddMul = F64, MinusT = F64, IntDivT = I64, ModuloT = F64, LeastSuper = F64\<rparr>"

fun result_type_i16 :: "prim \<Rightarrow> ResultTypeOfBinary" where
  "result_type_i16 U8 = \<lparr>AddMul = I32, MinusT = I32, IntDivT = I16, ModuloT = I16, LeastSuper = I16\<rparr>"
| "result_type_i16 U16 = \<lparr>AddMul = I32, MinusT = I32, IntDivT = I16, ModuloT = I32, LeastSuper = I32\<rparr>"
| "result_type_i16 U32 = \<lparr>AddMul = I64, MinusT = I64, IntDivT = I32, ModuloT = I64, LeastSuper = I64\<rparr>"
| "result_type_i16 U64 = \<lparr>AddMul = I64, MinusT = I64, IntDivT = I64, ModuloT = I64, LeastSuper = I64\<rparr>"
| "result_type_i16 I8 = \<lparr>AddMul = I32, MinusT = I32, IntDivT = I16, ModuloT = I16, LeastSuper = I16\<rparr>"
| "result_type_i16 I16 = \<lparr>AddMul = I32, MinusT = I32, IntDivT = I16, ModuloT = I32, LeastSuper = I16\<rparr>"
| "result_type_i16 I32 = \<lparr>AddMul = I64, MinusT = I64, IntDivT = I32, ModuloT = I64, LeastSuper = I32\<rparr>"
| "result_type_i16 I64 = \<lparr>AddMul = I64, MinusT = I64, IntDivT = I64, ModuloT = I64, LeastSuper = I64\<rparr>"
| "result_type_i16 F32 = \<lparr>AddMul = F64, MinusT = F64, IntDivT = I32, ModuloT = F64, LeastSuper = F32\<rparr>"
| "result_type_i16 F64 = \<lparr>AddMul = F64, MinusT = F64, IntDivT = I64, ModuloT = F64, LeastSuper = F64\<rparr>"

fun result_type_i32 :: "prim \<Rightarrow> ResultTypeOfBinary" where
  "result_type_i32 U8 = \<lparr>AddMul = I64, MinusT = I64, IntDivT = I32, ModuloT = I16, LeastSuper = I32\<rparr>"
| "result_type_i32 U16 = \<lparr>AddMul = I64, MinusT = I64, IntDivT = I32, ModuloT = I32, LeastSuper = I32\<rparr>"
| "result_type_i32 U32 = \<lparr>AddMul = I64, MinusT = I64, IntDivT = I32, ModuloT = I64, LeastSuper = I64\<rparr>"
| "result_type_i32 U64 = \<lparr>AddMul = I64, MinusT = I64, IntDivT = I64, ModuloT = I64, LeastSuper = I64\<rparr>"
| "result_type_i32 I8 = \<lparr>AddMul = I64, MinusT = I64, IntDivT = I32, ModuloT = I16, LeastSuper = I32\<rparr>"
| "result_type_i32 I16 = \<lparr>AddMul = I64, MinusT = I64, IntDivT = I32, ModuloT = I32, LeastSuper = I32\<rparr>"
| "result_type_i32 I32 = \<lparr>AddMul = I64, MinusT = I64, IntDivT = I32, ModuloT = I64, LeastSuper = I32\<rparr>"
| "result_type_i32 I64 = \<lparr>AddMul = I64, MinusT = I64, IntDivT = I64, ModuloT = I64, LeastSuper = I64\<rparr>"
| "result_type_i32 F32 = \<lparr>AddMul = F64, MinusT = F64, IntDivT = I32, ModuloT = F64, LeastSuper = F64\<rparr>"
| "result_type_i32 F64 = \<lparr>AddMul = F64, MinusT = F64, IntDivT = I64, ModuloT = F64, LeastSuper = F64\<rparr>"

fun result_type_i64 :: "prim \<Rightarrow> ResultTypeOfBinary" where
  "result_type_i64 U8 = \<lparr>AddMul = I64, MinusT = I64, IntDivT = I64, ModuloT = I16, LeastSuper = I64\<rparr>"
| "result_type_i64 U16 = \<lparr>AddMul = I64, MinusT = I64, IntDivT = I64, ModuloT = I32, LeastSuper = I64\<rparr>"
| "result_type_i64 U32 = \<lparr>AddMul = I64, MinusT = I64, IntDivT = I64, ModuloT = I64, LeastSuper = I64\<rparr>"
| "result_type_i64 U64 = \<lparr>AddMul = I64, MinusT = I64, IntDivT = I64, ModuloT = I64, LeastSuper = I64\<rparr>"
| "result_type_i64 I8 = \<lparr>AddMul = I64, MinusT = I64, IntDivT = I64, ModuloT = I16, LeastSuper = I64\<rparr>"
| "result_type_i64 I16 = \<lparr>AddMul = I64, MinusT = I64, IntDivT = I64, ModuloT = I32, LeastSuper = I64\<rparr>"
| "result_type_i64 I32 = \<lparr>AddMul = I64, MinusT = I64, IntDivT = I64, ModuloT = I64, LeastSuper = I64\<rparr>"
| "result_type_i64 I64 = \<lparr>AddMul = I64, MinusT = I64, IntDivT = I64, ModuloT = I64, LeastSuper = I64\<rparr>"
| "result_type_i64 F32 = \<lparr>AddMul = F64, MinusT = F64, IntDivT = I64, ModuloT = F64, LeastSuper = F64\<rparr>"
| "result_type_i64 F64 = \<lparr>AddMul = F64, MinusT = F64, IntDivT = I64, ModuloT = F64, LeastSuper = F64\<rparr>"

fun result_type_f32 :: "prim \<Rightarrow> ResultTypeOfBinary" where
  "result_type_f32 U8 = \<lparr>AddMul = F64, MinusT = F64, IntDivT = I32, ModuloT = F64, LeastSuper = F32\<rparr>"
| "result_type_f32 U16 = \<lparr>AddMul = F64, MinusT = F64, IntDivT = I32, ModuloT = F64, LeastSuper = F32\<rparr>"
| "result_type_f32 U32 = \<lparr>AddMul = F64, MinusT = F64, IntDivT = I32, ModuloT = F64, LeastSuper = F64\<rparr>"
| "result_type_f32 U64 = \<lparr>AddMul = F64, MinusT = F64, IntDivT = I64, ModuloT = F64, LeastSuper = F64\<rparr>"
| "result_type_f32 I8 = \<lparr>AddMul = F64, MinusT = F64, IntDivT = I32, ModuloT = F64, LeastSuper = F32\<rparr>"
| "result_type_f32 I16 = \<lparr>AddMul = F64, MinusT = F64, IntDivT = I32, ModuloT = F64, LeastSuper = F32\<rparr>"
| "result_type_f32 I32 = \<lparr>AddMul = F64, MinusT = F64, IntDivT = I32, ModuloT = F64, LeastSuper = F64\<rparr>"
| "result_type_f32 I64 = \<lparr>AddMul = F64, MinusT = F64, IntDivT = I64, ModuloT = F64, LeastSuper = F64\<rparr>"
| "result_type_f32 F32 = \<lparr>AddMul = F64, MinusT = F64, IntDivT = I32, ModuloT = F64, LeastSuper = F32\<rparr>"
| "result_type_f32 F64 = \<lparr>AddMul = F64, MinusT = F64, IntDivT = I64, ModuloT = F64, LeastSuper = F64\<rparr>"

fun result_type_f64 :: "prim \<Rightarrow> ResultTypeOfBinary" where
  "result_type_f64 U8 = \<lparr>AddMul = F64, MinusT = F64, IntDivT = I64, ModuloT = F64, LeastSuper = F64\<rparr>"
| "result_type_f64 U16 = \<lparr>AddMul = F64, MinusT = F64, IntDivT = I64, ModuloT = F64, LeastSuper = F64\<rparr>"
| "result_type_f64 U32 = \<lparr>AddMul = F64, MinusT = F64, IntDivT = I64, ModuloT = F64, LeastSuper = F64\<rparr>"
| "result_type_f64 U64 = \<lparr>AddMul = F64, MinusT = F64, IntDivT = I64, ModuloT = F64, LeastSuper = F64\<rparr>"
| "result_type_f64 I8 = \<lparr>AddMul = F64, MinusT = F64, IntDivT = I64, ModuloT = F64, LeastSuper = F64\<rparr>"
| "result_type_f64 I16 = \<lparr>AddMul = F64, MinusT = F64, IntDivT = I64, ModuloT = F64, LeastSuper = F64\<rparr>"
| "result_type_f64 I32 = \<lparr>AddMul = F64, MinusT = F64, IntDivT = I64, ModuloT = F64, LeastSuper = F64\<rparr>"
| "result_type_f64 I64 = \<lparr>AddMul = F64, MinusT = F64, IntDivT = I64, ModuloT = F64, LeastSuper = F64\<rparr>"
| "result_type_f64 F32 = \<lparr>AddMul = F64, MinusT = F64, IntDivT = I64, ModuloT = F64, LeastSuper = F64\<rparr>"
| "result_type_f64 F64 = \<lparr>AddMul = F64, MinusT = F64, IntDivT = I64, ModuloT = F64, LeastSuper = F64\<rparr>"

fun result_type_of_binary :: "prim \<Rightarrow> prim \<Rightarrow> ResultTypeOfBinary" where
  "result_type_of_binary U8 r = result_type_u8 r"
| "result_type_of_binary U16 r = result_type_u16 r"
| "result_type_of_binary U32 r = result_type_u32 r"
| "result_type_of_binary U64 r = result_type_u64 r"
| "result_type_of_binary I8 r = result_type_i8 r"
| "result_type_of_binary I16 r = result_type_i16 r"
| "result_type_of_binary I32 r = result_type_i32 r"
| "result_type_of_binary I64 r = result_type_i64 r"
| "result_type_of_binary F32 r = result_type_f32 r"
| "result_type_of_binary F64 r = result_type_f64 r"

fun result_type_of_unary :: "prim \<Rightarrow> prim" where
  "result_type_of_unary U8 = I16"
| "result_type_of_unary U16 = I32"
| "result_type_of_unary U32 = I64"
| "result_type_of_unary U64 = I64"
| "result_type_of_unary I8 = I8"
| "result_type_of_unary I16 = I16"
| "result_type_of_unary I32 = I32"
| "result_type_of_unary I64 = I64"
| "result_type_of_unary F32 = F32"
| "result_type_of_unary F64 = F64"

text \<open>
  The generator: the impls it writes, in order, or \<open>None\<close> where an \<open>unwrap\<close> or the last match panics.
\<close>

fun to_primitive_str :: "DataTypeImpl \<Rightarrow> prim option" where
  "to_primitive_str UInt8 = Some U8"
| "to_primitive_str UInt16 = Some U16"
| "to_primitive_str UInt32 = Some U32"
| "to_primitive_str UInt64 = Some U64"
| "to_primitive_str Int8 = Some I8"
| "to_primitive_str Int16 = Some I16"
| "to_primitive_str Int32 = Some I32"
| "to_primitive_str Int64 = Some I64"
| "to_primitive_str Float32 = Some F32"
| "to_primitive_str Float64 = Some F64"
| "to_primitive_str _ = None"

definition unwrap_prim :: "query_error + DataTypeImpl \<Rightarrow> prim option" where
  "unwrap_prim r = (case r of Inl _ \<Rightarrow> None | Inr t \<Rightarrow> to_primitive_str t)"

definition codegen_binary :: "DataTypeImpl \<Rightarrow> DataTypeImpl \<Rightarrow> ((prim \<times> prim) \<times> ResultTypeOfBinary) option" where
  "codegen_binary left right =
     Option.bind (to_primitive_str left) (\<lambda>l.
     Option.bind (to_primitive_str right) (\<lambda>r.
     Option.bind (unwrap_prim (numerical_arithmetic_coercion Plus left right)) (\<lambda>add_mul.
     Option.bind (unwrap_prim (numerical_arithmetic_coercion Minus left right)) (\<lambda>minus.
     Option.bind (unwrap_prim (numerical_arithmetic_coercion IntDiv left right)) (\<lambda>int_div.
     Option.bind (unwrap_prim (numerical_arithmetic_coercion Modulo left right)) (\<lambda>modulo.
     Option.bind (unwrap_prim (numerical_coercion left right True)) (\<lambda>least_super.
       Some ((l, r), \<lparr>AddMul = add_mul, MinusT = minus, IntDivT = int_div, ModuloT = modulo, LeastSuper = least_super\<rparr>))))))))"

definition codegen_unary :: "DataTypeImpl \<Rightarrow> (prim \<times> prim) option" where
  "codegen_unary arg =
     Option.bind (to_primitive_str arg) (\<lambda>a.
     Option.bind (unwrap_prim (numerical_unary_arithmetic_coercion Negate arg)) (\<lambda>negate. Some (a, negate)))"

definition codegen_arithmetic_type ::
  "(((prim \<times> prim) \<times> ResultTypeOfBinary) option list) \<times> ((prim \<times> prim) option list)" where
  "codegen_arithmetic_type =
     (let lhs = [UInt8, UInt16, UInt32, UInt64, Int8, Int16, Int32, Int64, Float32, Float64]; rhs = lhs
      in (concat (map (\<lambda>left. map (\<lambda>right. codegen_binary left right) rhs) lhs), map codegen_unary lhs))"

end
