(* ===== verification/Arithmetic.thy ===== *)
theory Arithmetic
  imports Type_Coercion
begin

text \<open>
  The arithmetic functions on columns (\<open>common/functions/src/scalars/arithmetics\<close>): which scalar
  function is chosen for the argument types, and its evaluation row by row
  (\<open>expressions/binary.rs\<close>, \<open>unary.rs\<close>). An integer of a Rust type is an \<open>int\<close> in the range of the
  type. Floating point numbers are of any type \<open>'f\<close> with the operations of a \<open>float_ops\<close>. The build
  is one with overflow checks: an operator that overflows and a failed \<open>debug_assert\<close> are a \<open>Panic\<close>.
  A function the code looks up in the factory is found by the argument \<open>get\<close>.
\<close>

section \<open>Numbers\<close>

fun width :: "prim \<Rightarrow> nat" where
  "width U8 = 8" | "width U16 = 16" | "width U32 = 32" | "width U64 = 64"
| "width I8 = 8" | "width I16 = 16" | "width I32 = 32" | "width I64 = 64"
| "width F32 = 32" | "width F64 = 64"

definition prim_float :: "prim \<Rightarrow> bool" where
  "prim_float P = (P = F32 \<or> P = F64)"

definition prim_signed :: "prim \<Rightarrow> bool" where
  "prim_signed P = (P = I8 \<or> P = I16 \<or> P = I32 \<or> P = I64)"

definition prim_min :: "prim \<Rightarrow> int" where
  "prim_min P = (if prim_signed P then - (2 ^ (width P - 1)) else 0)"

definition prim_max :: "prim \<Rightarrow> int" where
  "prim_max P = (if prim_signed P then 2 ^ (width P - 1) - 1 else 2 ^ width P - 1)"

definition fits :: "prim \<Rightarrow> int \<Rightarrow> bool" where
  "fits P v = (prim_min P \<le> v \<and> v \<le> prim_max P)"

text \<open>The integer of type \<open>P\<close> with the low bits of \<open>v\<close>: \<open>v as P\<close>.\<close>

definition wrap :: "prim \<Rightarrow> int \<Rightarrow> int" where
  "wrap P v = (v - prim_min P) mod 2 ^ width P + prim_min P"

text \<open>The operator \<open>%\<close> of Rust: the remainder of a division that rounds towards zero.\<close>

definition rust_rem :: "int \<Rightarrow> int \<Rightarrow> int" where
  "rust_rem a b = sgn a * (\<bar>a\<bar> mod \<bar>b\<bar>)"

datatype 'f scalar = Num int | Flt 'f

record 'f float_ops =
  f_from_int :: "prim \<Rightarrow> int \<Rightarrow> 'f"
  f_to_int :: "prim \<Rightarrow> 'f \<Rightarrow> int"
  f_convert :: "prim \<Rightarrow> 'f \<Rightarrow> 'f"
  f_add :: "prim \<Rightarrow> 'f \<Rightarrow> 'f \<Rightarrow> 'f"
  f_sub :: "prim \<Rightarrow> 'f \<Rightarrow> 'f \<Rightarrow> 'f"
  f_mul :: "prim \<Rightarrow> 'f \<Rightarrow> 'f \<Rightarrow> 'f"
  f_div :: "prim \<Rightarrow> 'f \<Rightarrow> 'f \<Rightarrow> 'f"
  f_rem :: "prim \<Rightarrow> 'f \<Rightarrow> 'f \<Rightarrow> 'f"
  f_neg :: "prim \<Rightarrow> 'f \<Rightarrow> 'f"
  f_is_zero :: "'f \<Rightarrow> bool"

text \<open>\<open>AsPrimitive::as_\<close>, the casts of Rust.\<close>

fun as_prim :: "'f float_ops \<Rightarrow> prim \<Rightarrow> 'f scalar \<Rightarrow> 'f scalar" where
  "as_prim F P (Num v) = (if prim_float P then Flt (f_from_int F P v) else Num (wrap P v))"
| "as_prim F P (Flt x) = (if prim_float P then Flt (f_convert F P x) else Num (f_to_int F P x))"

text \<open>
  A binary operator at type \<open>O\<close>, on two values of that type: with an overflow check, and wrapping.
\<close>

fun checked_op ::
  "prim \<Rightarrow> (int \<Rightarrow> int \<Rightarrow> int) \<Rightarrow> ('f \<Rightarrow> 'f \<Rightarrow> 'f) \<Rightarrow> 'f scalar \<Rightarrow> 'f scalar \<Rightarrow> query_error + 'f scalar" where
  "checked_op P i f (Num a) (Num b) = (if fits P (i a b) then Inr (Num (i a b)) else Inl Panic)"
| "checked_op P i f (Flt a) (Flt b) = Inr (Flt (f a b))"
| "checked_op P i f _ _ = Inl Panic"

fun wrapping_op ::
  "prim \<Rightarrow> (int \<Rightarrow> int \<Rightarrow> int) \<Rightarrow> 'f scalar \<Rightarrow> 'f scalar \<Rightarrow> query_error + 'f scalar" where
  "wrapping_op P i (Num a) (Num b) = Inr (Num (wrap P (i a b)))"
| "wrapping_op P i _ _ = Inl Panic"


section \<open>Columns\<close>

datatype 'a column = ConstColumn 'a nat | FullColumn "'a list"

fun col_values :: "'a column \<Rightarrow> 'a list" where
  "col_values (ConstColumn a n) = replicate n a"
| "col_values (FullColumn xs) = xs"

text \<open>The error of the \<open>EvalContext\<close>; the first one set is kept.\<close>

type_synonym ctx = "query_error option"

definition set_error :: "query_error \<Rightarrow> ctx \<Rightarrow> ctx" where
  "set_error e ctx = (case ctx of None \<Rightarrow> Some e | Some _ \<Rightarrow> ctx)"

fun map_rows :: "('a \<Rightarrow> ctx \<Rightarrow> query_error + 'b \<times> ctx) \<Rightarrow> 'a list \<Rightarrow> ctx \<Rightarrow> query_error + 'b list \<times> ctx" where
  "map_rows f [] ctx = Inr ([], ctx)"
| "map_rows f (x # xs) ctx =
     try_res (f x ctx) (\<lambda>(y, ctx). try_res (map_rows f xs ctx) (\<lambda>(ys, ctx). Inr (y # ys, ctx)))"

definition scalar_binary_op ::
  "'a column \<Rightarrow> 'a column \<Rightarrow> ('a \<Rightarrow> 'a \<Rightarrow> ctx \<Rightarrow> query_error + 'b \<times> ctx) \<Rightarrow> ctx \<Rightarrow> query_error + 'b column" where
  "scalar_binary_op l r f ctx =
     (if length (col_values l) \<noteq> length (col_values r) then Inl Panic
      else
        try_res
          (case (l, r) of
             (FullColumn xs, ConstColumn b _) \<Rightarrow> map_rows (\<lambda>a. f a b) xs ctx
           | (FullColumn xs, FullColumn ys) \<Rightarrow> map_rows (\<lambda>(a, b). f a b) (zip xs ys) ctx
           | (ConstColumn a _, FullColumn ys) \<Rightarrow> map_rows (\<lambda>b. f a b) ys ctx
           | (ConstColumn _ _, ConstColumn _ _) \<Rightarrow> map_rows (\<lambda>(a, b). f a b) (zip (col_values l) (col_values r)) ctx)
          (\<lambda>(result, ctx). case ctx of Some error \<Rightarrow> Inl error | None \<Rightarrow> Inr (FullColumn result)))"

definition scalar_unary_op ::
  "'a column \<Rightarrow> ('a \<Rightarrow> ctx \<Rightarrow> query_error + 'b \<times> ctx) \<Rightarrow> ctx \<Rightarrow> query_error + 'b column" where
  "scalar_unary_op l f ctx =
     (case l of
        ConstColumn _ _ \<Rightarrow> Inl UnknownColumn
      | FullColumn xs \<Rightarrow>
          try_res (map_rows f xs ctx)
            (\<lambda>(result, ctx). case ctx of Some error \<Rightarrow> Inl error | None \<Rightarrow> Inr (FullColumn result)))"


section \<open>Scalar functions\<close>

type_synonym 'f scalar_fn2 = "'f scalar \<Rightarrow> 'f scalar \<Rightarrow> ctx \<Rightarrow> query_error + 'f scalar \<times> ctx"
type_synonym 'f scalar_fn1 = "'f scalar \<Rightarrow> ctx \<Rightarrow> query_error + 'f scalar \<times> ctx"

abbreviation with_ctx :: "query_error + 'a \<Rightarrow> ctx \<Rightarrow> query_error + 'a \<times> ctx" where
  "with_ctx r ctx \<equiv> try_res r (\<lambda>v. Inr (v, ctx))"

definition add_scalar :: "'f float_ops \<Rightarrow> prim \<Rightarrow> 'f scalar_fn2" where
  "add_scalar F P l r ctx = with_ctx (checked_op P (+) (f_add F P) (as_prim F P l) (as_prim F P r)) ctx"

definition wrapping_add_scalar :: "'f float_ops \<Rightarrow> prim \<Rightarrow> 'f scalar_fn2" where
  "wrapping_add_scalar F P l r ctx = with_ctx (wrapping_op P (+) (as_prim F P l) (as_prim F P r)) ctx"

definition sub_scalar :: "'f float_ops \<Rightarrow> prim \<Rightarrow> 'f scalar_fn2" where
  "sub_scalar F P l r ctx = with_ctx (checked_op P (-) (f_sub F P) (as_prim F P l) (as_prim F P r)) ctx"

definition wrapping_sub_scalar :: "'f float_ops \<Rightarrow> prim \<Rightarrow> 'f scalar_fn2" where
  "wrapping_sub_scalar F P l r ctx = with_ctx (wrapping_op P (-) (as_prim F P l) (as_prim F P r)) ctx"

definition mul_scalar :: "'f float_ops \<Rightarrow> prim \<Rightarrow> 'f scalar_fn2" where
  "mul_scalar F P l r ctx = with_ctx (checked_op P (*) (f_mul F P) (as_prim F P l) (as_prim F P r)) ctx"

definition wrapping_mul_scalar :: "'f float_ops \<Rightarrow> prim \<Rightarrow> 'f scalar_fn2" where
  "wrapping_mul_scalar F P l r ctx = with_ctx (wrapping_op P (*) (as_prim F P l) (as_prim F P r)) ctx"

definition div_scalar :: "'f float_ops \<Rightarrow> 'f scalar_fn2" where
  "div_scalar F l r ctx = with_ctx (checked_op F64 (div) (f_div F F64) (as_prim F F64 l) (as_prim F F64 r)) ctx"

definition intdiv_scalar :: "'f float_ops \<Rightarrow> prim \<Rightarrow> 'f scalar_fn2" where
  "intdiv_scalar F P l r ctx =
     (case (as_prim F F64 l, as_prim F F64 r) of
        (Flt a, Flt b) \<Rightarrow>
          if f_is_zero F b then Inr (Num 0, set_error BadArguments ctx)
          else Inr (as_prim F P (Flt (f_div F F64 a b)), ctx)
      | _ \<Rightarrow> Inl Panic)"

definition neg :: "'f float_ops \<Rightarrow> prim \<Rightarrow> 'f scalar_fn1" where
  "neg F P l ctx =
     (case as_prim F P l of
        Num a \<Rightarrow> if fits P (- a) then Inr (Num (- a), ctx) else Inl Panic
      | Flt x \<Rightarrow> Inr (Flt (f_neg F P x), ctx))"

definition wrapping_neg :: "'f float_ops \<Rightarrow> prim \<Rightarrow> 'f scalar_fn1" where
  "wrapping_neg F P l ctx =
     (case as_prim F P l of Num a \<Rightarrow> Inr (Num (wrap P (- a)), ctx) | Flt _ \<Rightarrow> Inl Panic)"

text \<open>
  The remainder at type \<open>M\<close>, of a divisor that is not zero; \<open>MIN % -1\<close> panics in every build.
\<close>

fun prim_rem :: "'f float_ops \<Rightarrow> prim \<Rightarrow> 'f scalar \<Rightarrow> 'f scalar \<Rightarrow> query_error + 'f scalar" where
  "prim_rem F M (Num a) (Num b) =
     (if b = 0 then Inl Panic
      else if prim_signed M \<and> a = prim_min M \<and> b = -1 then Inl Panic else Inr (Num (rust_rem a b)))"
| "prim_rem F M (Flt a) (Flt b) = Inr (Flt (f_rem F M a b))"
| "prim_rem F M _ _ = Inl Panic"

fun prim_is_zero :: "'f float_ops \<Rightarrow> 'f scalar \<Rightarrow> bool" where
  "prim_is_zero F (Num a) = (a = 0)"
| "prim_is_zero F (Flt x) = f_is_zero F x"

text \<open>
  \<open>ToPrimitive::to_u64().unwrap()\<close> and its like: a value that does not fit panics.
\<close>

fun to_prim_unwrap :: "prim \<Rightarrow> 'f scalar \<Rightarrow> query_error + 'f scalar" where
  "to_prim_unwrap P (Num v) = (if fits P v then Inr (Num v) else Inl Panic)"
| "to_prim_unwrap P (Flt x) = Inl Panic"


section \<open>Functions\<close>

record 'f Function =
  fn_return_type :: DataTypeImpl
  fn_eval :: "'f scalar column list \<Rightarrow> query_error + 'f scalar column"

type_synonym 'f factory = "string \<Rightarrow> DataTypeImpl list \<Rightarrow> query_error + 'f Function"

definition BinaryArithmeticFunction_try_create_func ::
  "DataTypeImpl \<Rightarrow> 'f scalar_fn2 \<Rightarrow> query_error + 'f Function" where
  "BinaryArithmeticFunction_try_create_func result_type func =
     Inr \<lparr>fn_return_type = result_type,
          fn_eval = (\<lambda>columns. case columns of
              l # r # _ \<Rightarrow> scalar_binary_op l r func None
            | _ \<Rightarrow> Inl Panic)\<rparr>"

definition UnaryArithmeticFunction_try_create_func ::
  "DataTypeImpl \<Rightarrow> 'f scalar_fn1 \<Rightarrow> query_error + 'f Function" where
  "UnaryArithmeticFunction_try_create_func result_type func =
     Inr \<lparr>fn_return_type = result_type,
          fn_eval = (\<lambda>columns. case columns of l # _ \<Rightarrow> scalar_unary_op l func None | _ \<Rightarrow> Inl Panic)\<rparr>"

text \<open>The macros \<open>with_match_primitive_type_id\<close>, \<open>with_match_primitive_types_error\<close> and \<open>with_match_date_type_error\<close>.\<close>

fun match_primitive_type :: "TypeID \<Rightarrow> prim option" where
  "match_primitive_type ID_Int8 = Some I8"
| "match_primitive_type ID_Int16 = Some I16"
| "match_primitive_type ID_Int32 = Some I32"
| "match_primitive_type ID_Int64 = Some I64"
| "match_primitive_type ID_UInt8 = Some U8"
| "match_primitive_type ID_UInt16 = Some U16"
| "match_primitive_type ID_UInt32 = Some U32"
| "match_primitive_type ID_UInt64 = Some U64"
| "match_primitive_type ID_Float32 = Some F32"
| "match_primitive_type ID_Float64 = Some F64"
| "match_primitive_type _ = None"

definition with_primitive_type :: "TypeID \<Rightarrow> (prim \<Rightarrow> query_error + 'a) \<Rightarrow> query_error + 'a" where
  "with_primitive_type i body = (case match_primitive_type i of Some T \<Rightarrow> body T | None \<Rightarrow> Inl BadDataValueType)"

definition with_date_type :: "TypeID \<Rightarrow> (prim \<Rightarrow> query_error + 'a) \<Rightarrow> query_error + 'a" where
  "with_date_type i body =
     (case i of ID_Date \<Rightarrow> body I32 | ID_Timestamp \<Rightarrow> body I64 | _ \<Rightarrow> Inl BadDataValueType)"

fun IntervalKind_display :: "IntervalKind \<Rightarrow> string" where
  "IntervalKind_display Kind_Year = ''YEAR''"
| "IntervalKind_display Kind_Month = ''MONTH''"
| "IntervalKind_display Kind_Day = ''DAY''"
| "IntervalKind_display Kind_Hour = ''HOUR''"
| "IntervalKind_display Kind_Minute = ''MINUTE''"
| "IntervalKind_display Kind_Second = ''SECOND''"
| "IntervalKind_display Kind_Doy = ''DOY''"
| "IntervalKind_display Kind_Dow = ''DOW''"

definition ArithmeticPlusFunction_try_create_func ::
  "'f float_ops \<Rightarrow> 'f factory \<Rightarrow> DataTypeImpl list \<Rightarrow> query_error + 'f Function" where
  "ArithmeticPlusFunction_try_create_func F get args =
     (case args of
        a0 # a1 # _ \<Rightarrow>
          let left_type = data_type_id a0; right_type = data_type_id a1 in
          if is_date_or_date_time left_type then
            with_date_type left_type (\<lambda>T.
              case match_primitive_type right_type of
                Some D \<Rightarrow> BinaryArithmeticFunction_try_create_func a0 (add_scalar F T)
              | None \<Rightarrow>
                  (case a1 of
                     Interval interval \<Rightarrow> get (''add'' @ IntervalKind_display (iv_kind interval) @ ''s'') [a0, Int64]
                   | _ \<Rightarrow> Inl BadDataValueType))
          else if is_date_or_date_time right_type then
            with_date_type right_type (\<lambda>D.
            with_primitive_type left_type (\<lambda>T.
              BinaryArithmeticFunction_try_create_func a1 (add_scalar F D)))
          else
            with_primitive_type left_type (\<lambda>T.
            with_primitive_type right_type (\<lambda>D.
              let P = AddMul (result_type_of_binary T D); result_type = to_data_type P in
              case data_type_id result_type of
                ID_UInt64 \<Rightarrow> BinaryArithmeticFunction_try_create_func result_type (wrapping_add_scalar F U64)
              | ID_Int64 \<Rightarrow> BinaryArithmeticFunction_try_create_func result_type (wrapping_add_scalar F I64)
              | _ \<Rightarrow> BinaryArithmeticFunction_try_create_func result_type (add_scalar F P)))
      | _ \<Rightarrow> Inl Panic)"

definition ArithmeticMinusFunction_try_create_func ::
  "'f float_ops \<Rightarrow> 'f factory \<Rightarrow> DataTypeImpl list \<Rightarrow> query_error + 'f Function" where
  "ArithmeticMinusFunction_try_create_func F get args =
     (case args of
        a0 # a1 # _ \<Rightarrow>
          let left_type = data_type_id a0; right_type = data_type_id a1 in
          if is_date_or_date_time left_type then
            with_date_type left_type (\<lambda>T.
              case match_primitive_type right_type of
                Some D \<Rightarrow> BinaryArithmeticFunction_try_create_func a0 (sub_scalar F T)
              | None \<Rightarrow>
                  (case a1 of
                     Interval interval \<Rightarrow> get (''subtract'' @ IntervalKind_display (iv_kind interval) @ ''s'') [a0, Int64]
                   | _ \<Rightarrow>
                       with_date_type right_type (\<lambda>D.
                         BinaryArithmeticFunction_try_create_func Int32 (sub_scalar F I32))))
          else if is_date_or_date_time right_type then
            with_primitive_type left_type (\<lambda>T.
            with_date_type right_type (\<lambda>D.
              BinaryArithmeticFunction_try_create_func a1 (sub_scalar F D)))
          else
            with_primitive_type left_type (\<lambda>T.
            with_primitive_type right_type (\<lambda>D.
              let P = MinusT (result_type_of_binary T D); result_type = to_data_type P in
              case data_type_id result_type of
                ID_Int64 \<Rightarrow> BinaryArithmeticFunction_try_create_func result_type (wrapping_sub_scalar F I64)
              | _ \<Rightarrow> BinaryArithmeticFunction_try_create_func result_type (sub_scalar F P)))
      | _ \<Rightarrow> Inl Panic)"

definition ArithmeticMulFunction_try_create_func ::
  "'f float_ops \<Rightarrow> DataTypeImpl list \<Rightarrow> query_error + 'f Function" where
  "ArithmeticMulFunction_try_create_func F args =
     (case args of
        a0 # a1 # _ \<Rightarrow>
          with_primitive_type (data_type_id a0) (\<lambda>T.
          with_primitive_type (data_type_id a1) (\<lambda>D.
            let P = AddMul (result_type_of_binary T D); result_type = to_data_type P in
            case data_type_id result_type of
              ID_UInt64 \<Rightarrow> BinaryArithmeticFunction_try_create_func result_type (wrapping_mul_scalar F U64)
            | ID_Int64 \<Rightarrow> BinaryArithmeticFunction_try_create_func result_type (wrapping_mul_scalar F I64)
            | _ \<Rightarrow> BinaryArithmeticFunction_try_create_func result_type (mul_scalar F P)))
      | _ \<Rightarrow> Inl Panic)"

definition ArithmeticDivFunction_try_create_func ::
  "'f float_ops \<Rightarrow> DataTypeImpl list \<Rightarrow> query_error + 'f Function" where
  "ArithmeticDivFunction_try_create_func F args =
     (case args of
        a0 # a1 # _ \<Rightarrow>
          with_primitive_type (data_type_id a0) (\<lambda>T.
          with_primitive_type (data_type_id a1) (\<lambda>D.
            BinaryArithmeticFunction_try_create_func Float64 (div_scalar F)))
      | _ \<Rightarrow> Inl Panic)"

definition ArithmeticIntDivFunction_try_create_func ::
  "'f float_ops \<Rightarrow> DataTypeImpl list \<Rightarrow> query_error + 'f Function" where
  "ArithmeticIntDivFunction_try_create_func F args =
     (case args of
        a0 # a1 # _ \<Rightarrow>
          with_primitive_type (data_type_id a0) (\<lambda>T.
          with_primitive_type (data_type_id a1) (\<lambda>D.
            let P = IntDivT (result_type_of_binary T D) in
            BinaryArithmeticFunction_try_create_func (to_data_type P) (intdiv_scalar F P)))
      | _ \<Rightarrow> Inl Panic)"

definition ArithmeticNegateFunction_try_create_func ::
  "'f float_ops \<Rightarrow> DataTypeImpl list \<Rightarrow> query_error + 'f Function" where
  "ArithmeticNegateFunction_try_create_func F args =
     (case args of
        a0 # _ \<Rightarrow>
          with_primitive_type (data_type_id a0) (\<lambda>T.
            let P = result_type_of_unary T; result_type = to_data_type P in
            case data_type_id result_type of
              ID_Int64 \<Rightarrow> UnaryArithmeticFunction_try_create_func result_type (wrapping_neg F I64)
            | ID_Int32 \<Rightarrow> UnaryArithmeticFunction_try_create_func result_type (wrapping_neg F I32)
            | ID_Int16 \<Rightarrow> UnaryArithmeticFunction_try_create_func result_type (wrapping_neg F I16)
            | ID_Int8 \<Rightarrow> UnaryArithmeticFunction_try_create_func result_type (wrapping_neg F I8)
            | _ \<Rightarrow> UnaryArithmeticFunction_try_create_func result_type (neg F P))
      | _ \<Rightarrow> Inl Panic)"


section \<open>Modulo\<close>

text \<open>
  The loop of one row at a time: divisor zero is an error at once.
\<close>

definition modulo_row :: "'f float_ops \<Rightarrow> prim \<Rightarrow> prim \<Rightarrow> 'f scalar \<Rightarrow> 'f scalar \<Rightarrow> query_error + 'f scalar" where
  "modulo_row F M P l r =
     (let l = as_prim F M l; r = as_prim F M r in
      if prim_is_zero F r then Inl BadArguments
      else try_res (prim_rem F M l r) (\<lambda>v. Inr (as_prim F P v)))"

text \<open>
  \<open>rem_scalar\<close>: a column of dividends and one divisor of type \<open>R\<close>. For an unsigned \<open>R\<close> the
  dividends are converted by \<open>to_u64().unwrap()\<close> and its like; \<open>strength_reduce\<close> only precomputes
  the divisor.
\<close>

definition rem_scalar ::
  "'f float_ops \<Rightarrow> prim \<Rightarrow> prim \<Rightarrow> 'f scalar list \<Rightarrow> 'f scalar \<Rightarrow> query_error + 'f scalar list" where
  "rem_scalar F R P lhs rhs =
     (case data_type_id (to_data_type R) of
        ID_UInt64 \<Rightarrow>
          try_res (to_prim_unwrap U64 rhs) (\<lambda>rhs. collect_res (\<lambda>l. try_res (to_prim_unwrap U64 l) (\<lambda>l.
            try_res (prim_rem F U64 l rhs) (\<lambda>v. Inr (as_prim F P v)))) lhs)
      | ID_UInt32 \<Rightarrow>
          try_res (to_prim_unwrap U32 rhs) (\<lambda>rhs. collect_res (\<lambda>l. try_res (to_prim_unwrap U32 l) (\<lambda>l.
            try_res (prim_rem F U32 l rhs) (\<lambda>v. Inr (as_prim F P v)))) lhs)
      | ID_UInt16 \<Rightarrow>
          try_res (to_prim_unwrap U16 rhs) (\<lambda>rhs. collect_res (\<lambda>l. try_res (to_prim_unwrap U16 l) (\<lambda>l.
            try_res (prim_rem F U16 l rhs) (\<lambda>v. Inr (as_prim F P v)))) lhs)
      | ID_UInt8 \<Rightarrow>
          try_res (to_prim_unwrap U8 rhs) (\<lambda>rhs. collect_res (\<lambda>l. try_res (to_prim_unwrap U8 l) (\<lambda>l.
            try_res (prim_rem F U8 l rhs) (\<lambda>v. Inr (as_prim F P v)))) lhs)
      | _ \<Rightarrow>
          collect_res (\<lambda>l. try_res (prim_rem F R (as_prim F R l) rhs) (\<lambda>v. Inr (as_prim F P v))) lhs)"

definition ModuloFunctionImpl_eval ::
  "'f float_ops \<Rightarrow> prim \<Rightarrow> prim \<Rightarrow> 'f scalar column list \<Rightarrow> query_error + 'f scalar column" where
  "ModuloFunctionImpl_eval F M P columns =
     (case columns of
        FullColumn left # ConstColumn r n # _ \<Rightarrow>
          let r = as_prim F M r in
          if prim_is_zero F r then Inl BadArguments
          else try_res (rem_scalar F M P left r) (\<lambda>col. Inr (FullColumn col))
      | FullColumn left # FullColumn right # _ \<Rightarrow>
          try_res (collect_res (\<lambda>(l, r). modulo_row F M P l r) (zip left right)) (\<lambda>col. Inr (FullColumn col))
      | ConstColumn l n # FullColumn right # _ \<Rightarrow>
          try_res (collect_res (\<lambda>r. modulo_row F M P l r) right) (\<lambda>col. Inr (FullColumn col))
      | ConstColumn l n # ConstColumn r m # _ \<Rightarrow>
          try_res (collect_res (\<lambda>(l, r). modulo_row F M P l r) (zip (replicate n l) (replicate m r)))
            (\<lambda>col. Inr (FullColumn col))
      | _ \<Rightarrow> Inl Panic)"

definition ArithmeticModuloFunction_try_create_func ::
  "'f float_ops \<Rightarrow> DataTypeImpl list \<Rightarrow> query_error + 'f Function" where
  "ArithmeticModuloFunction_try_create_func F args =
     (case args of
        a0 # a1 # _ \<Rightarrow>
          with_primitive_type (data_type_id a0) (\<lambda>T.
          with_primitive_type (data_type_id a1) (\<lambda>D.
            let M = LeastSuper (result_type_of_binary T D); P = ModuloT (result_type_of_binary T D) in
            Inr \<lparr>fn_return_type = to_data_type P, fn_eval = ModuloFunctionImpl_eval F M P\<rparr>))
      | _ \<Rightarrow> Inl Panic)"

end
