(* ===== verification/Arithmetic_Laws.thy ===== *)
theory Arithmetic_Laws
  imports Complex_Main Arithmetic
begin

text \<open>
  What the types promise: the generated table is what its generator writes, every arithmetic
  function returns values of its declared type, sums, differences and products are exact below 64
  bits and wrap around at 64, and where the remainder is exact.
\<close>

section \<open>Integers of a width\<close>

lemma prim_range: "prim_max P = prim_min P + 2 ^ width P - 1"
  by (cases P) (simp_all add: prim_min_def prim_max_def prim_signed_def)

lemma fits_wrap [simp]: "fits P (wrap P v)"
  by (simp add: fits_def wrap_def prim_range)

lemma wrap_fits: "fits P v \<Longrightarrow> wrap P v = v"
  by (simp add: fits_def wrap_def prim_range)

lemma wrap_mod [simp]: "wrap P v mod 2 ^ width P = v mod 2 ^ width P"
  by (simp add: wrap_def mod_simps)

lemma wrap_eqI: "v mod 2 ^ width P = w mod 2 ^ width P \<Longrightarrow> wrap P v = wrap P w"
  by (simp add: wrap_def) (metis mod_diff_left_eq)

lemma wrap_ops:
  "wrap P (wrap P a + wrap P b) = wrap P (a + b)"
  "wrap P (wrap P a - wrap P b) = wrap P (a - b)"
  "wrap P (wrap P a * wrap P b) = wrap P (a * b)"
  "wrap P (- wrap P a) = wrap P (- a)"
proof -
  show "wrap P (wrap P a + wrap P b) = wrap P (a + b)"
    by (rule wrap_eqI) (metis mod_add_eq wrap_mod)
  show "wrap P (wrap P a - wrap P b) = wrap P (a - b)"
    by (rule wrap_eqI) (metis mod_diff_eq wrap_mod)
  show "wrap P (wrap P a * wrap P b) = wrap P (a * b)"
    by (rule wrap_eqI) (metis mod_mult_eq wrap_mod)
  show "wrap P (- wrap P a) = wrap P (- a)"
    by (rule wrap_eqI) (metis mod_minus_eq wrap_mod)
qed


section \<open>Columns\<close>

lemma map_rows_pure:
  "(\<And>x. x \<in> set xs \<Longrightarrow> f x ctx = Inr (g x, ctx)) \<Longrightarrow> map_rows f xs ctx = Inr (map g xs, ctx)"
  by (induction xs) simp_all

lemma zip_replicate_both: "zip xs (replicate (length xs) b) = map (\<lambda>a. (a, b)) xs"
  "zip (replicate (length ys) a) ys = map (Pair a) ys"
  by (simp_all add: zip_replicate2 zip_replicate1)

text \<open>However the two columns are stored, the result is the scalar function row by row.\<close>

lemma scalar_binary_op_rows:
  assumes "length (col_values l) = length (col_values r)"
  shows "scalar_binary_op l r f ctx =
           try_res (map_rows (\<lambda>(a, b). f a b) (zip (col_values l) (col_values r)) ctx)
             (\<lambda>(result, ctx). case ctx of Some error \<Rightarrow> Inl error | None \<Rightarrow> Inr (FullColumn result))"
proof -
  have m: "map_rows h (map k xs) ctx = map_rows (\<lambda>x. h (k x)) xs ctx" for h :: "'c \<Rightarrow> _" and k :: "'d \<Rightarrow> _" and xs ctx
    by (induction xs arbitrary: ctx) simp_all
  show ?thesis
  proof (cases l)
    case (ConstColumn a n)
    then show ?thesis using assms by (cases r) (auto simp: scalar_binary_op_def zip_replicate_both m)
  next
    case (FullColumn xs)
    then show ?thesis using assms by (cases r) (auto simp: scalar_binary_op_def zip_replicate_both m)
  qed
qed

lemma scalar_binary_op_pure:
  assumes "length (col_values l) = length (col_values r)"
    and "\<And>a b. (a, b) \<in> set (zip (col_values l) (col_values r)) \<Longrightarrow> f a b None = Inr (g a b, None)"
  shows "scalar_binary_op l r f None = Inr (FullColumn (map2 g (col_values l) (col_values r)))"
proof -
  have "map_rows (\<lambda>(a, b). f a b) (zip (col_values l) (col_values r)) None
        = Inr (map2 g (col_values l) (col_values r), None)"
    by (rule map_rows_pure) (auto simp: assms(2))
  then show ?thesis by (simp add: scalar_binary_op_rows[OF assms(1)])
qed


section \<open>Typing\<close>

fun typed :: "prim \<Rightarrow> 'f scalar \<Rightarrow> bool" where
  "typed P (Num v) = (\<not> prim_float P \<and> fits P v)"
| "typed P (Flt x) = prim_float P"

text \<open>The number type a column of the data type stores.\<close>

definition stored :: "DataTypeImpl \<Rightarrow> prim option" where
  "stored t = (case t of Date \<Rightarrow> Some I32 | Timestamp _ \<Rightarrow> Some I64 | _ \<Rightarrow> match_primitive_type (data_type_id t))"

text \<open>The casts of Rust from a floating point number saturate: the result fits its type.\<close>

definition float_casts :: "'f float_ops \<Rightarrow> bool" where
  "float_casts F = (\<forall>P x. \<not> prim_float P \<longrightarrow> fits P (f_to_int F P x))"

lemma typed_as_prim [simp]: "float_casts F \<Longrightarrow> typed P (as_prim F P v)"
  by (cases v) (simp_all add: float_casts_def)

lemma checked_op_typed: "typed P a \<Longrightarrow> checked_op P i f a b = Inr v \<Longrightarrow> typed P v"
  by (cases a; cases b) (auto split: if_splits)

lemma wrapping_op_typed: "typed P a \<Longrightarrow> wrapping_op P i a b = Inr v \<Longrightarrow> typed P v"
  by (cases a; cases b) auto

definition returns_typed :: "prim \<Rightarrow> ('a \<Rightarrow> ctx \<Rightarrow> query_error + 'f scalar \<times> ctx) \<Rightarrow> bool" where
  "returns_typed P f = (\<forall>x ctx v ctx'. f x ctx = Inr (v, ctx') \<longrightarrow> typed P v)"

lemma map_rows_typed:
  "returns_typed P f \<Longrightarrow> map_rows f xs ctx = Inr (ys, ctx') \<Longrightarrow> v \<in> set ys \<Longrightarrow> typed P v"
  by (induction xs arbitrary: ctx ys) (fastforce simp: try_res_Inr_iff returns_typed_def)+

lemma scalar_fn_typed:
  assumes "float_casts F"
  shows "returns_typed P (\<lambda>(a, b). add_scalar F P a b)" "returns_typed P (\<lambda>(a, b). wrapping_add_scalar F P a b)"
    "returns_typed P (\<lambda>(a, b). sub_scalar F P a b)" "returns_typed P (\<lambda>(a, b). wrapping_sub_scalar F P a b)"
    "returns_typed P (\<lambda>(a, b). mul_scalar F P a b)" "returns_typed P (\<lambda>(a, b). wrapping_mul_scalar F P a b)"
  using assms
  by (auto simp: returns_typed_def add_scalar_def wrapping_add_scalar_def sub_scalar_def wrapping_sub_scalar_def
      mul_scalar_def wrapping_mul_scalar_def try_res_Inr_iff
      dest: checked_op_typed[OF typed_as_prim] wrapping_op_typed[OF typed_as_prim])

lemma fits_zero [simp]: "fits P 0"
  by (cases P) (simp_all add: fits_def prim_min_def prim_max_def prim_signed_def)

lemma div_fn_typed:
  assumes "float_casts F"
  shows "returns_typed F64 (\<lambda>(a, b). div_scalar F a b)"
    "\<not> prim_float P \<Longrightarrow> returns_typed P (\<lambda>(a, b). intdiv_scalar F P a b)"
  using assms typed_as_prim[OF assms, of P]
  by (auto simp: returns_typed_def div_scalar_def intdiv_scalar_def try_res_Inr_iff
      dest: checked_op_typed[OF typed_as_prim] simp del: as_prim.simps split: scalar.splits if_splits)

lemma neg_fn_typed:
  assumes "float_casts F"
  shows "returns_typed P (neg F P)" "returns_typed P (wrapping_neg F P)"
proof -
  have t: "typed P (as_prim F P v)" for v using assms by simp
  show "returns_typed P (neg F P)" "returns_typed P (wrapping_neg F P)"
    unfolding returns_typed_def neg_def wrapping_neg_def
    using t by (auto split: scalar.splits if_splits simp del: as_prim.simps) (metis typed.simps)+
qed

text \<open>A function that declares a type and returns values of it, whatever its arguments.\<close>

definition well_typed :: "'f Function \<Rightarrow> bool" where
  "well_typed fn = (\<forall>columns col. fn_eval fn columns = Inr col \<longrightarrow>
     (\<exists>P. stored (fn_return_type fn) = Some P \<and> (\<forall>v \<in> set (col_values col). typed P v)))"

lemma scalar_binary_op_typed:
  assumes "returns_typed P (\<lambda>(a, b). f a b)" "scalar_binary_op l r f None = Inr col" "v \<in> set (col_values col)"
  shows "typed P v"
proof -
  have len: "length (col_values l) = length (col_values r)"
    using assms(2) by (auto simp: scalar_binary_op_def split: if_splits)
  show ?thesis
    using assms(2,3) map_rows_typed[OF assms(1)]
    by (fastforce simp: scalar_binary_op_rows[OF len] try_res_Inr_iff split: option.splits)
qed

lemma binary_well_typed:
  assumes "stored t = Some P" "returns_typed P (\<lambda>(a, b). f a b)"
    and "BinaryArithmeticFunction_try_create_func t f = Inr fn"
  shows "well_typed fn"
  using assms scalar_binary_op_typed[OF assms(2)]
  by (fastforce simp: well_typed_def BinaryArithmeticFunction_try_create_func_def split: list.splits)

lemma unary_well_typed:
  assumes "stored t = Some P" "returns_typed P f"
    and "UnaryArithmeticFunction_try_create_func t f = Inr fn"
  shows "well_typed fn"
  using assms map_rows_typed[OF assms(2)]
  by (fastforce simp: well_typed_def UnaryArithmeticFunction_try_create_func_def scalar_unary_op_def try_res_Inr_iff
      split: list.splits column.splits option.splits)

lemma stored_to_data_type [simp]: "stored (to_data_type P) = Some P"
  by (cases P) (simp_all add: stored_def)

lemma data_type_id_to_data_type:
  "data_type_id (to_data_type P) = ID_UInt64 \<longleftrightarrow> P = U64" "data_type_id (to_data_type P) = ID_Int64 \<longleftrightarrow> P = I64"
  "data_type_id (to_data_type P) = ID_Int32 \<longleftrightarrow> P = I32" "data_type_id (to_data_type P) = ID_Int16 \<longleftrightarrow> P = I16"
  "data_type_id (to_data_type P) = ID_Int8 \<longleftrightarrow> P = I8"
  by (cases P; simp)+


lemma collect_res_typed:
  "(\<And>x y. f x = Inr y \<Longrightarrow> typed P y) \<Longrightarrow> collect_res f xs = Inr ys \<Longrightarrow> v \<in> set ys \<Longrightarrow> typed P v"
  by (auto simp: collect_res_Inr_iff in_set_conv_nth)

lemma modulo_typed:
  assumes F: "float_casts F" and e: "ModuloFunctionImpl_eval F M P columns = Inr col" and v: "v \<in> set (col_values col)"
  shows "typed P v"
proof -
  have rows: "collect_res (\<lambda>x. try_res (h x) (\<lambda>w. Inr (as_prim F P w))) xs = Inr ys \<Longrightarrow> v \<in> set ys \<Longrightarrow> typed P v"
    for h :: "'c \<Rightarrow> _" and xs ys
    by (rule collect_res_typed) (use F in \<open>auto simp: try_res_Inr_iff simp del: as_prim.simps\<close>)
  have row: "modulo_row F M P l r = Inr w \<Longrightarrow> typed P w" for l r w
    using F by (auto simp: modulo_row_def Let_def try_res_Inr_iff simp del: as_prim.simps split: if_splits)
  have step: "typed P v"
    if "collect_res (\<lambda>l. try_res (h l) (\<lambda>l. try_res (k l) (\<lambda>w. Inr (as_prim F P w)))) xs = Inr ys" "v \<in> set ys"
    for h :: "'c \<Rightarrow> query_error + 'd" and k xs ys
    by (rule collect_res_typed[OF _ that]) (use F in \<open>auto simp: try_res_Inr_iff simp del: as_prim.simps\<close>)
  have rem: "typed P v" if "rem_scalar F M P left r = Inr ys" "v \<in> set ys" for left r ys
    using that rows step unfolding rem_scalar_def
    by (auto simp: try_res_Inr_iff simp del: as_prim.simps split: TypeID.splits)
  have pairs: "typed P v" if "collect_res (\<lambda>(l, r). modulo_row F M P l r) xs = Inr ys" "v \<in> set ys" for xs ys
    by (rule collect_res_typed[OF _ that]) (use row in auto)
  have right: "typed P v" if "collect_res (\<lambda>r. modulo_row F M P l r) xs = Inr ys" "v \<in> set ys" for l xs ys
    by (rule collect_res_typed[OF _ that]) (use row in auto)
  show ?thesis
    using e v rem pairs right unfolding ModuloFunctionImpl_eval_def
    by (auto simp: try_res_Inr_iff Let_def simp del: as_prim.simps split: list.splits column.splits if_splits)
qed


section \<open>The generated table\<close>

lemma all_prims_complete: "P \<in> set all_prims"
  by (cases P) (simp_all add: all_prims_def)

lemma prim_allI: "list_all (\<lambda>l. list_all (Q l) all_prims) all_prims \<Longrightarrow> Q l r"
  using all_prims_complete by (auto simp: list_all_iff)

lemma coercion_table:
  "numerical_arithmetic_coercion Plus (to_data_type l) (to_data_type r) = Inr (to_data_type (AddMul (result_type_of_binary l r)))
   \<and> numerical_arithmetic_coercion Mul (to_data_type l) (to_data_type r) = Inr (to_data_type (AddMul (result_type_of_binary l r)))
   \<and> numerical_arithmetic_coercion Minus (to_data_type l) (to_data_type r) = Inr (to_data_type (MinusT (result_type_of_binary l r)))
   \<and> numerical_arithmetic_coercion IntDiv (to_data_type l) (to_data_type r) = Inr (to_data_type (IntDivT (result_type_of_binary l r)))
   \<and> numerical_arithmetic_coercion Modulo (to_data_type l) (to_data_type r) = Inr (to_data_type (ModuloT (result_type_of_binary l r)))
   \<and> numerical_arithmetic_coercion Div (to_data_type l) (to_data_type r) = Inr Float64
   \<and> \<not> prim_float (IntDivT (result_type_of_binary l r))
   \<and> numerical_coercion (to_data_type l) (to_data_type r) True = Inr (to_data_type (LeastSuper (result_type_of_binary l r)))"
  by (rule prim_allI[where l = l and r = r]) code_simp

lemma to_primitive_str_to_data_type: "to_primitive_str (to_data_type P) = Some P"
  by (cases P) simp_all

text \<open>
  C36: The file of result types is up to date. The impls the generator writes from the coercion rules
  are exactly those of the file, for every pair of number types and for every number type, and none
  of its \<open>unwrap\<close>s panics.
\<close>

theorem arithmetic_types_generated:
  "codegen_arithmetic_type =
     (map (\<lambda>(l, r). Some ((l, r), result_type_of_binary l r)) (List.product all_prims all_prims),
      map (\<lambda>a. Some (a, result_type_of_unary a)) all_prims)"
proof -
  have prims: "[UInt8, UInt16, UInt32, UInt64, Int8, Int16, Int32, Int64, Float32, Float64] = map to_data_type all_prims"
    by (simp add: all_prims_def)
  have binary: "codegen_binary (to_data_type l) (to_data_type r) = Some ((l, r), result_type_of_binary l r)" for l r
    using coercion_table[of l r] by (simp add: codegen_binary_def unwrap_prim_def to_primitive_str_to_data_type)
  have "list_all (\<lambda>a. codegen_unary (to_data_type a) = Some (a, result_type_of_unary a)) all_prims"
    by code_simp
  then have unary: "codegen_unary (to_data_type a) = Some (a, result_type_of_unary a)" for a
    using all_prims_complete by (simp add: list_all_iff)
  show ?thesis
    unfolding codegen_arithmetic_type_def prims Let_def
    by (simp add: binary unary product_concat_map map_concat comp_def)
qed



section \<open>Types of the functions\<close>

text \<open>The function the factory creates for an operator.\<close>

definition create_binary ::
  "'f float_ops \<Rightarrow> 'f factory \<Rightarrow> DataValueBinaryOperator \<Rightarrow> DataTypeImpl list \<Rightarrow> query_error + 'f Function" where
  "create_binary F get op args =
     (case op of
        Plus \<Rightarrow> ArithmeticPlusFunction_try_create_func F get args
      | Minus \<Rightarrow> ArithmeticMinusFunction_try_create_func F get args
      | Mul \<Rightarrow> ArithmeticMulFunction_try_create_func F args
      | Div \<Rightarrow> ArithmeticDivFunction_try_create_func F args
      | IntDiv \<Rightarrow> ArithmeticIntDivFunction_try_create_func F args
      | Modulo \<Rightarrow> ArithmeticModuloFunction_try_create_func F args)"

definition binary_result :: "DataValueBinaryOperator \<Rightarrow> prim \<Rightarrow> prim \<Rightarrow> prim" where
  "binary_result op l r =
     (let t = result_type_of_binary l r in
      case op of Plus \<Rightarrow> AddMul t | Mul \<Rightarrow> AddMul t | Minus \<Rightarrow> MinusT t | Div \<Rightarrow> F64 | IntDiv \<Rightarrow> IntDivT t | Modulo \<Rightarrow> ModuloT t)"

lemma binary_result_coercion:
  "numerical_arithmetic_coercion op (to_data_type l) (to_data_type r) = Inr (to_data_type (binary_result op l r))"
  using coercion_table[of l r] by (cases op) (simp_all add: binary_result_def)

lemma match_to_data_type [simp]: "match_primitive_type (data_type_id (to_data_type P)) = Some P"
  by (cases P) simp_all

lemma not_date_to_data_type [simp]: "\<not> is_date_or_date_time (data_type_id (to_data_type P))"
  by (cases P) (simp_all add: is_date_or_date_time_def)

lemma numeric_iff_prim: "is_numeric (data_type_id t) \<longleftrightarrow> (\<exists>P. t = to_data_type P)"
proof
  assume "is_numeric (data_type_id t)"
  then have "to_primitive_str t \<noteq> None \<and> t = to_data_type (the (to_primitive_str t))"
    by (cases t) (simp_all add: is_numeric_def is_integer_def is_floating_def)
  then show "\<exists>P. t = to_data_type P" by blast
next
  assume "\<exists>P. t = to_data_type P"
  then obtain P where "t = to_data_type P" by blast
  then show "is_numeric (data_type_id t)"
    by (cases P) (simp_all add: is_numeric_def is_integer_def is_floating_def)
qed

text \<open>What is created for two number types: the scalar function at the result type.\<close>

lemma create_plus:
  assumes "P = AddMul (result_type_of_binary l r)"
  shows "ArithmeticPlusFunction_try_create_func F get (to_data_type l # to_data_type r # rest) =
           BinaryArithmeticFunction_try_create_func (to_data_type P)
             (if P = U64 \<or> P = I64 then wrapping_add_scalar F P else add_scalar F P)"
  using assms[symmetric]
  by (cases P) (simp_all add: ArithmeticPlusFunction_try_create_func_def with_primitive_type_def Let_def)

lemma create_mul:
  assumes "P = AddMul (result_type_of_binary l r)"
  shows "ArithmeticMulFunction_try_create_func F (to_data_type l # to_data_type r # rest) =
           BinaryArithmeticFunction_try_create_func (to_data_type P)
             (if P = U64 \<or> P = I64 then wrapping_mul_scalar F P else mul_scalar F P)"
  using assms[symmetric]
  by (cases P) (simp_all add: ArithmeticMulFunction_try_create_func_def with_primitive_type_def Let_def)

lemma create_minus:
  assumes "P = MinusT (result_type_of_binary l r)"
  shows "ArithmeticMinusFunction_try_create_func F get (to_data_type l # to_data_type r # rest) =
           BinaryArithmeticFunction_try_create_func (to_data_type P)
             (if P = I64 then wrapping_sub_scalar F P else sub_scalar F P)"
  using assms[symmetric]
  by (cases P) (simp_all add: ArithmeticMinusFunction_try_create_func_def with_primitive_type_def Let_def)

lemma create_binary_numeric:
  "\<exists>fn. create_binary F get op [to_data_type l, to_data_type r] = Inr fn
        \<and> fn_return_type fn = to_data_type (binary_result op l r)"
  by (cases op)
    (simp_all add: create_binary_def create_plus[OF refl] create_mul[OF refl] create_minus[OF refl] binary_result_def Let_def
      ArithmeticDivFunction_try_create_func_def ArithmeticIntDivFunction_try_create_func_def
      ArithmeticModuloFunction_try_create_func_def with_primitive_type_def
      BinaryArithmeticFunction_try_create_func_def)


lemma with_primitive_typeE:
  assumes "with_primitive_type (data_type_id t) body = Inr x"
  obtains P where "t = to_data_type P" "body P = Inr x"
proof (cases "match_primitive_type (data_type_id t)")
  case None
  then show ?thesis using assms by (simp add: with_primitive_type_def)
next
  case (Some P)
  then have "t = to_data_type P" by (cases t) simp_all
  then show ?thesis using that assms Some by (simp add: with_primitive_type_def)
qed

lemma with_date_typeE:
  assumes "with_date_type (data_type_id t) body = Inr x"
  obtains P where "stored t = Some P" "body P = Inr x"
  using assms that by (cases t) (simp_all add: with_date_type_def stored_def)

lemma plus_well_typed:
  assumes F: "float_casts F" and g: "\<And>name ts fn. get name ts = Inr fn \<Longrightarrow> well_typed fn"
    and c: "ArithmeticPlusFunction_try_create_func F get args = Inr fn"
  shows "well_typed fn"
proof -
  obtain a0 a1 rest where args: "args = a0 # a1 # rest"
    using c by (auto simp: ArithmeticPlusFunction_try_create_func_def split: list.splits)
  note typed = binary_well_typed[OF _ scalar_fn_typed(1)[OF F]]
  consider "is_date_or_date_time (data_type_id a0)"
    | "\<not> is_date_or_date_time (data_type_id a0)" "is_date_or_date_time (data_type_id a1)"
    | "\<not> is_date_or_date_time (data_type_id a0)" "\<not> is_date_or_date_time (data_type_id a1)" by blast
  then show ?thesis
  proof cases
    case 1
    then show ?thesis using c g typed unfolding args ArithmeticPlusFunction_try_create_func_def
      by (auto simp: Let_def elim!: with_date_typeE split: option.splits DataTypeImpl.splits)
  next
    case 2
    then show ?thesis using c typed unfolding args ArithmeticPlusFunction_try_create_func_def
      by (auto simp: Let_def elim!: with_date_typeE with_primitive_typeE)
  next
    case 3
    then obtain l r where lr: "a0 = to_data_type l" "a1 = to_data_type r"
      using c unfolding args ArithmeticPlusFunction_try_create_func_def
      by (auto simp: Let_def elim!: with_primitive_typeE)
    have e: "BinaryArithmeticFunction_try_create_func (to_data_type P)
        (if P = U64 \<or> P = I64 then wrapping_add_scalar F P else add_scalar F P) = Inr fn" if "P = AddMul (result_type_of_binary l r)" for P
      using c unfolding args lr create_plus[OF that] by -
    show ?thesis
      by (rule binary_well_typed[OF stored_to_data_type _ e[OF refl]]) (simp add: scalar_fn_typed[OF F])
  qed
qed

lemma minus_well_typed:
  assumes F: "float_casts F" and g: "\<And>name ts fn. get name ts = Inr fn \<Longrightarrow> well_typed fn"
    and c: "ArithmeticMinusFunction_try_create_func F get args = Inr fn"
  shows "well_typed fn"
proof -
  obtain a0 a1 rest where args: "args = a0 # a1 # rest"
    using c by (auto simp: ArithmeticMinusFunction_try_create_func_def split: list.splits)
  note typed = binary_well_typed[OF _ scalar_fn_typed(3)[OF F]]
  have i32: "stored Int32 = Some I32" by (simp add: stored_def)
  consider "is_date_or_date_time (data_type_id a0)"
    | "\<not> is_date_or_date_time (data_type_id a0)" "is_date_or_date_time (data_type_id a1)"
    | "\<not> is_date_or_date_time (data_type_id a0)" "\<not> is_date_or_date_time (data_type_id a1)" by blast
  then show ?thesis
  proof cases
    case 1
    then obtain T where T: "stored a0 = Some T"
      and e: "(case match_primitive_type (data_type_id a1) of
                 Some D \<Rightarrow> BinaryArithmeticFunction_try_create_func a0 (sub_scalar F T)
               | None \<Rightarrow>
                   (case a1 of
                      Interval interval \<Rightarrow> get (''subtract'' @ IntervalKind_display (iv_kind interval) @ ''s'') [a0, Int64]
                    | _ \<Rightarrow>
                        with_date_type (data_type_id a1) (\<lambda>D.
                          BinaryArithmeticFunction_try_create_func Int32 (sub_scalar F I32)))) = Inr fn"
      using c unfolding args ArithmeticMinusFunction_try_create_func_def by (auto simp: Let_def elim!: with_date_typeE)
    show ?thesis using e typed[OF T] typed[OF i32] g by (cases a1) (simp_all add: with_date_type_def)
  next
    case 2
    then show ?thesis using c typed unfolding args ArithmeticMinusFunction_try_create_func_def
      by (auto simp: Let_def elim!: with_date_typeE with_primitive_typeE)
  next
    case 3
    then obtain l r where lr: "a0 = to_data_type l" "a1 = to_data_type r"
      using c unfolding args ArithmeticMinusFunction_try_create_func_def
      by (auto simp: Let_def elim!: with_primitive_typeE)
    have e: "BinaryArithmeticFunction_try_create_func (to_data_type P)
        (if P = I64 then wrapping_sub_scalar F P else sub_scalar F P) = Inr fn" if "P = MinusT (result_type_of_binary l r)" for P
      using c unfolding args lr create_minus[OF that] by -
    show ?thesis
      by (rule binary_well_typed[OF stored_to_data_type _ e[OF refl]]) (simp add: scalar_fn_typed[OF F])
  qed
qed


lemma other_well_typed:
  assumes F: "float_casts F"
  shows "ArithmeticMulFunction_try_create_func F args = Inr fn \<Longrightarrow> well_typed fn"
    "ArithmeticDivFunction_try_create_func F args = Inr fn \<Longrightarrow> well_typed fn"
    "ArithmeticIntDivFunction_try_create_func F args = Inr fn \<Longrightarrow> well_typed fn"
    "ArithmeticModuloFunction_try_create_func F args = Inr fn \<Longrightarrow> well_typed fn"
proof -
  {
    assume c: "ArithmeticMulFunction_try_create_func F args = Inr fn"
    then obtain l r rest where args: "args = to_data_type l # to_data_type r # rest"
      by (auto simp: ArithmeticMulFunction_try_create_func_def Let_def elim!: with_primitive_typeE split: list.splits)
    have e: "BinaryArithmeticFunction_try_create_func (to_data_type P)
        (if P = U64 \<or> P = I64 then wrapping_mul_scalar F P else mul_scalar F P) = Inr fn"
      if "P = AddMul (result_type_of_binary l r)" for P
      using c unfolding args create_mul[OF that] .
    show "well_typed fn"
      by (rule binary_well_typed[OF stored_to_data_type _ e[OF refl]]) (simp add: scalar_fn_typed[OF F])
  }
  have f64: "stored Float64 = Some F64" by (simp add: stored_def)
  show "ArithmeticDivFunction_try_create_func F args = Inr fn \<Longrightarrow> well_typed fn"
    by (auto simp: ArithmeticDivFunction_try_create_func_def elim!: with_primitive_typeE split: list.splits
        intro: binary_well_typed[OF f64 div_fn_typed(1)[OF F]])
  show "ArithmeticIntDivFunction_try_create_func F args = Inr fn \<Longrightarrow> well_typed fn"
    using coercion_table
    by (auto simp: ArithmeticIntDivFunction_try_create_func_def Let_def elim!: with_primitive_typeE split: list.splits
        intro!: binary_well_typed[OF stored_to_data_type div_fn_typed(2)[OF F]])
  show "ArithmeticModuloFunction_try_create_func F args = Inr fn \<Longrightarrow> well_typed fn"
    using modulo_typed[OF F]
    by (fastforce simp: ArithmeticModuloFunction_try_create_func_def Let_def well_typed_def elim!: with_primitive_typeE
        split: list.splits)
qed

lemma negate_well_typed:
  assumes F: "float_casts F" and c: "ArithmeticNegateFunction_try_create_func F args = Inr fn"
  shows "well_typed fn"
proof -
  obtain T rest where args: "args = to_data_type T # rest"
    using c by (auto simp: ArithmeticNegateFunction_try_create_func_def elim!: with_primitive_typeE split: list.splits)
  have e: "UnaryArithmeticFunction_try_create_func (to_data_type P)
      (if P = I64 \<or> P = I32 \<or> P = I16 \<or> P = I8 then wrapping_neg F P else neg F P) = Inr fn"
    if "result_type_of_unary T = P" for P
    using c that unfolding args ArithmeticNegateFunction_try_create_func_def
    by (cases P) (simp_all add: with_primitive_type_def Let_def)
  show ?thesis
    by (rule unary_well_typed[OF stored_to_data_type _ e[OF refl]]) (simp add: neg_fn_typed[OF F])
qed

lemma arithmetic_well_typed_parts:
  assumes "float_casts F" and "\<forall>name ts fn. get name ts = Inr fn \<longrightarrow> well_typed fn"
  shows "create_binary F get op args = Inr fn \<Longrightarrow> well_typed fn"
    and "ArithmeticNegateFunction_try_create_func F args = Inr fn \<Longrightarrow> well_typed fn"
    and "is_numeric (data_type_id a) \<Longrightarrow> is_numeric (data_type_id b) \<Longrightarrow>
           \<exists>fn. create_binary F get op [a, b] = Inr fn \<and> numerical_arithmetic_coercion op a b = Inr (fn_return_type fn)"
proof -
  have get: "get name ts = Inr fn \<Longrightarrow> well_typed fn" for name ts fn using assms(2) by blast
  show "well_typed fn" if c: "create_binary F get op args = Inr fn"
  proof (cases op)
    case Plus
    show ?thesis by (rule plus_well_typed[OF assms(1) get]) (use c Plus in \<open>simp_all add: create_binary_def\<close>)
  next
    case Minus
    show ?thesis by (rule minus_well_typed[OF assms(1) get]) (use c Minus in \<open>simp_all add: create_binary_def\<close>)
  qed (use c other_well_typed[OF assms(1)] in \<open>simp_all add: create_binary_def\<close>)
  show "ArithmeticNegateFunction_try_create_func F args = Inr fn \<Longrightarrow> well_typed fn"
    by (rule negate_well_typed[OF assms(1)])
  show "\<exists>fn. create_binary F get op [a, b] = Inr fn \<and> numerical_arithmetic_coercion op a b = Inr (fn_return_type fn)"
    if "is_numeric (data_type_id a)" "is_numeric (data_type_id b)"
  proof -
    obtain l r where "a = to_data_type l" "b = to_data_type r" using \<open>is_numeric (data_type_id a)\<close> \<open>is_numeric (data_type_id b)\<close> by (auto simp: numeric_iff_prim)
    then show ?thesis using create_binary_numeric[of F get op l r] binary_result_coercion[of op l r] by auto
  qed
qed



text \<open>Exact rational numbers as the floating point numbers of an example.\<close>

definition rat_ops :: "rat float_ops" where
  "rat_ops =
     \<lparr>f_from_int = (\<lambda>P v. of_int v),
      f_to_int = (\<lambda>P x. max (prim_min P) (min (prim_max P) (if 0 \<le> x then \<lfloor>x\<rfloor> else \<lceil>x\<rceil>))),
      f_convert = (\<lambda>P x. x), f_add = (\<lambda>P. (+)), f_sub = (\<lambda>P. (-)), f_mul = (\<lambda>P. (*)), f_div = (\<lambda>P. (/)),
      f_rem = (\<lambda>P x y. x - y * of_int (if 0 \<le> x / y then \<lfloor>x / y\<rfloor> else \<lceil>x / y\<rceil>)),
      f_neg = (\<lambda>P x. - x), f_is_zero = (\<lambda>x. x = 0)\<rparr>"

definition no_factory :: "'f factory" where
  "no_factory name ts = Inl BadArguments"

lemma rat_ops_casts: "float_casts rat_ops"
proof -
  have "prim_min P \<le> prim_max P" for P using fits_zero[of P] by (auto simp: fits_def)
  then show ?thesis by (auto simp: float_casts_def rat_ops_def fits_def)
qed



section \<open>Exactness\<close>

definition prim_abs :: "prim \<Rightarrow> int" where
  "prim_abs P = max (- prim_min P) (prim_max P)"

text \<open>Below 64 bits the result type holds every sum, difference and product.\<close>

lemma result_ranges:
  "prim_float l \<or> prim_float r \<or> width l = 64 \<or> width r = 64 \<or>
   (let t = result_type_of_binary l r in
      prim_min (AddMul t) \<le> prim_min l + prim_min r \<and> prim_max l + prim_max r \<le> prim_max (AddMul t)
    \<and> prim_min (MinusT t) \<le> prim_min l - prim_max r \<and> prim_max l - prim_min r \<le> prim_max (MinusT t)
    \<and> prim_abs l * prim_abs r \<le> prim_max (AddMul t)
    \<and> (prim_min l = 0 \<and> prim_min r = 0 \<and> prim_min (AddMul t) = 0 \<or> prim_min (AddMul t) \<le> - (prim_abs l * prim_abs r)))"
  by (rule prim_allI[where l = l and r = r]) code_simp

lemma result_integer:
  "prim_float l \<or> prim_float r \<or>
   (let t = result_type_of_binary l r in
      \<not> prim_float (AddMul t) \<and> \<not> prim_float (MinusT t) \<and> \<not> prim_float (ModuloT t) \<and> \<not> prim_float (LeastSuper t)
    \<and> (width (AddMul t) = 64 \<longleftrightarrow> AddMul t = U64 \<or> AddMul t = I64)
    \<and> (width (MinusT t) = 64 \<longleftrightarrow> MinusT t = I64)
    \<and> ((width l = 64 \<or> width r = 64) \<longrightarrow> width (AddMul t) = 64 \<and> width (MinusT t) = 64))"
  by (rule prim_allI[where l = l and r = r]) code_simp

lemma fits_abs: "fits P x \<Longrightarrow> \<bar>x\<bar> \<le> prim_abs P"
  by (auto simp: fits_def prim_abs_def)

lemma result_exact:
  assumes "\<not> prim_float l" "\<not> prim_float r" "width l < 64" "width r < 64" "fits l x" "fits r y"
  shows "fits (AddMul (result_type_of_binary l r)) (x + y)"
    "fits (MinusT (result_type_of_binary l r)) (x - y)"
    "fits (AddMul (result_type_of_binary l r)) (x * y)"
proof -
  note R = result_ranges[of l r, unfolded Let_def]
  show "fits (AddMul (result_type_of_binary l r)) (x + y)" "fits (MinusT (result_type_of_binary l r)) (x - y)"
    using R assms by (auto simp: fits_def)
  have "\<bar>x * y\<bar> \<le> prim_abs l * prim_abs r"
    using mult_mono[OF fits_abs[OF assms(5)] fits_abs[OF assms(6)]] fits_abs[OF assms(5)] by (simp add: abs_mult)
  then show "fits (AddMul (result_type_of_binary l r)) (x * y)"
    using R assms unfolding fits_def by (auto simp: abs_le_iff)
qed


text \<open>At an integer result type, both scalar functions of an operator are the wrapped operation.\<close>

lemma scalar_fn_value:
  assumes P: "\<not> prim_float P" and i: "\<And>a b. wrap P (i (wrap P a) (wrap P b)) = wrap P (i a b)"
    and w: "fits P x \<and> fits P y \<and> fits P (i x y) \<or> wrapping"
  shows "(if wrapping then wrapping_op P i (as_prim F P (Num x)) (as_prim F P (Num y))
          else checked_op P i f (as_prim F P (Num x)) (as_prim F P (Num y))) = Inr (Num (wrap P (i x y)))"
  using w P by (auto simp: i wrap_fits)

definition int_op :: "DataValueBinaryOperator \<Rightarrow> int \<Rightarrow> int \<Rightarrow> int" where
  "int_op op = (case op of Plus \<Rightarrow> (+) | Minus \<Rightarrow> (-) | _ \<Rightarrow> (*))"

lemma zip_map_both: "zip (map f xs) (map g ys) = map (\<lambda>(x, y). (f x, g y)) (zip xs ys)"
  by (simp add: zip_map_map)

lemma map2_Num_cong:
  "(\<And>x y. (x, y) \<in> set (zip xs ys) \<Longrightarrow> g x y = h x y) \<Longrightarrow> map2 (\<lambda>x y. Num (g x y)) xs ys = map2 (\<lambda>x y. Num (h x y)) xs ys"
  by auto

lemma created_value:
  assumes c: "create_binary F get op [a, b] = BinaryArithmeticFunction_try_create_func (to_data_type P) f"
    and f: "\<And>x y. fits l x \<Longrightarrow> fits r y \<Longrightarrow> f (Num x) (Num y) None = Inr (Num (wrap P (i x y)), None)"
    and cols: "col_values cl = map Num xs" "col_values cr = map Num ys" "length xs = length ys"
    and fits: "\<forall>x \<in> set xs. fits l x" "\<forall>y \<in> set ys. fits r y"
  shows "\<exists>fn. create_binary F get op [a, b] = Inr fn \<and> fn_return_type fn = to_data_type P
           \<and> fn_eval fn [cl, cr] = Inr (FullColumn (map2 (\<lambda>x y. Num (wrap P (i x y))) xs ys))"
proof -
  have rows: "fits l x \<and> fits r y" if "(x, y) \<in> set (zip xs ys)" for x y
    using fits set_zip_leftD[OF that] set_zip_rightD[OF that] by blast
  have "scalar_binary_op cl cr f None
        = Inr (FullColumn (map2 (\<lambda>a b. case (a, b) of (Num x, Num y) \<Rightarrow> Num (wrap P (i x y)) | _ \<Rightarrow> a)
            (col_values cl) (col_values cr)))"
    by (rule scalar_binary_op_pure)
      (use cols rows in \<open>auto simp: zip_map_both intro!: f\<close>)
  then have "scalar_binary_op cl cr f None = Inr (FullColumn (map2 (\<lambda>x y. Num (wrap P (i x y))) xs ys))"
    by (simp add: cols zip_map_both split_def comp_def)
  then show ?thesis by (simp add: c BinaryArithmeticFunction_try_create_func_def)
qed

lemma small_result_fits:
  assumes "\<not> prim_float l" "\<not> prim_float r" "fits l x" "fits r y"
  shows "width (AddMul (result_type_of_binary l r)) \<noteq> 64 \<Longrightarrow>
      fits (AddMul (result_type_of_binary l r)) x \<and> fits (AddMul (result_type_of_binary l r)) y"
    "width (MinusT (result_type_of_binary l r)) \<noteq> 64 \<Longrightarrow>
      fits (MinusT (result_type_of_binary l r)) x \<and> fits (MinusT (result_type_of_binary l r)) y"
proof -
  have r: "prim_float l \<or> prim_float r \<or>
     (let t = result_type_of_binary l r in
        (width (AddMul t) \<noteq> 64 \<longrightarrow> prim_min (AddMul t) \<le> min (prim_min l) (prim_min r) \<and> max (prim_max l) (prim_max r) \<le> prim_max (AddMul t))
      \<and> (width (MinusT t) \<noteq> 64 \<longrightarrow> prim_min (MinusT t) \<le> min (prim_min l) (prim_min r) \<and> max (prim_max l) (prim_max r) \<le> prim_max (MinusT t)))"
    by (rule prim_allI[where l = l and r = r]) code_simp
  show "width (AddMul (result_type_of_binary l r)) \<noteq> 64 \<Longrightarrow>
      fits (AddMul (result_type_of_binary l r)) x \<and> fits (AddMul (result_type_of_binary l r)) y"
    "width (MinusT (result_type_of_binary l r)) \<noteq> 64 \<Longrightarrow>
      fits (MinusT (result_type_of_binary l r)) x \<and> fits (MinusT (result_type_of_binary l r)) y"
    using r assms by (auto simp: fits_def Let_def)
qed

lemma narrow_args: 
  assumes "\<not> prim_float l" "\<not> prim_float r"
  shows "width (AddMul (result_type_of_binary l r)) \<noteq> 64 \<Longrightarrow> width l < 64 \<and> width r < 64"
    "width (MinusT (result_type_of_binary l r)) \<noteq> 64 \<Longrightarrow> width l < 64 \<and> width r < 64"
proof -
  have w: "width P \<le> 64" for P by (cases P) simp_all
  show "width (AddMul (result_type_of_binary l r)) \<noteq> 64 \<Longrightarrow> width l < 64 \<and> width r < 64"
    "width (MinusT (result_type_of_binary l r)) \<noteq> 64 \<Longrightarrow> width l < 64 \<and> width r < 64"
    using result_integer[of l r] assms w[of l] w[of r] by (auto simp: Let_def)
qed


lemma create_value:
  assumes ints: "\<not> prim_float l" "\<not> prim_float r" and op: "op \<in> {Plus, Minus, Mul}"
  obtains f where
    "create_binary F get op [to_data_type l, to_data_type r] =
       BinaryArithmeticFunction_try_create_func (to_data_type (binary_result op l r)) f"
    and "\<And>x y. fits l x \<Longrightarrow> fits r y \<Longrightarrow>
       f (Num x) (Num y) None = Inr (Num (wrap (binary_result op l r) (int_op op x y)), None)"
proof -
  define A where "A = AddMul (result_type_of_binary l r)"
  define M where "M = MinusT (result_type_of_binary l r)"
  have t: "\<not> prim_float A" "\<not> prim_float M" "width A = 64 \<longleftrightarrow> A = U64 \<or> A = I64" "width M = 64 \<longleftrightarrow> M = I64"
    using result_integer[of l r] ints by (auto simp: Let_def A_def M_def)
  have sum: "fits A x \<and> fits A y \<and> fits A (x + y) \<or> (A = U64 \<or> A = I64)"
    and prod: "fits A x \<and> fits A y \<and> fits A (x * y) \<or> (A = U64 \<or> A = I64)"
    and diff: "fits M x \<and> fits M y \<and> fits M (x - y) \<or> M = I64" if "fits l x" "fits r y" for x y
    using result_exact[OF ints _ _ that] small_result_fits[OF ints that] narrow_args[OF ints] t(3,4)
    unfolding A_def[symmetric] M_def[symmetric] by blast+
  consider "op = Plus" | "op = Minus" | "op = Mul" using op by blast
  then show ?thesis
  proof cases
    case 1
    show ?thesis
    proof (rule that)
      show "create_binary F get op [to_data_type l, to_data_type r] =
         BinaryArithmeticFunction_try_create_func (to_data_type (binary_result op l r))
           (if A = U64 \<or> A = I64 then wrapping_add_scalar F A else add_scalar F A)"
        using 1 create_plus[OF A_def, of F get "[]"] by (simp add: create_binary_def binary_result_def A_def)
      show "(if A = U64 \<or> A = I64 then wrapping_add_scalar F A else add_scalar F A) (Num x) (Num y) None
          = Inr (Num (wrap (binary_result op l r) (int_op op x y)), None)" if "fits l x" "fits r y" for x y
        using 1 scalar_fn_value[OF t(1) wrap_ops(1) sum[OF that], of F "f_add F A"]
        by (cases A) (simp_all add: binary_result_def int_op_def A_def[symmetric] wrapping_add_scalar_def add_scalar_def
            del: as_prim.simps)
    qed
  next
    case 2
    show ?thesis
    proof (rule that)
      show "create_binary F get op [to_data_type l, to_data_type r] =
         BinaryArithmeticFunction_try_create_func (to_data_type (binary_result op l r))
           (if M = I64 then wrapping_sub_scalar F M else sub_scalar F M)"
        using 2 create_minus[OF M_def, of F get "[]"] by (simp add: create_binary_def binary_result_def M_def)
      show "(if M = I64 then wrapping_sub_scalar F M else sub_scalar F M) (Num x) (Num y) None
          = Inr (Num (wrap (binary_result op l r) (int_op op x y)), None)" if "fits l x" "fits r y" for x y
        using 2 scalar_fn_value[OF t(2) wrap_ops(2) diff[OF that], of F "f_sub F M"]
        by (cases M) (simp_all add: binary_result_def int_op_def M_def[symmetric] wrapping_sub_scalar_def sub_scalar_def
            del: as_prim.simps)
    qed
  next
    case 3
    show ?thesis
    proof (rule that)
      show "create_binary F get op [to_data_type l, to_data_type r] =
         BinaryArithmeticFunction_try_create_func (to_data_type (binary_result op l r))
           (if A = U64 \<or> A = I64 then wrapping_mul_scalar F A else mul_scalar F A)"
        using 3 create_mul[OF A_def, of F "[]"] by (simp add: create_binary_def binary_result_def A_def)
      show "(if A = U64 \<or> A = I64 then wrapping_mul_scalar F A else mul_scalar F A) (Num x) (Num y) None
          = Inr (Num (wrap (binary_result op l r) (int_op op x y)), None)" if "fits l x" "fits r y" for x y
        using 3 scalar_fn_value[OF t(1) wrap_ops(3) prod[OF that], of F "f_mul F A"]
        by (cases A) (simp_all add: binary_result_def int_op_def A_def[symmetric] wrapping_mul_scalar_def mul_scalar_def
            del: as_prim.simps)
    qed
  qed
qed

lemma arithmetic_exact_parts:
  assumes "\<not> prim_float l" "\<not> prim_float r" "op \<in> {Plus, Minus, Mul}"
    and "col_values cl = map Num xs" "col_values cr = map Num ys" "length xs = length ys"
    and "\<forall>x \<in> set xs. fits l x" "\<forall>y \<in> set ys. fits r y"
  shows "\<exists>fn. create_binary F get op [to_data_type l, to_data_type r] = Inr fn
      \<and> fn_return_type fn = to_data_type (binary_result op l r)
      \<and> fn_eval fn [cl, cr] = Inr (FullColumn (map2 (\<lambda>x y. Num (wrap (binary_result op l r) (int_op op x y))) xs ys))"
    and "width l < 64 \<Longrightarrow> width r < 64 \<Longrightarrow>
      map2 (\<lambda>x y. Num (wrap (binary_result op l r) (int_op op x y))) xs ys = map2 (\<lambda>x y. Num (int_op op x y)) xs ys"
proof -
  obtain f where f:
    "create_binary F get op [to_data_type l, to_data_type r] =
       BinaryArithmeticFunction_try_create_func (to_data_type (binary_result op l r)) f"
    "\<And>x y. fits l x \<Longrightarrow> fits r y \<Longrightarrow> f (Num x) (Num y) None = Inr (Num (wrap (binary_result op l r) (int_op op x y)), None)"
    using create_value[OF assms(1-3), of F get] by metis
  show "\<exists>fn. create_binary F get op [to_data_type l, to_data_type r] = Inr fn
      \<and> fn_return_type fn = to_data_type (binary_result op l r)
      \<and> fn_eval fn [cl, cr] = Inr (FullColumn (map2 (\<lambda>x y. Num (wrap (binary_result op l r) (int_op op x y))) xs ys))"
    by (rule created_value[OF f(1) f(2) assms(4-8)])
  show "map2 (\<lambda>x y. Num (wrap (binary_result op l r) (int_op op x y))) xs ys = map2 (\<lambda>x y. Num (int_op op x y)) xs ys"
    if "width l < 64" "width r < 64"
  proof (rule map2_Num_cong)
    fix x y assume xy: "(x, y) \<in> set (zip xs ys)"
    have "fits l x" "fits r y" using assms(7,8) set_zip_leftD[OF xy] set_zip_rightD[OF xy] by auto
    then have "fits (binary_result op l r) (int_op op x y)"
      using result_exact[OF assms(1,2) that] assms(3) by (auto simp: binary_result_def int_op_def)
    then show "wrap (binary_result op l r) (int_op op x y) = int_op op x y"
      by (simp add: wrap_fits)
  qed
qed

text \<open>
  C34: Sums, differences and products of integer columns. For columns of any two integer types, stored
  as constants or in full, plus, minus and multiply never fail: row by row they return the result
  modulo the width of the result type, and where both types are narrower than 64 bits the result
  type holds it, so that it is exact.
\<close>

theorem arithmetic_exact:
  assumes "\<not> prim_float l" "\<not> prim_float r" "op \<in> {Plus, Minus, Mul}"
    and "col_values cl = map Num xs" "col_values cr = map Num ys" "length xs = length ys"
    and "\<forall>x \<in> set xs. fits l x" "\<forall>y \<in> set ys. fits r y"
  shows "\<exists>fn. create_binary F get op [to_data_type l, to_data_type r] = Inr fn
      \<and> fn_return_type fn = to_data_type (binary_result op l r)
      \<and> fn_eval fn [cl, cr] = Inr (FullColumn (map2 (\<lambda>x y. Num (wrap (binary_result op l r) (int_op op x y))) xs ys))
      \<and> (width l < 64 \<and> width r < 64 \<longrightarrow>
           fn_eval fn [cl, cr] = Inr (FullColumn (map2 (\<lambda>x y. Num (int_op op x y)) xs ys)))"
  using arithmetic_exact_parts(1)[OF assms, of F get] arithmetic_exact_parts(2)[OF assms] by auto

theorem arithmetic_exact_witness:
  "(\<exists>fn. create_binary rat_ops no_factory Mul [UInt32, Int32] = Inr fn \<and> fn_return_type fn = Int64
     \<and> fn_eval fn [FullColumn [Num 4294967295, Num 3], ConstColumn (Num (-2147483648)) 2]
         = Inr (FullColumn [Num (-9223372034707292160), Num (-6442450944)]))
   \<and> (\<exists>fn. create_binary rat_ops no_factory Plus [UInt64, UInt8] = Inr fn \<and> fn_return_type fn = UInt64
     \<and> fn_eval fn [FullColumn [Num 18446744073709551615], FullColumn [Num 2]] = Inr (FullColumn [Num 1]))"
proof -
  have r: "binary_result Mul U32 I32 = I64" "binary_result Plus U64 U8 = U64" by (simp_all add: binary_result_def)
  have c: "col_values (FullColumn [Num 4294967295, Num 3]) = (map Num [4294967295, 3] :: rat scalar list)"
    "col_values (ConstColumn (Num (-2147483648)) 2) = (map Num [-2147483648, -2147483648] :: rat scalar list)"
    "col_values (FullColumn [Num 18446744073709551615]) = (map Num [18446744073709551615] :: rat scalar list)"
    "col_values (FullColumn [Num 2]) = (map Num [2] :: rat scalar list)"
    by (simp_all add: numeral_2_eq_2)
  have f: "\<not> prim_float U32" "\<not> prim_float I32" "\<not> prim_float U64" "\<not> prim_float U8" by (simp_all add: prim_float_def)
  have b: "\<forall>x \<in> set [4294967295, 3]. fits U32 x" "\<forall>x \<in> set [-2147483648, -2147483648]. fits I32 x"
    "\<forall>x \<in> set [18446744073709551615]. fits U64 x" "\<forall>x \<in> set [2]. fits U8 x"
    by (simp_all add: fits_def prim_min_def prim_max_def prim_signed_def)
  show ?thesis
    using arithmetic_exact[OF f(1,2) _ c(1,2) _ b(1,2), of Mul rat_ops no_factory]
      arithmetic_exact[OF f(3,4) _ c(3,4) _ b(3,4), of Plus rat_ops no_factory]
    by (simp add: r int_op_def wrap_def prim_min_def prim_signed_def)
qed



section \<open>Remainders\<close>

lemma rust_rem_bounds:
  assumes "b \<noteq> 0"
  shows "\<bar>rust_rem a b\<bar> < \<bar>b\<bar>" "\<bar>rust_rem a b\<bar> \<le> \<bar>a\<bar>" "0 \<le> a \<Longrightarrow> 0 \<le> rust_rem a b"
  using assms by (auto simp: rust_rem_def abs_mult sgn_if pos_mod_bound zmod_le_nonneg_dividend)

text \<open>The types of the operands lose no value in the type the remainder is computed in.\<close>

definition lossless :: "prim \<Rightarrow> prim \<Rightarrow> bool" where
  "lossless l r = (\<not> (l = U64 \<and> prim_signed r) \<and> \<not> (prim_signed l \<and> r = U64))"

lemma modulo_types:
  "prim_float l \<or> prim_float r \<or> \<not> lossless l r \<or>
   (let M = LeastSuper (result_type_of_binary l r); P = ModuloT (result_type_of_binary l r) in
      \<not> prim_float M \<and> \<not> prim_float P
    \<and> prim_min M \<le> min (prim_min l) (prim_min r) \<and> max (prim_max l) (prim_max r) \<le> prim_max M
    \<and> (if prim_signed l then prim_min P \<le> - prim_abs r + 1 else prim_min P = 0) \<and> prim_abs r - 1 \<le> prim_max P)"
  by (rule prim_allI[where l = l and r = r]) code_simp

definition rem_row :: "prim \<Rightarrow> int \<Rightarrow> int \<Rightarrow> query_error + int" where
  "rem_row M x y =
     (if y = 0 then Inl BadArguments
      else if prim_signed M \<and> x = prim_min M \<and> y = -1 then Inl Panic else Inr (rust_rem x y))"

lemma unsigned_min: "\<not> prim_signed P \<Longrightarrow> prim_min P = 0"
  by (simp add: prim_min_def)

lemma rem_fits:
  assumes "\<not> prim_float l" "\<not> prim_float r" "lossless l r" "fits l x" "fits r y" "y \<noteq> 0"
  shows "fits (ModuloT (result_type_of_binary l r)) (rust_rem x y)"
proof -
  note t = modulo_types[of l r, unfolded Let_def]
  have b: "\<bar>rust_rem x y\<bar> \<le> prim_abs r - 1" using rust_rem_bounds(1)[OF assms(6), of x] fits_abs[OF assms(5)] by linarith
  show ?thesis
  proof (cases "prim_signed l")
    case True
    then show ?thesis using t assms(1-3) b unfolding fits_def by (auto simp: abs_le_iff)
  next
    case False
    then have "0 \<le> rust_rem x y" using assms(4) rust_rem_bounds(3)[OF assms(6)] by (simp add: fits_def unsigned_min)
    then show ?thesis using False t assms(1-3) b unfolding fits_def by (auto simp: abs_le_iff)
  qed
qed

lemma modulo_row_value:
  assumes "\<not> prim_float l" "\<not> prim_float r" "lossless l r" "fits l x" "fits r y"
  shows "modulo_row F (LeastSuper (result_type_of_binary l r)) (ModuloT (result_type_of_binary l r)) (Num x) (Num y)
         = map_sum id Num (rem_row (LeastSuper (result_type_of_binary l r)) x y)"
proof -
  let ?M = "LeastSuper (result_type_of_binary l r)"
  have t: "\<not> prim_float ?M" "\<not> prim_float (ModuloT (result_type_of_binary l r))" "fits ?M x" "fits ?M y"
    using modulo_types[of l r] assms by (auto simp: Let_def fits_def)
  show ?thesis
    using t rem_fits[OF assms] by (simp add: modulo_row_def rem_row_def wrap_fits)
qed

lemma rem_scalar_rows:
  assumes "\<not> prim_float M" "fits M y" "y \<noteq> 0" "\<forall>x \<in> set xs. fits M x"
  shows "rem_scalar F M P (map Num xs) (Num y) = collect_res (\<lambda>x. modulo_row F M P (Num x) (Num y)) xs"
proof -
  have y: "as_prim F M (Num y) = Num y" using assms by (simp add: wrap_fits)
  have x: "as_prim F M (Num x) = Num x" "to_prim_unwrap M (Num x) = Inr (Num x)" if "x \<in> set xs" for x
    using assms that by (simp_all add: wrap_fits)
  have row: "modulo_row F M P (Num x) (Num y) = try_res (prim_rem F M (Num x) (Num y)) (\<lambda>v. Inr (as_prim F P v))"
    if "x \<in> set xs" for x using assms(3) x[OF that] y by (simp add: modulo_row_def)
  have "rem_scalar F M P (map Num xs) (Num y)
        = collect_res (\<lambda>x. try_res (prim_rem F M (Num x) (Num y)) (\<lambda>v. Inr (as_prim F P v))) xs"
    using assms(1,2,4) x(1) unfolding rem_scalar_def
    by (cases M) (auto simp: collect_res_map prim_float_def simp del: as_prim.simps prim_rem.simps intro!: collect_res_cong)
  also have "\<dots> = collect_res (\<lambda>x. modulo_row F M P (Num x) (Num y)) xs"
    by (rule collect_res_cong) (simp_all add: row del: as_prim.simps prim_rem.simps)
  finally show ?thesis .
qed


lemma const_ints:
  assumes "replicate k b = map Num ys" "ys \<noteq> []"
  shows "\<exists>y. b = Num y \<and> ys = replicate (length ys) y"
proof -
  have k: "k = length ys" using arg_cong[OF assms(1), of length] by simp
  have b: "b = Num y" if "y \<in> set ys" for y
    using assms(1) that by (metis imageI in_set_replicate list.set_map)
  have "y = hd ys" if "y \<in> set ys" for y using b[OF that] b[OF hd_in_set[OF assms(2)]] by simp
  then have "ys = replicate (length ys) (hd ys)" by (metis replicate_length_same)
  then show ?thesis using b[OF hd_in_set[OF assms(2)]] by blast
qed

lemma modulo_eval_rows:
  assumes t: "\<not> prim_float l" "\<not> prim_float r" "lossless l r"
    and cols: "col_values cl = map Num xs" "col_values cr = map Num ys" "length xs = length ys" "xs \<noteq> []"
    and fits: "\<forall>x \<in> set xs. fits l x" "\<forall>y \<in> set ys. fits r y"
    and M: "M = LeastSuper (result_type_of_binary l r)"
  shows "ModuloFunctionImpl_eval F M P [cl, cr] =
           try_res (collect_res (\<lambda>(x, y). modulo_row F M P (Num x) (Num y)) (zip xs ys)) (\<lambda>col. Inr (FullColumn col))"
proof -
  have m: "\<not> prim_float M" "\<forall>x \<in> set xs. fits M x" "\<forall>y \<in> set ys. fits M y"
    using modulo_types[of l r] t fits by (auto simp: Let_def fits_def M)
  have z: "collect_res (\<lambda>(l, r). modulo_row F M P l r) (zip (col_values cl) (col_values cr))
      = collect_res (\<lambda>(x, y). modulo_row F M P (Num x) (Num y)) (zip xs ys)"
    by (simp add: cols zip_map_both collect_res_map split_def)
  show ?thesis
  proof (cases cl)
    case (ConstColumn a n)
    show ?thesis
    proof (cases cr)
      case (ConstColumn b k)
      then show ?thesis using z \<open>cl = ConstColumn a n\<close> by (simp add: ModuloFunctionImpl_eval_def)
    next
      case (FullColumn bs)
      then have "zip (col_values cl) (col_values cr) = map (Pair a) bs"
        using \<open>cl = ConstColumn a n\<close> cols by (metis col_values.simps length_map length_replicate zip_replicate_both(2))
      then show ?thesis using z FullColumn \<open>cl = ConstColumn a n\<close>
        by (simp add: ModuloFunctionImpl_eval_def collect_res_map)
    qed
  next
    case (FullColumn as)
    show ?thesis
    proof (cases cr)
      case (ConstColumn b k)
      have "ys \<noteq> []" using cols(3,4) by auto
      then obtain y where y: "b = Num y" "ys = replicate (length xs) y"
        using const_ints[of k b ys] cols ConstColumn by auto
      have "fits M y" using m(3) y(2) cols(4) by auto
      then have b: "as_prim F M b = Num y" using m(1) y(1) by (simp add: wrap_fits)
      have zip: "zip xs ys = map (\<lambda>x. (x, y)) xs" by (simp add: y(2) zip_replicate_both)
      show ?thesis
      proof (cases "y = 0")
        case True
        then have "modulo_row F M P (Num (hd xs)) (Num y) = Inl BadArguments"
          using b y(1) by (simp add: modulo_row_def)
        then have "collect_res (\<lambda>x. modulo_row F M P (Num x) (Num y)) xs = Inl BadArguments"
          using cols(4) by (cases xs) simp_all
        then show ?thesis
          using True b ConstColumn \<open>cl = FullColumn as\<close> by (simp add: ModuloFunctionImpl_eval_def zip collect_res_map)
      next
        case False
        then show ?thesis
          using b ConstColumn \<open>cl = FullColumn as\<close> cols(1) rem_scalar_rows[OF m(1) \<open>fits M y\<close> False m(2), of F P]
          by (simp add: ModuloFunctionImpl_eval_def zip collect_res_map)
      qed
    next
      case (FullColumn bs)
      then show ?thesis using z \<open>cl = FullColumn as\<close> by (simp add: ModuloFunctionImpl_eval_def)
    qed
  qed
qed

lemma modulo_exact_parts:
  assumes "\<not> prim_float l" "\<not> prim_float r" "lossless l r"
    and "col_values cl = map Num xs" "col_values cr = map Num ys" "length xs = length ys" "xs \<noteq> []"
    and "\<forall>x \<in> set xs. fits l x" "\<forall>y \<in> set ys. fits r y"
  shows "\<exists>fn. ArithmeticModuloFunction_try_create_func F [to_data_type l, to_data_type r] = Inr fn
      \<and> fn_return_type fn = to_data_type (ModuloT (result_type_of_binary l r))
      \<and> fn_eval fn [cl, cr] =
          try_res (collect_res (\<lambda>(x, y). rem_row (LeastSuper (result_type_of_binary l r)) x y) (zip xs ys))
            (\<lambda>zs. Inr (FullColumn (map Num zs)))"
    and "fits l x \<Longrightarrow> fits r y \<Longrightarrow> rem_row (LeastSuper (result_type_of_binary l r)) x y = Inr z \<Longrightarrow>
      z = rust_rem x y \<and> fits (ModuloT (result_type_of_binary l r)) z"
proof -
  let ?M = "LeastSuper (result_type_of_binary l r)" and ?P = "ModuloT (result_type_of_binary l r)"
  have row: "modulo_row F ?M ?P (Num x) (Num y) = try_res (rem_row ?M x y) (\<lambda>z. Inr (Num z))"
    if "(x, y) \<in> set (zip xs ys)" for x y
    using modulo_row_value[OF assms(1-3), of x y F] assms(8,9) set_zip_leftD[OF that] set_zip_rightD[OF that]
    by (cases "rem_row ?M x y") auto
  have "collect_res (\<lambda>(x, y). modulo_row F ?M ?P (Num x) (Num y)) (zip xs ys)
      = collect_res (\<lambda>p. try_res (case p of (x, y) \<Rightarrow> rem_row ?M x y) (\<lambda>z. Inr (Num z))) (zip xs ys)"
    by (rule collect_res_cong) (auto simp: row)
  also have "\<dots> = try_res (collect_res (\<lambda>(x, y). rem_row ?M x y) (zip xs ys)) (\<lambda>zs. Inr (map Num zs))"
    by (rule collect_res_try)
  finally have e: "ModuloFunctionImpl_eval F ?M ?P [cl, cr] =
      try_res (collect_res (\<lambda>(x, y). rem_row ?M x y) (zip xs ys)) (\<lambda>zs. Inr (FullColumn (map Num zs)))"
    using modulo_eval_rows[OF assms refl, of F ?P]
    by (cases "collect_res (\<lambda>(x, y). rem_row ?M x y) (zip xs ys)") simp_all
  show "\<exists>fn. ArithmeticModuloFunction_try_create_func F [to_data_type l, to_data_type r] = Inr fn
      \<and> fn_return_type fn = to_data_type ?P
      \<and> fn_eval fn [cl, cr] =
          try_res (collect_res (\<lambda>(x, y). rem_row ?M x y) (zip xs ys)) (\<lambda>zs. Inr (FullColumn (map Num zs)))"
    using e by (simp add: ArithmeticModuloFunction_try_create_func_def with_primitive_type_def Let_def)
  show "z = rust_rem x y \<and> fits ?P z" if "fits l x" "fits r y" "rem_row ?M x y = Inr z"
    using that rem_fits[OF assms(1-3) that(1,2)] by (auto simp: rem_row_def split: if_splits)
qed

text \<open>
  C35: The remainder of integer columns. Unless one type is 64-bit unsigned and the other signed, the
  modulo of two columns of integers of any two types, stored as constants or in full, is computed
  row by row: the remainder with the sign of the dividend, which the declared type holds; an error
  at a divisor of zero; and a panic at the smallest integer of the common type divided by -1.
\<close>

theorem modulo_exact:
  assumes "\<not> prim_float l" "\<not> prim_float r" "lossless l r"
    and "col_values cl = map Num xs" "col_values cr = map Num ys" "length xs = length ys" "xs \<noteq> []"
    and "\<forall>x \<in> set xs. fits l x" "\<forall>y \<in> set ys. fits r y"
  shows "\<exists>fn. ArithmeticModuloFunction_try_create_func F [to_data_type l, to_data_type r] = Inr fn
      \<and> fn_return_type fn = to_data_type (ModuloT (result_type_of_binary l r))
      \<and> fn_eval fn [cl, cr] =
          try_res (collect_res (\<lambda>(x, y). rem_row (LeastSuper (result_type_of_binary l r)) x y) (zip xs ys))
            (\<lambda>zs. Inr (FullColumn (map Num zs)))
      \<and> (\<forall>x y z. fits l x \<and> fits r y \<and> rem_row (LeastSuper (result_type_of_binary l r)) x y = Inr z \<longrightarrow>
          z = rust_rem x y \<and> fits (ModuloT (result_type_of_binary l r)) z)"
  using modulo_exact_parts(1)[OF assms, of F] modulo_exact_parts(2)[OF assms] by blast

theorem modulo_exact_witness:
  "(\<exists>fn. ArithmeticModuloFunction_try_create_func rat_ops [Int32, UInt8] = Inr fn \<and> fn_return_type fn = Int16
     \<and> fn_eval fn [FullColumn [Num (-199)], ConstColumn (Num 200) 1] = Inr (FullColumn [Num (-199)]))
   \<and> (\<exists>fn. ArithmeticModuloFunction_try_create_func rat_ops [Int8, Int8] = Inr fn
     \<and> fn_eval fn [FullColumn [Num 5, Num (-128)], FullColumn [Num 3, Num (-1)]] = Inl Panic)"
proof -
  have c: "col_values (FullColumn [Num (-199)]) = (map Num [-199] :: rat scalar list)"
    "col_values (ConstColumn (Num 200) 1) = (map Num [200] :: rat scalar list)"
    "col_values (FullColumn [Num 5, Num (-128)]) = (map Num [5, -128] :: rat scalar list)"
    "col_values (FullColumn [Num 3, Num (-1)]) = (map Num [3, -1] :: rat scalar list)"
    by simp_all
  have f: "\<not> prim_float I32" "\<not> prim_float U8" "\<not> prim_float I8" "lossless I32 U8" "lossless I8 I8"
    by (simp_all add: prim_float_def lossless_def prim_signed_def)
  have b: "\<forall>x \<in> set [-199]. fits I32 x" "\<forall>x \<in> set [200]. fits U8 x" "\<forall>x \<in> set [5, -128]. fits I8 x" "\<forall>x \<in> set [3, -1]. fits I8 x"
    by (simp_all add: fits_def prim_min_def prim_max_def prim_signed_def)
  show ?thesis
    using modulo_exact[OF f(1,2,4) c(1,2) _ _ b(1,2), of rat_ops]
      modulo_exact[OF f(3,3,5) c(3,4) _ _ b(3,4), of rat_ops]
    by (auto simp: rem_row_def rust_rem_def prim_signed_def prim_min_def)
qed



section \<open>Where values are lost\<close>

lemma wrap_high_half:
  assumes "fits U64 x" "2 ^ 63 \<le> x"
  shows "wrap I64 x = x - 2 ^ 64"
  using assms by (simp add: fits_def wrap_def prim_min_def prim_max_def prim_signed_def mod_pos_geq)

lemma arithmetic_truncations_parts:
  "fits U64 x \<Longrightarrow> 2 ^ 63 \<le> x \<Longrightarrow> fits I64 y \<Longrightarrow> y \<noteq> 0 \<Longrightarrow> \<not> (x = 2 ^ 63 \<and> y = -1) \<Longrightarrow>
     \<exists>fn. ArithmeticModuloFunction_try_create_func F [UInt64, Int64] = Inr fn \<and> fn_return_type fn = UInt64
       \<and> fn_eval fn [FullColumn [Num x], FullColumn [Num y]] = Inr (FullColumn [Num (wrap U64 (rust_rem (x - 2 ^ 64) y))])"
  "\<exists>fn. ArithmeticMinusFunction_try_create_func F get [Timestamp p, Timestamp q] = Inr fn \<and> fn_return_type fn = Int32
       \<and> fn_eval fn [FullColumn [Num u], FullColumn [Num v]] =
           (if fits I32 (wrap I32 u - wrap I32 v) then Inr (FullColumn [Num (wrap I32 u - wrap I32 v)]) else Inl Panic)"
proof -
  show "\<exists>fn. ArithmeticModuloFunction_try_create_func F [UInt64, Int64] = Inr fn \<and> fn_return_type fn = UInt64
       \<and> fn_eval fn [FullColumn [Num x], FullColumn [Num y]] = Inr (FullColumn [Num (wrap U64 (rust_rem (x - 2 ^ 64) y))])"
    if "fits U64 x" "2 ^ 63 \<le> x" "fits I64 y" "y \<noteq> 0" "\<not> (x = 2 ^ 63 \<and> y = -1)"
  proof -
    have x: "as_prim F I64 (Num x) = Num (x - 2 ^ 64)" using wrap_high_half[OF that(1,2)] by (simp add: prim_float_def)
    have y: "as_prim F I64 (Num y) = Num y" using that(3) by (simp add: prim_float_def wrap_fits)
    have "prim_rem F I64 (Num (x - 2 ^ 64)) (Num y) = Inr (Num (rust_rem (x - 2 ^ 64) y))"
      using that(4,5) by (auto simp: prim_min_def prim_signed_def)
    then have "modulo_row F I64 U64 (Num x) (Num y) = Inr (Num (wrap U64 (rust_rem (x - 2 ^ 64) y)))"
      unfolding modulo_row_def Let_def x y using that(4) by (simp add: prim_float_def del: prim_rem.simps)
    then show ?thesis
      by (simp add: ArithmeticModuloFunction_try_create_func_def with_primitive_type_def ModuloFunctionImpl_eval_def)
  qed
  show "\<exists>fn. ArithmeticMinusFunction_try_create_func F get [Timestamp p, Timestamp q] = Inr fn \<and> fn_return_type fn = Int32
       \<and> fn_eval fn [FullColumn [Num u], FullColumn [Num v]] =
           (if fits I32 (wrap I32 u - wrap I32 v) then Inr (FullColumn [Num (wrap I32 u - wrap I32 v)]) else Inl Panic)"
    by (simp add: ArithmeticMinusFunction_try_create_func_def is_date_or_date_time_def with_date_type_def
        BinaryArithmeticFunction_try_create_func_def scalar_binary_op_def sub_scalar_def prim_float_def)
qed

text \<open>
  C38: Where arithmetic is not what the types suggest. The remainder of an unsigned 64-bit integer of
  the upper half by a signed one is that of the integer minus 2 ^ 64, and returned as unsigned. The
  difference of two timestamps is a 32-bit integer: the difference of the low 32 bits of the
  microseconds, or a panic (a wrap-around in a release build) where it overflows.
\<close>

theorem arithmetic_truncations:
  "(fits U64 x \<and> 2 ^ 63 \<le> x \<and> fits I64 y \<and> y \<noteq> 0 \<and> \<not> (x = 2 ^ 63 \<and> y = -1) \<longrightarrow>
     (\<exists>fn. ArithmeticModuloFunction_try_create_func F [UInt64, Int64] = Inr fn \<and> fn_return_type fn = UInt64
       \<and> fn_eval fn [FullColumn [Num x], FullColumn [Num y]] = Inr (FullColumn [Num (wrap U64 (rust_rem (x - 2 ^ 64) y))])))
   \<and> (\<exists>fn. ArithmeticMinusFunction_try_create_func F get [Timestamp p, Timestamp q] = Inr fn \<and> fn_return_type fn = Int32
       \<and> fn_eval fn [FullColumn [Num u], FullColumn [Num v]] =
           (if fits I32 (wrap I32 u - wrap I32 v) then Inr (FullColumn [Num (wrap I32 u - wrap I32 v)]) else Inl Panic))"
  using arithmetic_truncations_parts(1)[of x y F] arithmetic_truncations_parts(2)[of F get p q u v] by blast

theorem arithmetic_truncations_witness:
  "(\<exists>fn. ArithmeticModuloFunction_try_create_func rat_ops [UInt64, Int64] = Inr fn \<and> fn_return_type fn = UInt64
     \<and> fn_eval fn [FullColumn [Num 9223372036854775813], FullColumn [Num 10]] = Inr (FullColumn [Num 18446744073709551613]))
   \<and> (\<exists>fn. ArithmeticMinusFunction_try_create_func rat_ops no_factory
        [Timestamp \<lparr>ts_precision = 6\<rparr>, Timestamp \<lparr>ts_precision = 6\<rparr>] = Inr fn \<and> fn_return_type fn = Int32
     \<and> fn_eval fn [FullColumn [Num 3000000000], FullColumn [Num 0]] = Inr (FullColumn [Num (-1294967296)]))"
proof -
  have e: "wrap U64 (rust_rem (9223372036854775813 - 2 ^ 64) 10) = 18446744073709551613"
    by (simp add: wrap_def rust_rem_def prim_min_def prim_signed_def)
  have d: "wrap I32 3000000000 - wrap I32 0 = - 1294967296" "fits I32 (- 1294967296)"
    by (simp_all add: wrap_def fits_def prim_min_def prim_max_def prim_signed_def)
  have h: "fits U64 9223372036854775813" "fits I64 10" by (simp_all add: fits_def prim_min_def prim_max_def prim_signed_def)
  show ?thesis
    using arithmetic_truncations[of 9223372036854775813 10 rat_ops no_factory "\<lparr>ts_precision = 6\<rparr>"
        "\<lparr>ts_precision = 6\<rparr>" 3000000000 0] h
    unfolding e d(1) by (simp add: d(2))
qed

end
