(* ===== verification/Merge_Laws.thy ===== *)
theory Merge_Laws
  imports Arithmetic_Laws
begin

text \<open>
  The common type of a list of types (\<open>merge_types\<close>, \<open>aggregate_types\<close> of \<open>type_coercion.rs\<close>) holds
  the values of each: a least requirement on the type of a column that collects values of all of
  them.
\<close>

section \<open>A type that holds the values of another\<close>

text \<open>
  Every integer up to 2 ^ 24 is a 32-bit floating point number, and every integer up to 2 ^ 53 a
  64-bit one.
\<close>

definition prim_widens :: "prim \<Rightarrow> prim \<Rightarrow> bool" where
  "prim_widens P Q =
     (if prim_float P then prim_float Q \<and> width P \<le> width Q
      else if prim_float Q then prim_abs P \<le> 2 ^ (if Q = F32 then 24 else 53)
      else prim_min Q \<le> prim_min P \<and> prim_max P \<le> prim_max Q)"

fun widens :: "DataTypeImpl \<Rightarrow> DataTypeImpl \<Rightarrow> bool"
  and widens_all :: "DataTypeImpl list \<Rightarrow> DataTypeImpl list \<Rightarrow> bool" where
  "widens Null t = (wrap_nullable t = t)"
| "widens (Nullable (NullableType s)) t = (case t of Nullable (NullableType u) \<Rightarrow> widens s u | _ \<Rightarrow> False)"
| "widens (Array (ArrayType s)) t = (case remove_nullable t of Array (ArrayType u) \<Rightarrow> widens s u | _ \<Rightarrow> False)"
| "widens (Struct (StructType n ss)) t =
     (case t of Struct (StructType m us) \<Rightarrow> n = m \<and> widens_all ss us | _ \<Rightarrow> False)"
| "widens s t =
     (case to_primitive_str s of
        Some P \<Rightarrow> (case to_primitive_str (remove_nullable t) of Some Q \<Rightarrow> prim_widens P Q | None \<Rightarrow> False)
      | None \<Rightarrow> data_type_id s = data_type_id (remove_nullable t))"
| "widens_all [] us = (us = [])"
| "widens_all (s # ss) us = (case us of [] \<Rightarrow> False | u # us \<Rightarrow> widens s u \<and> widens_all ss us)"

text \<open>The types the constructors of the code build: what their \<open>debug_assert\<close>s demand.\<close>

fun wf_type :: "DataTypeImpl \<Rightarrow> bool" where
  "wf_type (Nullable (NullableType s)) = (can_inside_nullable s \<and> wf_type s)"
| "wf_type (Array (ArrayType s)) = wf_type s"
| "wf_type (Struct (StructType n ss)) = (length n = length ss \<and> list_all wf_type ss)"
| "wf_type _ = True"

lemma prim_widens_refl: "prim_widens P P"
  by (simp add: prim_widens_def)

lemma prim_widens_trans: "prim_widens P Q \<Longrightarrow> prim_widens Q R \<Longrightarrow> prim_widens P R"
  by (auto simp: prim_widens_def prim_abs_def prim_float_def split: if_splits)

text \<open>The coercion that does not allow overflow holds the numbers of both types.\<close>

lemma numerical_coercion_widens:
  "case numerical_coercion (to_data_type l) (to_data_type r) False of
     Inl e \<Rightarrow> e = BadDataValueType
   | Inr t \<Rightarrow> (case to_primitive_str t of None \<Rightarrow> False | Some P \<Rightarrow> prim_widens l P \<and> prim_widens r P)"
  by (rule prim_allI[where l = l and r = r]) code_simp


section \<open>Merging\<close>

lemma remove_wrap: "remove_nullable (wrap_nullable t) = remove_nullable t"
  by (cases t) (simp_all add: wrap_nullable_def can_inside_nullable_def remove_nullable_def)

lemma wrap_wrap: "wrap_nullable (wrap_nullable t) = wrap_nullable t"
  by (cases t) (simp_all add: wrap_nullable_def can_inside_nullable_def)

lemma wrap_id_iff: "wrap_nullable t = t \<longleftrightarrow> \<not> can_inside_nullable t"
  by (cases t) (simp_all add: wrap_nullable_def can_inside_nullable_def)

lemma wf_wrap: "wf_type t \<Longrightarrow> wf_type (wrap_nullable t)"
  by (cases t) (simp_all add: wrap_nullable_def can_inside_nullable_def)

lemma wf_remove: "wf_type t \<Longrightarrow> wf_type (remove_nullable t)"
  by (cases t rule: wf_type.cases) (simp_all add: remove_nullable_def)

lemma widens_wrap:
  assumes "widens s t"
  shows "widens s (wrap_nullable t)"
proof (cases s rule: wf_type.cases)
  case (1 u)
  then have "\<exists>n. t = Nullable n" using assms by (cases t) simp_all
  then show ?thesis using assms by (auto simp: wrap_nullable_def can_inside_nullable_def)
next
  case (3 n ss)
  then have "\<exists>u. t = Struct u" using assms by (cases t) simp_all
  then show ?thesis using assms by (auto simp: wrap_nullable_def can_inside_nullable_def)
qed (use assms in \<open>simp_all add: remove_wrap wrap_wrap\<close>)

lemma widens_refl_eq: "wf_type s \<Longrightarrow> t = s \<Longrightarrow> widens s t"
  and widens_all_refl_eq: "list_all wf_type ss \<Longrightarrow> ts = ss \<Longrightarrow> widens_all ss ts"
  by (induction s t and ss ts rule: widens_widens_all.induct)
    (auto simp: remove_nullable_def wrap_id_iff can_inside_nullable_def prim_widens_refl)

lemmas widens_refl = widens_refl_eq[OF _ refl]

text \<open>Under a nullable type, a value that is not null.\<close>

lemma widens_nullable:
  assumes "can_inside_nullable s" "widens s t" "wf_type t"
  shows "widens (Nullable (NullableType s)) (wrap_nullable t)"
proof (cases t)
  case (Nullable n)
  then show ?thesis
    using assms by (cases n; cases s rule: wf_type.cases)
      (auto simp: wrap_nullable_def can_inside_nullable_def remove_nullable_def split: DataTypeImpl.splits)
qed (use assms in \<open>cases s rule: wf_type.cases; auto simp: wrap_nullable_def can_inside_nullable_def remove_nullable_def\<close>)+


lemma widens_prim: "widens (to_data_type P) t = (\<exists>Q. to_primitive_str (remove_nullable t) = Some Q \<and> prim_widens P Q)"
  by (cases P) (simp_all split: option.splits)

lemma widens_other:
  assumes "s \<noteq> Null" "\<not> is_nullable s" "\<And>x. s \<noteq> Array x" "\<And>x. s \<noteq> Struct x" "data_type_id s = data_type_id t"
  shows "widens s t"
  using assms by (cases s; cases t) (simp_all add: is_nullable_def remove_nullable_def prim_widens_refl)

lemma remove_not_nullable: "\<not> is_nullable t \<Longrightarrow> remove_nullable t = t"
  by (cases t) (simp_all add: is_nullable_def remove_nullable_def)

lemma merge_numbers:
  assumes "is_numeric (data_type_id a)" "is_numeric (data_type_id b)" "numerical_coercion a b False = Inr t"
  shows "widens a t \<and> widens b t \<and> wf_type t"
proof -
  obtain l r where lr: "a = to_data_type l" "b = to_data_type r" using assms(1,2) by (auto simp: numeric_iff_prim)
  then obtain P where P: "to_primitive_str t = Some P" "prim_widens l P" "prim_widens r P"
    using numerical_coercion_widens[of l r] assms(3) by (auto split: option.splits)
  then have "remove_nullable t = t" "wf_type t" by (cases t; simp add: remove_nullable_def)+
  then show ?thesis using P by (simp add: lr widens_prim)
qed

lemma merge_nullable:
  assumes m: "widens (remove_nullable a) t" and wf: "wf_type a" "wf_type t"
  shows "widens a (wrap_nullable t)"
proof (cases "is_nullable a")
  case True
  then obtain s where "a = Nullable (NullableType s)" by (cases a rule: wf_type.cases) (simp_all add: is_nullable_def)
  then show ?thesis using widens_nullable[of s t] m wf by (simp add: remove_nullable_def)
next
  case False
  then show ?thesis using widens_wrap m by (simp add: remove_not_nullable)
qed

lemma merge_arrays:
  "merge_types (Array (ArrayType p)) (Array (ArrayType q)) = try_res (merge_types p q) (\<lambda>u. Inr (Array (ArrayType u)))"
  by (subst merge_types.simps) (simp add: is_nullable_def)

lemma merge_structs:
  "merge_types (Struct (StructType m ps)) (Struct (StructType k qs)) =
     (if m \<noteq> k then Inl BadArguments else try_res (merge_members ps qs) (\<lambda>us. Inr (Struct (StructType m us))))"
  by (subst merge_types.simps) (simp add: is_nullable_def)

lemma merge_other:
  assumes "a \<noteq> Null" "b \<noteq> Null" "\<not> is_nullable a" "\<not> is_nullable b"
    and "\<not> (data_type_id a = ID_Array \<and> data_type_id b = ID_Array)" "\<not> (data_type_id a = ID_Struct \<and> data_type_id b = ID_Struct)"
  shows "merge_types a b =
     (if data_type_id a = data_type_id b then Inr a
      else if is_numeric (data_type_id a) \<and> is_numeric (data_type_id b) then numerical_coercion a b False
      else Inl BadDataValueType)"
  using assms unfolding merge_types.simps[of a b] Let_def by (cases a) (auto split: DataTypeImpl.split)

lemma merge_other_upper:
  assumes h: "a \<noteq> Null" "b \<noteq> Null" "\<not> is_nullable a" "\<not> is_nullable b"
    and arr: "\<not> (data_type_id a = ID_Array \<and> data_type_id b = ID_Array)" and str: "\<not> (data_type_id a = ID_Struct \<and> data_type_id b = ID_Struct)"
    and m: "merge_types a b = Inr t" and wf: "wf_type a"
  shows "widens a t \<and> widens b t \<and> wf_type t"
proof (cases "data_type_id a = data_type_id b")
  case True
  then have "b \<noteq> Array x" "b \<noteq> Struct y" for x y using arr str by auto
  then show ?thesis using True m wf merge_other[OF h arr str] widens_refl[OF wf] widens_other[OF h(2,4)] by simp
next
  case False
  then show ?thesis using m merge_other[OF h arr str] merge_numbers by (simp split: if_splits)
qed

lemma id_parts:
  "data_type_id t = ID_Array \<longleftrightarrow> (\<exists>p. t = Array (ArrayType p))"
  "data_type_id t = ID_Struct \<longleftrightarrow> (\<exists>m ps. t = Struct (StructType m ps))"
  by (cases t rule: wf_type.cases, simp_all)+

lemma merge_null_upper:
  assumes "wf_type t"
  shows "merge_types Null t = Inr u \<Longrightarrow> \<not> is_nullable t \<Longrightarrow> widens Null u \<and> widens t u \<and> wf_type u"
    "merge_types t Null = Inr u \<Longrightarrow> \<not> is_nullable t \<Longrightarrow> widens t u \<and> widens Null u \<and> wf_type u"
proof -
  have w: "widens t (wrap_nullable t)" by (rule widens_wrap[OF widens_refl[OF assms]])
  have l: "merge_types Null t = Inr (wrap_nullable t)" if "\<not> is_nullable t"
    using that by (subst merge_types.simps) (simp add: is_nullable_def)
  have r: "merge_types t Null = Inr (wrap_nullable t)" if "\<not> is_nullable t"
    using that by (cases t; subst merge_types.simps) (simp_all add: is_nullable_def)
  show "merge_types Null t = Inr u \<Longrightarrow> \<not> is_nullable t \<Longrightarrow> widens Null u \<and> widens t u \<and> wf_type u"
    "merge_types t Null = Inr u \<Longrightarrow> \<not> is_nullable t \<Longrightarrow> widens t u \<and> widens Null u \<and> wf_type u"
    using w assms by (auto simp: l r wrap_wrap wf_wrap)
qed

lemma merge_nullable_upper:
  assumes "is_nullable a \<or> is_nullable b" "merge_types a b = Inr t" "wf_type a" "wf_type b"
    and ih: "\<And>u. merge_types (remove_nullable a) (remove_nullable b) = Inr u \<Longrightarrow>
      widens (remove_nullable a) u \<and> widens (remove_nullable b) u \<and> wf_type u"
  shows "widens a t \<and> widens b t \<and> wf_type t"
proof -
  have "merge_types a b = try_res (merge_types (remove_nullable a) (remove_nullable b)) (\<lambda>t. Inr (wrap_nullable t))"
    using assms(1) by (subst merge_types.simps) (rule if_P)
  then have "try_res (merge_types (remove_nullable a) (remove_nullable b)) (\<lambda>t. Inr (wrap_nullable t)) = Inr t"
    using assms(2) by simp
  then obtain u where u: "merge_types (remove_nullable a) (remove_nullable b) = Inr u" "t = wrap_nullable u"
    by (auto simp: try_res_Inr_iff)
  then show ?thesis using ih[OF u(1)] merge_nullable assms(3,4) wf_wrap by simp
qed

lemma merge_types_upper:
  "merge_types a b = Inr t \<Longrightarrow> wf_type a \<Longrightarrow> wf_type b \<Longrightarrow> widens a t \<and> widens b t \<and> wf_type t"
  and merge_members_upper:
  "merge_members as bs = Inr ts \<Longrightarrow> list_all wf_type as \<Longrightarrow> list_all wf_type bs \<Longrightarrow> length as = length bs \<Longrightarrow>
     widens_all as ts \<and> widens_all bs ts \<and> list_all wf_type ts \<and> length ts = length as"
proof (induction a b and as bs arbitrary: t and ts rule: merge_types_merge_members.induct)
  case (1 a b)
  consider (nullable) "is_nullable a \<or> is_nullable b"
    | (null) "\<not> (is_nullable a \<or> is_nullable b)" "a = Null \<or> b = Null"
    | (array) p q where "\<not> (is_nullable a \<or> is_nullable b)" "a = Array (ArrayType p)" "b = Array (ArrayType q)"
    | (struct) m ps k qs where "\<not> (is_nullable a \<or> is_nullable b)" "a = Struct (StructType m ps)" "b = Struct (StructType k qs)"
    | (other) "\<not> is_nullable a" "\<not> is_nullable b" "a \<noteq> Null" "b \<noteq> Null"
        "\<not> (data_type_id a = ID_Array \<and> data_type_id b = ID_Array)" "\<not> (data_type_id a = ID_Struct \<and> data_type_id b = ID_Struct)"
    unfolding id_parts by blast
  then show ?case
  proof cases
    case nullable
    show ?thesis
      by (rule merge_nullable_upper[OF nullable "1.prems"]) (rule "1.IH"(1)[OF nullable _ wf_remove[OF "1.prems"(2)] wf_remove[OF "1.prems"(3)]])
  next
    case null
    from null(2) show ?thesis
    proof
      assume a: "a = Null"
      show ?thesis unfolding a
        by (rule merge_null_upper(1)) (use "1.prems" null(1) a in auto)
    next
      assume b: "b = Null"
      show ?thesis unfolding b
        by (rule merge_null_upper(2)) (use "1.prems" null(1) b in auto)
    qed
  next
    case (array p q)
    obtain u where u: "merge_types p q = Inr u" "t = Array (ArrayType u)"
      using "1.prems"(1) unfolding array(2,3) merge_arrays by (auto simp: try_res_Inr_iff)
    have "widens p u \<and> widens q u \<and> wf_type u"
      by (rule "1.IH"(3)[OF array(1) refl array(2,3), unfolded ArrayType.sel]) (use u "1.prems"(2,3) array(2,3) in simp_all)
    then show ?thesis unfolding array(2,3) u(2) by (simp add: remove_nullable_def)
  next
    case (struct m ps k qs)
    obtain us where u: "merge_members ps qs = Inr us" "t = Struct (StructType m us)" "m = k"
      using "1.prems"(1) unfolding struct(2,3) merge_structs by (auto simp: try_res_Inr_iff split: if_splits)
    have wf: "list_all wf_type ps" "list_all wf_type qs" "length m = length ps" "length ps = length qs"
      using "1.prems"(2,3) struct(2,3) u(3) by auto
    have "widens_all ps us \<and> widens_all qs us \<and> list_all wf_type us \<and> length us = length ps"
      by (rule "1.IH"(2)[OF struct(1) refl struct(2,3), unfolded StructType.sel]) (use u wf in simp_all)
    then show ?thesis unfolding struct(2,3) u(2) using u(3) wf(3) by simp
  next
    case other
    show ?thesis by (rule merge_other_upper[OF other(3,4,1,2,5,6) "1.prems"(1,2)])
  qed
next
  case (4 a as b bs)
  obtain u us where u: "merge_types a b = Inr u" "merge_members as bs = Inr us" "ts = u # us"
    using "4.prems"(1) by (auto simp: try_res_Inr_iff)
  have "widens a u \<and> widens b u \<and> wf_type u" by (rule "4.IH"(1)[OF u(1)]) (use "4.prems"(2,3) in simp_all)
  moreover have "widens_all as us \<and> widens_all bs us \<and> list_all wf_type us \<and> length us = length as"
    by (rule "4.IH"(2)[OF u(1,2)]) (use "4.prems"(2-4) in simp_all)
  ultimately show ?case unfolding u(3) by simp
qed simp_all

lemma widens_nullable_inner: "widens s (Nullable (NullableType u)) \<Longrightarrow> s \<noteq> Null \<Longrightarrow> \<not> is_nullable s \<Longrightarrow> can_inside_nullable u \<Longrightarrow> widens s u"
  by (cases s rule: wf_type.cases)
    (auto simp: is_nullable_def can_inside_nullable_def remove_nullable_def split: DataTypeImpl.splits)

lemma remove_remove: "wf_type t \<Longrightarrow> remove_nullable (remove_nullable t) = remove_nullable t"
  by (cases t rule: wf_type.cases) (auto simp: remove_nullable_def can_inside_nullable_def split: DataTypeImpl.splits)

lemma widens_core:
  assumes "widens t u" "t \<noteq> Null" "wf_type t" "wf_type u"
  shows "widens (remove_nullable t) (remove_nullable u)"
proof (cases "is_nullable t")
  case True
  then obtain s where "t = Nullable (NullableType s)" by (cases t rule: wf_type.cases) (simp_all add: is_nullable_def)
  then show ?thesis using assms(1) by (auto simp: remove_nullable_def split: DataTypeImpl.splits NullableType.splits)
next
  case False
  note t = this
  show ?thesis
  proof (cases "is_nullable u")
    case True
    then obtain v where "u = Nullable (NullableType v)" by (cases u rule: wf_type.cases) (simp_all add: is_nullable_def)
    then show ?thesis using widens_nullable_inner[of t v] assms t by (simp add: remove_not_nullable[OF t]) (simp add: remove_nullable_def)
  next
    case False
    then show ?thesis using assms(1) t by (simp add: remove_not_nullable)
  qed
qed

text \<open>The types without parts that are not numbers.\<close>

definition plain :: "DataTypeImpl \<Rightarrow> bool" where
  "plain t = (data_type_id t \<in> {ID_Boolean, ID_Date, ID_Timestamp, ID_String, ID_Variant, ID_VariantArray, ID_VariantObject, ID_Interval})"

lemma widens_plain: "plain s \<Longrightarrow> widens s t \<longleftrightarrow> data_type_id s = data_type_id (remove_nullable t)"
  by (cases s) (simp_all add: plain_def)

lemma widens_trans_flat:
  assumes "widens s t" "widens t u" "wf_type t" "wf_type u" and s: "is_numeric (data_type_id s) \<or> plain s"
  shows "widens s u"
proof -
  have t: "t \<noteq> Null" using assms(1) s
    by (cases s) (auto simp: plain_def remove_nullable_def is_numeric_def is_integer_def is_floating_def)
  have core: "widens (remove_nullable t) (remove_nullable u)" by (rule widens_core[OF assms(2) t assms(3,4)])
  from s show ?thesis
  proof
    assume "is_numeric (data_type_id s)"
    then obtain P where P: "s = to_data_type P" by (auto simp: numeric_iff_prim)
    then obtain Q where Q: "to_primitive_str (remove_nullable t) = Some Q" "prim_widens P Q"
      using assms(1) by (auto simp: widens_prim)
    then have "remove_nullable t = to_data_type Q" by (cases "remove_nullable t") simp_all
    then obtain R where "to_primitive_str (remove_nullable u) = Some R" "prim_widens Q R"
      using core by (auto simp: widens_prim remove_remove[OF assms(4)])
    then show ?thesis using P prim_widens_trans[OF Q(2)] by (auto simp: widens_prim)
  next
    assume p: "plain s"
    then have "data_type_id s = data_type_id (remove_nullable t)" using assms(1) by (simp add: widens_plain)
    moreover from this p have "plain (remove_nullable t)" by (simp add: plain_def)
    ultimately show ?thesis using core p by (simp add: widens_plain remove_remove[OF assms(4)])
  qed
qed

lemma widens_trans_null:
  assumes "wrap_nullable t = t" "widens t u"
  shows "wrap_nullable u = u"
  using assms by (cases t rule: wf_type.cases)
    (auto simp: wrap_id_iff can_inside_nullable_def split: DataTypeImpl.splits)

lemma widens_partsD:
  "widens (Nullable (NullableType s)) t \<Longrightarrow> \<exists>v. t = Nullable (NullableType v) \<and> widens s v"
  "widens (Array (ArrayType s)) t \<Longrightarrow> \<exists>v. remove_nullable t = Array (ArrayType v) \<and> widens s v"
  "widens (Struct (StructType n ss)) t \<Longrightarrow> \<exists>vs. t = Struct (StructType n vs) \<and> widens_all ss vs"
  "widens_all (s # ss) ts \<Longrightarrow> \<exists>v vs. ts = v # vs \<and> widens s v \<and> widens_all ss vs"
proof -
  show "widens (Nullable (NullableType s)) t \<Longrightarrow> \<exists>v. t = Nullable (NullableType v) \<and> widens s v"
    "widens (Struct (StructType n ss)) t \<Longrightarrow> \<exists>vs. t = Struct (StructType n vs) \<and> widens_all ss vs"
    by (cases t rule: wf_type.cases; simp)+
  show "widens (Array (ArrayType s)) t \<Longrightarrow> \<exists>v. remove_nullable t = Array (ArrayType v) \<and> widens s v"
    by (cases "remove_nullable t" rule: wf_type.cases) simp_all
  show "widens_all (s # ss) ts \<Longrightarrow> \<exists>v vs. ts = v # vs \<and> widens s v \<and> widens_all ss vs"
    by (cases ts) simp_all
qed

lemma widens_trans: "widens s t \<Longrightarrow> widens t u \<Longrightarrow> wf_type t \<Longrightarrow> wf_type u \<Longrightarrow> widens s u"
  and widens_all_trans: "widens_all ss ts \<Longrightarrow> widens_all ts us \<Longrightarrow> list_all wf_type ts \<Longrightarrow> list_all wf_type us \<Longrightarrow> widens_all ss us"
proof (induction s t and ss ts arbitrary: u and us rule: widens_widens_all.induct)
  case (1 t)
  then show ?case using widens_trans_null by simp
next
  case (2 s t)
  obtain v where v: "t = Nullable (NullableType v)" "widens s v" using widens_partsD(1)[OF "2.prems"(1)] by blast
  obtain w where w: "u = Nullable (NullableType w)" "widens v w" using widens_partsD(1) "2.prems"(2) v(1) by blast
  have "widens s w" by (rule "2.IH"[OF v(1) refl v(2) w(2)]) (use "2.prems"(3,4) v(1) w(1) in simp_all)
  then show ?case using w(1) by simp
next
  case (3 s t)
  obtain v where v: "remove_nullable t = Array (ArrayType v)" "widens s v" using widens_partsD(2)[OF "3.prems"(1)] by blast
  have t: "t \<noteq> Null" using v(1) by (auto simp: remove_nullable_def)
  have "widens (Array (ArrayType v)) (remove_nullable u)"
    using widens_core[OF "3.prems"(2) t "3.prems"(3,4)] v(1) by simp
  then obtain w where w: "remove_nullable u = Array (ArrayType w)" "widens v w"
    using widens_partsD(2) remove_remove[OF "3.prems"(4)] by fastforce
  have "widens s w"
    by (rule "3.IH"[OF v(1) refl v(2) w(2)]) (use wf_remove[OF "3.prems"(3)] wf_remove[OF "3.prems"(4)] v(1) w(1) in simp_all)
  then show ?case using w(1) by simp
next
  case (4 n ss t)
  obtain vs where v: "t = Struct (StructType n vs)" "widens_all ss vs" using widens_partsD(3)[OF "4.prems"(1)] by blast
  obtain ws where w: "u = Struct (StructType n ws)" "widens_all vs ws" using widens_partsD(3) "4.prems"(2) v(1) by blast
  have "widens_all ss ws" by (rule "4.IH"[OF v(1) refl v(2) w(2)]) (use "4.prems"(3,4) v(1) w(1) in simp_all)
  then show ?case using w(1) by simp
next
  case (7 s ss ts)
  obtain v vs where v: "ts = v # vs" "widens s v" "widens_all ss vs" using widens_partsD(4)[OF "7.prems"(1)] by blast
  obtain w ws where w: "us = w # ws" "widens v w" "widens_all vs ws" using widens_partsD(4) "7.prems"(2) v(1) by blast
  have "widens s w" by (rule "7.IH"(1)[OF v(1,2) w(2)]) (use "7.prems"(3,4) v(1) w(1) in simp_all)
  moreover have "widens_all ss ws" by (rule "7.IH"(2)[OF v(1,3) w(3)]) (use "7.prems"(3,4) v(1) w(1) in simp_all)
  ultimately show ?case using w(1) by simp
qed ((erule (3) widens_trans_flat, simp add: plain_def is_numeric_def is_integer_def is_floating_def)+, simp)


lemma aggregate_upper:
  "aggregate_types ts = Inr t \<Longrightarrow> \<forall>s \<in> set ts. wf_type s \<Longrightarrow> wf_type t \<and> (\<forall>s \<in> set ts. widens s t)"
proof (induction ts arbitrary: t rule: aggregate_types.induct)
  case (2 s)
  then show ?case by (simp add: widens_refl)
next
  case (3 left s ts)
  obtain r where r: "aggregate_types (s # ts) = Inr r" "merge_types left r = Inr t"
    using "3.prems"(1) by (auto simp: try_res_Inr_iff)
  have ih: "wf_type r \<and> (\<forall>x \<in> set (s # ts). widens x r)" by (rule "3.IH"[OF r(1)]) (use "3.prems"(2) in simp)
  have m: "widens left t \<and> widens r t \<and> wf_type t"
    by (rule merge_types_upper[OF r(2)]) (use "3.prems"(2) ih in simp_all)
  have "\<forall>x \<in> set (s # ts). widens x t" using ih m widens_trans by blast
  then show ?case using m by simp
qed simp



end
