(* ===== verification/Expression_Visitor.thy ===== *)
theory Expression_Visitor
  imports Schema_Types Type_Coercion
begin

text \<open>
  Expressions (\<open>common/planners/src/plan_expression.rs\<close>) and the walk over them with an explicit stack
  (\<open>plan_expression_visitor.rs\<close>). A literal value is of any type \<open>'d\<close>, the plan of a subquery of any
  type \<open>'p\<close>, the state of a visitor of any type \<open>'s\<close>. The walk ends for every visitor, and it is the
  recursive walk that visits the children of a node from the last to the first.
\<close>

section \<open>Expressions\<close>

datatype ('d, 'p) Expression =
    Alias string "('d, 'p) Expression"
  | Column string
  | QualifiedColumn "string list"
  | Literal 'd "string option" DataTypeImpl
  | UnaryExpression string "('d, 'p) Expression"
  | BinaryExpression "('d, 'p) Expression" string "('d, 'p) Expression"
  | ScalarFunction string "('d, 'p) Expression list"
  | AggregateFunction string bool "'d list" "('d, 'p) Expression list"
  | Sort "('d, 'p) Expression" bool bool "('d, 'p) Expression"
  | Wildcard
  | Cast "('d, 'p) Expression" DataTypeImpl bool
  | ScalarSubquery string 'p
  | Subquery string 'p
  | MapAccess string "('d, 'p) Expression list"


section \<open>The walk\<close>

datatype 's Recursion = Continue 's | Stop 's

datatype ('d, 'p) RecursionProcessing = Call "('d, 'p) Expression" | Ret "('d, 'p) Expression"

text \<open>The pushes of the children of a node, in the order of the code: the last one is visited first.\<close>

fun pushed_children :: "('d, 'p) Expression \<Rightarrow> ('d, 'p) Expression list" where
  "pushed_children (Alias _ e) = [e]"
| "pushed_children (BinaryExpression left _ right) = [left, right]"
| "pushed_children (UnaryExpression _ e) = [e]"
| "pushed_children (ScalarFunction _ args) = args"
| "pushed_children (AggregateFunction _ _ _ args) = args"
| "pushed_children (Cast e _ _) = [e]"
| "pushed_children (Sort e _ _ _) = [e]"
| "pushed_children (MapAccess _ args) = args"
| "pushed_children _ = []"

text \<open>The weight of the stack, which every turn of the loop makes smaller.\<close>

fun processing_weight :: "('d, 'p) RecursionProcessing \<Rightarrow> nat" where
  "processing_weight (Call e) = 4 * size e + 2"
| "processing_weight (Ret e) = 1"

lemma pushed_children_size: "(\<Sum>e \<leftarrow> pushed_children e. 4 * size e + 2) \<le> 4 * size e"
proof -
  have l: "(\<Sum>e \<leftarrow> es. 4 * size e + 2) \<le> 4 * size_list size es" for es :: "('a, 'b) Expression list"
    by (induction es) simp_all
  show ?thesis using l[of "pushed_children e"] by (cases e) simp_all
qed

lemma pushed_weight:
  "sum_list (map processing_weight (rev (map Call (pushed_children e)))) \<le> 4 * size e"
  using pushed_children_size[of e] by (simp add: rev_map[symmetric] comp_def sum_list_rev)

text \<open>
  The loop of \<open>visit\<close>: the head of the list is the top of the stack. \<open>Ret\<close> is pushed before the
  children, so that it is popped after them.
\<close>

function visit_loop ::
  "('s \<Rightarrow> ('d, 'p) Expression \<Rightarrow> 'e + 's Recursion) \<Rightarrow> ('s \<Rightarrow> ('d, 'p) Expression \<Rightarrow> 'e + 's)
     \<Rightarrow> ('d, 'p) RecursionProcessing list \<Rightarrow> 's \<Rightarrow> 'e + 's" where
  "visit_loop pre_visit post_visit [] self = Inr self"
| "visit_loop pre_visit post_visit (Ret expr # stack) self =
     try_res (post_visit self expr) (\<lambda>self. visit_loop pre_visit post_visit stack self)"
| "visit_loop pre_visit post_visit (Call expr # stack) self =
     try_res (pre_visit self expr) (\<lambda>r. case r of
         Stop visitor \<Rightarrow> visit_loop pre_visit post_visit (Ret expr # stack) visitor
       | Continue visitor \<Rightarrow>
           visit_loop pre_visit post_visit (rev (map Call (pushed_children expr)) @ Ret expr # stack) visitor)"
  by pat_completeness auto
termination
proof (relation "measure (\<lambda>(_, _, stack, _). sum_list (map processing_weight stack))", goal_cases)
  case (3 pre post expr stack self r visitor)
  then show ?case using pushed_weight[of expr] by simp
qed simp_all

definition visit ::
  "('s \<Rightarrow> ('d, 'p) Expression \<Rightarrow> 'e + 's Recursion) \<Rightarrow> ('s \<Rightarrow> ('d, 'p) Expression \<Rightarrow> 'e + 's)
     \<Rightarrow> 's \<Rightarrow> ('d, 'p) Expression \<Rightarrow> 'e + 's" where
  "visit pre_visit post_visit self predecessor_expr = visit_loop pre_visit post_visit [Call predecessor_expr] self"

definition accept ::
  "('s \<Rightarrow> ('d, 'p) Expression \<Rightarrow> 'e + 's Recursion) \<Rightarrow> ('s \<Rightarrow> ('d, 'p) Expression \<Rightarrow> 'e + 's)
     \<Rightarrow> ('d, 'p) Expression \<Rightarrow> 's \<Rightarrow> 'e + 's" where
  "accept pre_visit post_visit self visitor =
     try_res (pre_visit visitor self) (\<lambda>r. case r of
         Stop visitor \<Rightarrow> Inr visitor
       | Continue visitor \<Rightarrow>
           try_res (visit pre_visit post_visit visitor self) (\<lambda>visitor. post_visit visitor self))"


section \<open>The recursive walk\<close>

text \<open>The reference: a node, its children from the last to the first, and the node again.\<close>

function walk ::
  "('s \<Rightarrow> ('d, 'p) Expression \<Rightarrow> 'e + 's Recursion) \<Rightarrow> ('s \<Rightarrow> ('d, 'p) Expression \<Rightarrow> 'e + 's)
     \<Rightarrow> ('d, 'p) Expression \<Rightarrow> 's \<Rightarrow> 'e + 's"
  and walk_all ::
  "('s \<Rightarrow> ('d, 'p) Expression \<Rightarrow> 'e + 's Recursion) \<Rightarrow> ('s \<Rightarrow> ('d, 'p) Expression \<Rightarrow> 'e + 's)
     \<Rightarrow> ('d, 'p) Expression list \<Rightarrow> 's \<Rightarrow> 'e + 's" where
  "walk pre post e s =
     try_res (pre s e) (\<lambda>r. case r of
         Stop s \<Rightarrow> post s e
       | Continue s \<Rightarrow> try_res (walk_all pre post (rev (pushed_children e)) s) (\<lambda>s. post s e))"
| "walk_all pre post [] s = Inr s"
| "walk_all pre post (e # es) s = try_res (walk pre post e s) (\<lambda>s. walk_all pre post es s)"
  by pat_completeness auto
termination
proof (relation "measure (\<lambda>x. case x of
    Inl (_, _, e, _) \<Rightarrow> 4 * size e + 1 | Inr (_, _, es, _) \<Rightarrow> (\<Sum>e \<leftarrow> es. 4 * size e + 2))", goal_cases)
  case (2 pre post e s r s')
  have "(\<Sum>e \<leftarrow> rev (pushed_children e). 4 * size e + 2) \<le> 4 * size e"
    using pushed_children_size[of e] by (simp only: rev_map[symmetric] sum_list_rev)
  then show ?case by simp
qed simp_all

declare walk.simps [simp del]

lemma visit_loop_walk:
  "visit_loop pre post (Call e # stack) s = try_res (walk pre post e s) (visit_loop pre post stack)"
  and visit_loop_walk_all:
  "visit_loop pre post (map Call es @ stack) s = try_res (walk_all pre post es s) (visit_loop pre post stack)"
proof (induction pre post e s and pre post es s arbitrary: stack and stack rule: walk_walk_all.induct)
  case (1 pre post e s)
  show ?case
  proof (cases "pre s e")
    case (Inl err)
    then show ?thesis by (simp add: walk.simps[of pre post e s])
  next
    case (Inr r)
    show ?thesis
    proof (cases r)
      case (Stop t)
      then show ?thesis using Inr by (simp add: walk.simps[of pre post e s])
    next
      case (Continue t)
      have "visit_loop pre post (map Call (rev (pushed_children e)) @ Ret e # stack) t
          = try_res (walk_all pre post (rev (pushed_children e)) t) (visit_loop pre post (Ret e # stack))"
        by (rule "1.IH"[OF Inr Continue])
      then show ?thesis using Inr Continue
        by (cases "walk_all pre post (rev (pushed_children e)) t") (simp_all add: walk.simps[of pre post e s] rev_map)
    qed
  qed
next
  case (3 pre post e es s)
  show ?case
  proof (cases "walk pre post e s")
    case (Inl err)
    then show ?thesis using "3.IH"(1)[of "map Call es @ stack"] by simp
  next
    case (Inr t)
    then show ?thesis using "3.IH"(1)[of "map Call es @ stack"] "3.IH"(2)[OF Inr, of stack] by simp
  qed
qed simp

lemma visit_walk: "visit pre post s e = walk pre post e s"
proof -
  have "try_res r (visit_loop pre post []) = r" for r by (cases r) simp_all
  then show ?thesis by (simp only: visit_def visit_loop_walk)
qed


section \<open>The order of the visits\<close>

text \<open>A visitor that writes down the calls it gets.\<close>

datatype ('d, 'p) call = PreVisit "('d, 'p) Expression" | PostVisit "('d, 'p) Expression"

definition trace_pre :: "('d, 'p) call list \<Rightarrow> ('d, 'p) Expression \<Rightarrow> unit + ('d, 'p) call list Recursion" where
  "trace_pre calls e = Inr (Continue (calls @ [PreVisit e]))"

definition trace_post :: "('d, 'p) call list \<Rightarrow> ('d, 'p) Expression \<Rightarrow> unit + ('d, 'p) call list" where
  "trace_post calls e = Inr (calls @ [PostVisit e])"


end
