(* ===== verification/Monotonicity.thy ===== *)
theory Monotonicity
  imports Complex_Main Expression_Visitor
begin

text \<open>
  The monotonicity of expressions on a range of their columns: what each function says of itself
  (\<open>common/functions/src/scalars/function_monotonic.rs\<close> and the \<open>get_monotonicity\<close> of the arithmetic and
  mathematical functions) and the visitor that combines it
  (\<open>common/planners/src/plan_expression_monotonicity.rs\<close>). A column of one row is a value of any type
  \<open>'v\<close>; the cast of a column to a 64-bit floating point number and reading it is the argument
  \<open>to_f64\<close>, a real number. Functions are found by a \<open>FunctionFactory\<close>, an argument.
\<close>

section \<open>Monotonicity\<close>

record 'v ColumnWithField =
  cf_column :: 'v
  cf_type :: DataTypeImpl

record 'v Monotonicity =
  is_monotonic :: bool
  is_positive :: bool
  is_constant :: bool
  mono_left :: "'v ColumnWithField option"
  mono_right :: "'v ColumnWithField option"

definition Monotonicity_create :: "bool \<Rightarrow> bool \<Rightarrow> bool \<Rightarrow> 'v Monotonicity" where
  "Monotonicity_create mon pos const =
     \<lparr>is_monotonic = mon, is_positive = pos, is_constant = const, mono_left = None, mono_right = None\<rparr>"

definition Monotonicity_default :: "'v Monotonicity" where
  "Monotonicity_default =
     \<lparr>is_monotonic = False, is_positive = True, is_constant = False, mono_left = None, mono_right = None\<rparr>"

definition Monotonicity_create_constant :: "'v Monotonicity" where
  "Monotonicity_create_constant =
     \<lparr>is_monotonic = True, is_positive = True, is_constant = True, mono_left = None, mono_right = None\<rparr>"

definition clone_without_range :: "'v Monotonicity \<Rightarrow> 'v Monotonicity" where
  "clone_without_range monot =
     \<lparr>is_monotonic = is_monotonic monot, is_positive = is_positive monot, is_constant = is_constant monot,
      mono_left = None, mono_right = None\<rparr>"

type_synonym 'v to_f64 = "'v ColumnWithField \<Rightarrow> query_error + real"

definition compare_with_zero :: "'v to_f64 \<Rightarrow> 'v Monotonicity \<Rightarrow> query_error + int" where
  "compare_with_zero to_f64 self =
     (if \<not> is_monotonic self then Inl UnknownException
      else
        let (min_col, max_col) = (if is_positive self then (mono_left self, mono_right self)
                          else (mono_right self, mono_left self))
        in case (max_col, min_col) of
             (Some max_col, Some min_col) \<Rightarrow>
               try_res (to_f64 min_col) (\<lambda>min_val.
                 if min_val \<ge> 0 then Inr 1
                 else if is_constant self then Inr (- 1)
                 else try_res (to_f64 max_col) (\<lambda>max_val. if max_val \<le> 0 then Inr (- 1) else Inr 0))
           | _ \<Rightarrow> Inr 0)"


section \<open>Functions\<close>

type_synonym 'v mono_rule = "'v Monotonicity list \<Rightarrow> query_error + 'v Monotonicity"

text \<open>The indexing \<open>args[0]\<close>, \<open>args[1]\<close> of too few arguments panics.\<close>

definition ArithmeticPlusFunction_get_monotonicity :: "'v mono_rule" where
  "ArithmeticPlusFunction_get_monotonicity args =
     (case args of
        f_x # g_x # _ \<Rightarrow>
          if \<not> is_monotonic f_x \<or> \<not> is_monotonic g_x then Inr Monotonicity_default
          else if is_constant f_x then
            Inr (Monotonicity_create (is_monotonic g_x) (is_positive g_x) (is_constant g_x))
          else if is_constant g_x then
            Inr (Monotonicity_create (is_monotonic f_x) (is_positive f_x) (is_constant f_x))
          else if is_positive f_x \<noteq> is_positive g_x then Inr Monotonicity_default
          else Inr (Monotonicity_create True (is_positive f_x) False)
      | _ \<Rightarrow> Inl Panic)"

definition ArithmeticMinusFunction_get_monotonicity :: "'v mono_rule" where
  "ArithmeticMinusFunction_get_monotonicity args =
     (case args of
        f_x # g_x # _ \<Rightarrow>
          if is_constant f_x then
            Inr (Monotonicity_create (is_monotonic g_x \<or> is_constant g_x) (\<not> is_positive g_x) (is_constant g_x))
          else if is_constant g_x then
            Inr (Monotonicity_create (is_monotonic f_x) (is_positive f_x) (is_constant f_x))
          else if \<not> is_monotonic f_x \<or> \<not> is_monotonic g_x then Inr Monotonicity_default
          else if is_positive f_x = is_positive g_x then Inr Monotonicity_default
          else Inr (Monotonicity_create True (is_positive f_x) False)
      | _ \<Rightarrow> Inl Panic)"

definition arithmetic_mul_div_monotonicity :: "'v to_f64 \<Rightarrow> DataValueBinaryOperator \<Rightarrow> 'v mono_rule" where
  "arithmetic_mul_div_monotonicity to_f64 op args =
     (if op \<noteq> Mul \<and> op \<noteq> Div then Inl BadArguments
      else case args of
        f_x # g_x # _ \<Rightarrow>
          (case (is_constant f_x, is_constant g_x) of
             (True, True) \<Rightarrow> Inr Monotonicity_create_constant
           | (True, False) \<Rightarrow>
               try_res (compare_with_zero to_f64 f_x) (\<lambda>c.
                 if c = 1 then
                   (if op = Mul
                    then Inr (Monotonicity_create (is_monotonic g_x) (is_positive g_x) (is_constant g_x))
                    else try_res (compare_with_zero to_f64 g_x) (\<lambda>d.
                      if d = 0 then Inr Monotonicity_default
                      else Inr (Monotonicity_create (is_monotonic g_x) (\<not> is_positive g_x) (is_constant g_x))))
                 else if c = -1 then
                   (if op = Mul
                    then Inr (Monotonicity_create (is_monotonic g_x) (\<not> is_positive g_x) (is_constant g_x))
                    else try_res (compare_with_zero to_f64 g_x) (\<lambda>d.
                      if d = 0 then Inr Monotonicity_default
                      else Inr (Monotonicity_create (is_monotonic g_x) (is_positive g_x) (is_constant g_x))))
                 else Inl Panic)
           | (False, True) \<Rightarrow>
               try_res (compare_with_zero to_f64 g_x) (\<lambda>c.
                 if c = 1 then Inr (Monotonicity_create (is_monotonic f_x) (is_positive f_x) (is_constant f_x))
                 else if c = -1 then
                   Inr (Monotonicity_create (is_monotonic f_x) (\<not> is_positive f_x) (is_constant f_x))
                 else Inl Panic)
           | (False, False) \<Rightarrow>
               if is_monotonic f_x \<and> is_monotonic g_x then
                 try_res (compare_with_zero to_f64 f_x) (\<lambda>c.
                 try_res (compare_with_zero to_f64 g_x) (\<lambda>d.
                   if (c, d) = (1, 1) \<or> (c, d) = (-1, -1) then
                     let (mon, pos) =
                           (case (is_positive f_x, is_positive g_x, op) of
                              (True, True, Mul) \<Rightarrow> (True, True)
                            | (True, False, Div) \<Rightarrow> (True, True)
                            | (False, False, Mul) \<Rightarrow> (True, False)
                            | (False, True, Div) \<Rightarrow> (True, False)
                            | _ \<Rightarrow> (False, False))
                     in Inr (Monotonicity_create mon (if c = -1 then \<not> pos else pos) False)
                   else if (c, d) = (-1, 1) \<or> (c, d) = (1, -1) then
                     let (mon, pos) =
                           (case (is_positive f_x, is_positive g_x, op) of
                              (True, True, Div) \<Rightarrow> (True, False)
                            | (True, False, Mul) \<Rightarrow> (True, False)
                            | (False, False, Div) \<Rightarrow> (True, True)
                            | (False, True, Mul) \<Rightarrow> (True, True)
                            | _ \<Rightarrow> (False, False))
                     in Inr (Monotonicity_create mon (if c = -1 then \<not> pos else pos) False)
                   else Inr Monotonicity_default))
               else Inr Monotonicity_default)
      | _ \<Rightarrow> Inl Panic)"

definition ArithmeticMulFunction_get_monotonicity :: "'v to_f64 \<Rightarrow> 'v mono_rule" where
  "ArithmeticMulFunction_get_monotonicity to_f64 args = arithmetic_mul_div_monotonicity to_f64 Mul args"

definition ArithmeticDivFunction_get_monotonicity :: "'v to_f64 \<Rightarrow> 'v mono_rule" where
  "ArithmeticDivFunction_get_monotonicity to_f64 args = arithmetic_mul_div_monotonicity to_f64 Div args"

definition BinaryArithmeticFunction_get_monotonicity :: "'v to_f64 \<Rightarrow> DataValueBinaryOperator \<Rightarrow> 'v mono_rule" where
  "BinaryArithmeticFunction_get_monotonicity to_f64 op args =
     (if length args \<noteq> 2 then Inl BadArguments
      else case op of
        Plus \<Rightarrow> ArithmeticPlusFunction_get_monotonicity args
      | Minus \<Rightarrow> ArithmeticMinusFunction_get_monotonicity args
      | Mul \<Rightarrow> ArithmeticMulFunction_get_monotonicity to_f64 args
      | Div \<Rightarrow> ArithmeticDivFunction_get_monotonicity to_f64 args
      | _ \<Rightarrow> Inr Monotonicity_default)"

definition ArithmeticNegateFunction_get_monotonicity :: "'v mono_rule" where
  "ArithmeticNegateFunction_get_monotonicity args =
     (case args of
        a # _ \<Rightarrow> Inr (Monotonicity_create (is_monotonic a \<or> is_constant a) (\<not> is_positive a) (is_constant a))
      | _ \<Rightarrow> Inl Panic)"

definition UnaryArithmeticFunction_get_monotonicity :: "'v mono_rule" where
  "UnaryArithmeticFunction_get_monotonicity args =
     (if length args \<noteq> 1 then Inl BadArguments else ArithmeticNegateFunction_get_monotonicity args)"

definition AbsFunction_get_monotonicity :: "'v to_f64 \<Rightarrow> 'v mono_rule" where
  "AbsFunction_get_monotonicity to_f64 args =
     (case args of
        a # _ \<Rightarrow>
          if is_constant a then Inr a
          else if mono_left a = None \<or> mono_right a = None then Inr Monotonicity_default
          else try_res (compare_with_zero to_f64 a) (\<lambda>c.
            if c = 1 then Inr (Monotonicity_create True (is_positive a) False)
            else if c = -1 then Inr (Monotonicity_create True (\<not> is_positive a) False)
            else Inr Monotonicity_default)
      | _ \<Rightarrow> Inl Panic)"

definition FloorFunction_get_monotonicity :: "'v mono_rule" where
  "FloorFunction_get_monotonicity args = (case args of a # _ \<Rightarrow> Inr (clone_without_range a) | _ \<Rightarrow> Inl Panic)"

definition CeilFunction_get_monotonicity :: "'v mono_rule" where
  "CeilFunction_get_monotonicity args = (case args of a # _ \<Rightarrow> Inr (clone_without_range a) | _ \<Rightarrow> Inl Panic)"

definition is_boundary_numeric :: "'v ColumnWithField option \<Rightarrow> bool" where
  "is_boundary_numeric boundary =
     (case boundary of Some column_field \<Rightarrow> is_numeric (data_type_id (cf_type column_field)) | None \<Rightarrow> False)"

definition SignFunction_get_monotonicity :: "'v mono_rule" where
  "SignFunction_get_monotonicity args =
     (case args of
        monot # _ \<Rightarrow>
          if is_constant monot then Inr Monotonicity_create_constant
          else if is_boundary_numeric (mono_left monot) \<or> is_boundary_numeric (mono_right monot)
          then Inr (clone_without_range monot)
          else Inr Monotonicity_default
      | _ \<Rightarrow> Inl Panic)"


section \<open>The visitor\<close>

record 'v ScalarFn =
  sf_return_type :: DataTypeImpl
  sf_eval :: "'v ColumnWithField list \<Rightarrow> query_error + 'v"
  sf_get_monotonicity :: "'v mono_rule"

record 'v FunctionFactory =
  ff_get :: "string \<Rightarrow> DataTypeImpl list \<Rightarrow> query_error + 'v ScalarFn"
  ff_is_deterministic :: "string \<Rightarrow> query_error + bool"

type_synonym 'v variables = "string \<Rightarrow> ('v ColumnWithField option \<times> 'v ColumnWithField option) option"

text \<open>The head of the stack is its top.\<close>

record 'v ExpressionMonotonicityVisitor =
  mv_input_schema :: DataSchema
  mv_variables :: "'v variables"
  mv_stack :: "(DataTypeImpl \<times> 'v Monotonicity) list"
  mv_single_point :: bool

definition ExpressionMonotonicityVisitor_create ::
  "DataSchema \<Rightarrow> 'v variables \<Rightarrow> bool \<Rightarrow> 'v ExpressionMonotonicityVisitor" where
  "ExpressionMonotonicityVisitor_create input_schema variables single_point =
     \<lparr>mv_input_schema = input_schema, mv_variables = variables, mv_stack = [], mv_single_point = single_point\<rparr>"

definition finalize :: "'v ExpressionMonotonicityVisitor \<Rightarrow> query_error + 'v Monotonicity" where
  "finalize self = (case mv_stack self of [(_, monotonic)] \<Rightarrow> Inr monotonic | _ \<Rightarrow> Inl LogicalError)"

definition try_calculate_boundary ::
  "'v ScalarFn \<Rightarrow> DataTypeImpl \<Rightarrow> 'v ColumnWithField option list \<Rightarrow> query_error + 'v ColumnWithField option" where
  "try_calculate_boundary func result_type args =
     (if list_ex Option.is_none args then Inr None
      else try_res (sf_eval func (map the args)) (\<lambda>col. Inr (Some \<lparr>cf_column = col, cf_type = result_type\<rparr>)))"

fun pop_args :: "nat \<Rightarrow> 'a list \<Rightarrow> query_error + 'a list \<times> 'a list" where
  "pop_args 0 stack = Inr ([], stack)"
| "pop_args (Suc n) [] = Inl LogicalError"
| "pop_args (Suc n) (x # stack) = try_res (pop_args n stack) (\<lambda>(xs, stack). Inr (x # xs, stack))"

definition visit_function ::
  "'v FunctionFactory \<Rightarrow> 'v ExpressionMonotonicityVisitor \<Rightarrow> string \<Rightarrow> nat
     \<Rightarrow> query_error + 'v ExpressionMonotonicityVisitor" where
  "visit_function instance self op args_size =
     try_res (pop_args args_size (mv_stack self)) (\<lambda>(popped, stack).
       let arg_types = map fst popped; monotonicity_vec = map snd popped in
       try_res (ff_get instance op arg_types) (\<lambda>func.
       let return_type = sf_return_type func in
       try_res
         (if \<not> mv_single_point self then sf_get_monotonicity func monotonicity_vec
          else try_res (ff_is_deterministic instance op) (\<lambda>is_deterministic.
            Inr (if is_deterministic then Monotonicity_create_constant else Monotonicity_default)))
         (\<lambda>monotonic.
       if \<not> is_monotonic monotonic \<and> \<not> is_constant monotonic then Inl UnknownException
       else
         try_res (try_calculate_boundary func return_type (map mono_left monotonicity_vec)) (\<lambda>left.
         try_res (try_calculate_boundary func return_type (map mono_right monotonicity_vec)) (\<lambda>right.
         Inr (self\<lparr>mv_stack := (return_type, monotonic\<lparr>mono_left := left, mono_right := right\<rparr>) # stack\<rparr>))))))"

fun field_with_name :: "DataField list \<Rightarrow> string \<Rightarrow> query_error + DataField" where
  "field_with_name [] name = Inl BadArguments"
| "field_with_name (f # fs) name = (if df_name f = name then Inr f else field_with_name fs name)"

definition mono_pre_visit ::
  "'v ExpressionMonotonicityVisitor \<Rightarrow> ('d, 'p) Expression \<Rightarrow> query_error + 'v ExpressionMonotonicityVisitor Recursion" where
  "mono_pre_visit self expr = Inr (Continue self)"

text \<open>\<open>create_constant_column\<close> is the column of one row the type makes of a literal.\<close>

definition mono_post_visit ::
  "'v FunctionFactory \<Rightarrow> (DataTypeImpl \<Rightarrow> 'd \<Rightarrow> query_error + 'v) \<Rightarrow> 'v ExpressionMonotonicityVisitor
     \<Rightarrow> ('d, 'p) Expression \<Rightarrow> query_error + 'v ExpressionMonotonicityVisitor" where
  "mono_post_visit instance create_constant_column self expr =
     (case expr of
        Column s \<Rightarrow>
          (case mv_variables self s of
             None \<Rightarrow> Inl BadArguments
           | Some (left, right) \<Rightarrow>
               try_res (field_with_name (ds_fields (mv_input_schema self)) s) (\<lambda>field.
                 Inr (self\<lparr>mv_stack :=
                   (df_data_type field,
                    \<lparr>is_monotonic = True, is_positive = True, is_constant = False, mono_left = left, mono_right = right\<rparr>)
                   # mv_stack self\<rparr>)))
      | Literal val _ data_type \<Rightarrow>
          try_res (create_constant_column data_type val) (\<lambda>col.
            let data_column_field = \<lparr>cf_column = col, cf_type = data_type\<rparr> in
            Inr (self\<lparr>mv_stack :=
              (data_type,
               \<lparr>is_monotonic = True, is_positive = True, is_constant = True,
                mono_left = Some data_column_field, mono_right = Some data_column_field\<rparr>)
              # mv_stack self\<rparr>))
      | BinaryExpression _ op _ \<Rightarrow> visit_function instance self op 2
      | UnaryExpression op _ \<Rightarrow> visit_function instance self op 1
      | ScalarFunction op args \<Rightarrow> visit_function instance self op (length args)
      | _ \<Rightarrow> Inl UnknownException)"

text \<open>An error of the visit gives the default; a panic is not caught.\<close>

definition check_expression ::
  "'v FunctionFactory \<Rightarrow> (DataTypeImpl \<Rightarrow> 'd \<Rightarrow> query_error + 'v) \<Rightarrow> DataSchema \<Rightarrow> ('d, 'p) Expression
     \<Rightarrow> 'v variables \<Rightarrow> bool \<Rightarrow> query_error + 'v Monotonicity" where
  "check_expression instance create_constant_column schema expr variables single_point =
     (let visitor = ExpressionMonotonicityVisitor_create schema variables single_point in
      case visit mono_pre_visit (mono_post_visit instance create_constant_column) visitor expr of
        Inl e \<Rightarrow> if e = Panic then Inl Panic else Inr Monotonicity_default
      | Inr v \<Rightarrow> (case finalize v of Inl _ \<Rightarrow> Inr Monotonicity_default | Inr m \<Rightarrow> Inr m))"

definition extract_sort_column ::
  "'v FunctionFactory \<Rightarrow> (DataTypeImpl \<Rightarrow> 'd \<Rightarrow> query_error + 'v) \<Rightarrow> DataSchema \<Rightarrow> ('d, 'p) Expression
     \<Rightarrow> 'v ColumnWithField option \<Rightarrow> 'v ColumnWithField option \<Rightarrow> string \<Rightarrow> query_error + ('d, 'p) Expression" where
  "extract_sort_column instance create_constant_column schema sort_expr left right column_name =
     (case sort_expr of
        Sort _ asc nulls_first origin_expr \<Rightarrow>
          try_res (check_expression instance create_constant_column schema origin_expr
                     [column_name \<mapsto> (left, right)] False) (\<lambda>monot.
            if \<not> is_monotonic monot then Inr sort_expr
            else
              let new_asc = (if is_positive monot then asc else \<not> asc) in
              Inr (Sort (Column column_name) new_asc nulls_first origin_expr))
      | _ \<Rightarrow> Inl BadArguments)"

end
