(* ===== verification/Monotonicity_Rules.thy ===== *)
theory Monotonicity_Rules
  imports Monotonicity
begin

text \<open>
  What it means that a monotonicity is true of a function of the columns, and the contract of the
  scalar functions: if the monotonicities of the arguments are true, so is the one their rule gives.
  The contract is a locale, interpreted on the rules of the source. The number a column stands for is
  what its cast to a 64-bit floating point number gives, and functions compute exactly on these
  numbers: rounding and the wrap-around of 64-bit integers are outside.
\<close>

section \<open>Truth of a monotonicity\<close>

type_synonym env = "string \<Rightarrow> real"

definition num :: "'v to_f64 \<Rightarrow> 'v ColumnWithField \<Rightarrow> real" where
  "num to_f64 v = (case to_f64 v of Inl _ \<Rightarrow> 0 | Inr x \<Rightarrow> x)"

definition in_range :: "'v to_f64 \<Rightarrow> 'v variables \<Rightarrow> env \<Rightarrow> bool" where
  "in_range to_f64 V \<rho> = (\<forall>c l r. V c = Some (l, r) \<longrightarrow>
     (\<forall>v. l = Some v \<longrightarrow> num to_f64 v \<le> \<rho> c) \<and> (\<forall>v. r = Some v \<longrightarrow> \<rho> c \<le> num to_f64 v))"

text \<open>The precondition of \<open>check_expression\<close>: the left end of a range is at most the right end.\<close>

definition ordered :: "'v to_f64 \<Rightarrow> 'v variables \<Rightarrow> bool" where
  "ordered to_f64 V = (\<forall>c l r. V c = Some (Some l, Some r) \<longrightarrow> num to_f64 l \<le> num to_f64 r)"

definition lower :: "'v to_f64 \<Rightarrow> 'v variables \<Rightarrow> env \<Rightarrow> env" where
  "lower to_f64 V \<rho> c = (case V c of Some (Some v, _) \<Rightarrow> num to_f64 v | _ \<Rightarrow> \<rho> c)"

definition upper :: "'v to_f64 \<Rightarrow> 'v variables \<Rightarrow> env \<Rightarrow> env" where
  "upper to_f64 V \<rho> c = (case V c of Some (_, Some v) \<Rightarrow> num to_f64 v | _ \<Rightarrow> \<rho> c)"

definition env_le :: "env \<Rightarrow> env \<Rightarrow> bool" where
  "env_le \<rho> \<sigma> = (\<forall>c. \<rho> c \<le> \<sigma> c)"

definition true_flags :: "'v to_f64 \<Rightarrow> 'v variables \<Rightarrow> 'v Monotonicity \<Rightarrow> (env \<Rightarrow> real) \<Rightarrow> bool" where
  "true_flags to_f64 V m f =
     ((is_monotonic m \<longrightarrow> (\<forall>\<rho> \<sigma>. in_range to_f64 V \<rho> \<longrightarrow> in_range to_f64 V \<sigma> \<longrightarrow> env_le \<rho> \<sigma> \<longrightarrow>
         (if is_positive m then f \<rho> \<le> f \<sigma> else f \<sigma> \<le> f \<rho>)))
    \<and> (is_constant m \<longrightarrow> (\<forall>\<rho> \<sigma>. in_range to_f64 V \<rho> \<longrightarrow> in_range to_f64 V \<sigma> \<longrightarrow> f \<rho> = f \<sigma>)))"

definition true_bounds :: "'v to_f64 \<Rightarrow> 'v variables \<Rightarrow> 'v Monotonicity \<Rightarrow> (env \<Rightarrow> real) \<Rightarrow> bool" where
  "true_bounds to_f64 V m f =
     (\<forall>\<rho>. in_range to_f64 V \<rho> \<longrightarrow>
        (\<forall>v. mono_left m = Some v \<longrightarrow> f (lower to_f64 V \<rho>) = num to_f64 v)
      \<and> (\<forall>v. mono_right m = Some v \<longrightarrow> f (upper to_f64 V \<rho>) = num to_f64 v))"

text \<open>A function of the columns in question only.\<close>

definition local :: "'v variables \<Rightarrow> (env \<Rightarrow> real) \<Rightarrow> bool" where
  "local V f = (\<forall>\<rho> \<sigma>. (\<forall>c \<in> dom V. \<rho> c = \<sigma> c) \<longrightarrow> f \<rho> = f \<sigma>)"

definition describes :: "'v to_f64 \<Rightarrow> 'v variables \<Rightarrow> 'v Monotonicity \<Rightarrow> (env \<Rightarrow> real) \<Rightarrow> bool" where
  "describes to_f64 V m f = (true_flags to_f64 V m f \<and> true_bounds to_f64 V m f \<and> local V f)"

lemma lower_upper:
  assumes "ordered to_f64 V" "in_range to_f64 V \<rho>"
  shows "in_range to_f64 V (lower to_f64 V \<rho>)" "in_range to_f64 V (upper to_f64 V \<rho>)"
    "env_le (lower to_f64 V \<rho>) \<rho>" "env_le \<rho> (upper to_f64 V \<rho>)"
  using assms
  by (auto simp: in_range_def ordered_def lower_def upper_def env_le_def split: option.splits)

text \<open>The values of a monotonic function lie between its ends.\<close>

lemma described_bounds:
  assumes "ordered to_f64 V" "describes to_f64 V m f" "is_monotonic m" "in_range to_f64 V \<rho>"
  shows "mono_left m = Some l \<Longrightarrow> if is_positive m then num to_f64 l \<le> f \<rho> else f \<rho> \<le> num to_f64 l"
    "mono_right m = Some r \<Longrightarrow> if is_positive m then f \<rho> \<le> num to_f64 r else num to_f64 r \<le> f \<rho>"
proof -
  have m: "if is_positive m then f \<sigma> \<le> f \<tau> else f \<tau> \<le> f \<sigma>"
    if "in_range to_f64 V \<sigma>" "in_range to_f64 V \<tau>" "env_le \<sigma> \<tau>" for \<sigma> \<tau>
    using assms(2,3) that by (auto simp: describes_def true_flags_def)
  note lu = lower_upper[OF assms(1,4)]
  have b: "mono_left m = Some l \<Longrightarrow> f (lower to_f64 V \<rho>) = num to_f64 l"
    "mono_right m = Some r \<Longrightarrow> f (upper to_f64 V \<rho>) = num to_f64 r"
    using assms(2,4) by (auto simp: describes_def true_bounds_def)
  show "mono_left m = Some l \<Longrightarrow> if is_positive m then num to_f64 l \<le> f \<rho> else f \<rho> \<le> num to_f64 l"
    using m[OF lu(1) assms(4) lu(3)] b(1) by auto
  show "mono_right m = Some r \<Longrightarrow> if is_positive m then f \<rho> \<le> num to_f64 r else num to_f64 r \<le> f \<rho>"
    using m[OF assms(4) lu(2) lu(4)] b(2) by auto
qed

lemma compare_with_zero_true:
  assumes o: "ordered to_f64 V" and d: "describes to_f64 V m f" and c: "compare_with_zero to_f64 m = Inr c"
    and r: "in_range to_f64 V \<rho>"
  shows "c = 1 \<Longrightarrow> 0 \<le> f \<rho>" "c = -1 \<Longrightarrow> f \<rho> \<le> 0" "c = 1 \<or> c = -1 \<or> c = 0"
proof -
  have m: "is_monotonic m" using c by (auto simp: compare_with_zero_def split: if_splits)
  define lo where "lo = (if is_positive m then mono_left m else mono_right m)"
  define hi where "hi = (if is_positive m then mono_right m else mono_left m)"
  have ends: "lo = Some v \<Longrightarrow> num to_f64 v \<le> f \<rho>" "hi = Some v \<Longrightarrow> f \<rho> \<le> num to_f64 v" for v
    using described_bounds[OF o d m r] by (auto simp: lo_def hi_def split: if_splits)
  have const: "is_constant m \<Longrightarrow> lo = Some v \<Longrightarrow> f \<rho> = num to_f64 v" for v
    using d r lower_upper[OF o r] unfolding describes_def true_flags_def true_bounds_def lo_def
    by (metis (no_types, lifting))
  have e: "compare_with_zero to_f64 m =
      (case (hi, lo) of (Some h, Some l) \<Rightarrow>
          try_res (to_f64 l) (\<lambda>x. if x \<ge> 0 then Inr 1 else if is_constant m then Inr (- 1)
            else try_res (to_f64 h) (\<lambda>y. if y \<le> 0 then Inr (- 1) else Inr 0))
        | _ \<Rightarrow> Inr 0)"
    using m by (simp add: compare_with_zero_def lo_def hi_def Let_def)
  show "c = 1 \<Longrightarrow> 0 \<le> f \<rho>" "c = -1 \<Longrightarrow> f \<rho> \<le> 0" "c = 1 \<or> c = -1 \<or> c = 0"
    using c[unfolded e] ends const
    by (fastforce simp: num_def try_res_Inr_iff split: option.splits if_splits)+
qed


section \<open>Directions\<close>

text \<open>A step from one value to another in the direction of a flag.\<close>

definition follows :: "bool \<Rightarrow> real \<Rightarrow> real \<Rightarrow> bool" where
  "follows pos a b = (if pos then a \<le> b else b \<le> a)"

lemma follows_refl [simp]: "follows p a a"
  by (simp add: follows_def)

lemma follows_add: "follows p a b \<Longrightarrow> follows p c d \<Longrightarrow> follows p (a + c) (b + d)"
  by (simp add: follows_def split: if_splits)

lemma follows_minus: "follows p a b \<Longrightarrow> follows (\<not> p) (- a) (- b)"
  by (simp add: follows_def split: if_splits)

lemma follows_mono: "mono h \<Longrightarrow> follows p a b \<Longrightarrow> follows p (h a) (h b)"
  by (auto simp: follows_def mono_def)

definition sign_of :: "int \<Rightarrow> real \<Rightarrow> bool" where
  "sign_of c x = (if c = 1 then 0 \<le> x else x \<le> 0)"

text \<open>A product of factors of known signs; a sign of -1 turns the direction of the other factor.\<close>

lemma follows_mult:
  assumes s: "sign_of c a" "sign_of c b" "sign_of d x" "sign_of d y"
    and f: "follows p a b" "follows q x y"
  shows "(if d = 1 then p else \<not> p) = (if c = 1 then q else \<not> q) \<Longrightarrow>
      follows (if d = 1 then p else \<not> p) (a * x) (b * y)"
proof -
  have nonneg: "follows p (a * x) (b * y)"
    if "0 \<le> a" "0 \<le> b" "0 \<le> x" "0 \<le> y" "follows p a b" "follows p x y" for a b x y p
    using that by (auto simp: follows_def intro: mult_mono split: if_splits)
  assume e: "(if d = 1 then p else \<not> p) = (if c = 1 then q else \<not> q)"
  show "follows (if d = 1 then p else \<not> p) (a * x) (b * y)"
  proof (cases "c = 1"; cases "d = 1")
    assume "c = 1" "d = 1"
    then show ?thesis using nonneg[of a b x y p] s f e by (simp add: sign_of_def)
  next
    assume "c = 1" "d \<noteq> 1"
    then show ?thesis using nonneg[of a b "- x" "- y" p] follows_minus[OF f(2)] follows_minus[of p "a * - x" "b * - y"] s f e
      by (cases p; cases q) (simp_all add: sign_of_def)
  next
    assume "c \<noteq> 1" "d = 1"
    then show ?thesis using nonneg[of "- a" "- b" x y "\<not> p"] follows_minus[OF f(1)] follows_minus[of "\<not> p" "- a * x" "- b * y"] s f e
      by (cases p; cases q) (simp_all add: sign_of_def)
  next
    assume "c \<noteq> 1" "d \<noteq> 1"
    then show ?thesis using nonneg[of "- a" "- b" "- x" "- y" "\<not> p"] follows_minus[OF f(1)] follows_minus[OF f(2)] s f e
      by (cases p; cases q) (simp_all add: sign_of_def)
  qed
qed

lemma follows_scale:
  "sign_of c k \<Longrightarrow> follows p a b \<Longrightarrow> follows (if c = 1 then p else \<not> p) (k * a) (k * b)"
  by (auto simp: sign_of_def follows_def mult_left_mono mult_left_mono_neg split: if_splits)

lemma follows_inverse:
  assumes "sign_of d x" "sign_of d y" "x \<noteq> 0" "y \<noteq> 0" "follows q x y"
  shows "follows (\<not> q) (inverse x) (inverse y)" "sign_of d (inverse x)" "sign_of d (inverse y)"
  using assms
  by (auto simp: sign_of_def follows_def intro: le_imp_inverse_le le_imp_inverse_le_neg split: if_splits)

lemma true_flags_follows:
  "true_flags to_f64 V m f \<longleftrightarrow>
     (is_monotonic m \<longrightarrow> (\<forall>\<rho> \<sigma>. in_range to_f64 V \<rho> \<longrightarrow> in_range to_f64 V \<sigma> \<longrightarrow> env_le \<rho> \<sigma> \<longrightarrow>
        follows (is_positive m) (f \<rho>) (f \<sigma>)))
   \<and> (is_constant m \<longrightarrow> (\<forall>\<rho> \<sigma>. in_range to_f64 V \<rho> \<longrightarrow> in_range to_f64 V \<sigma> \<longrightarrow> f \<rho> = f \<sigma>))"
  by (simp add: true_flags_def follows_def)

lemma true_flags_create:
  "true_flags to_f64 V (Monotonicity_create mon pos const) f \<longleftrightarrow>
     (mon \<longrightarrow> (\<forall>\<rho> \<sigma>. in_range to_f64 V \<rho> \<longrightarrow> in_range to_f64 V \<sigma> \<longrightarrow> env_le \<rho> \<sigma> \<longrightarrow> follows pos (f \<rho>) (f \<sigma>)))
   \<and> (const \<longrightarrow> (\<forall>\<rho> \<sigma>. in_range to_f64 V \<rho> \<longrightarrow> in_range to_f64 V \<sigma> \<longrightarrow> f \<rho> = f \<sigma>))"
  by (simp add: true_flags_follows Monotonicity_create_def)

lemma true_flags_default [simp]: "true_flags to_f64 V Monotonicity_default f"
  by (simp add: true_flags_follows Monotonicity_default_def)

lemma true_flags_constant:
  "true_flags to_f64 V Monotonicity_create_constant f \<longleftrightarrow>
     (\<forall>\<rho> \<sigma>. in_range to_f64 V \<rho> \<longrightarrow> in_range to_f64 V \<sigma> \<longrightarrow> f \<rho> = f \<sigma>)"
proof -
  have "is_monotonic (Monotonicity_create_constant :: 'a Monotonicity)"
    "is_positive (Monotonicity_create_constant :: 'a Monotonicity)"
    "is_constant (Monotonicity_create_constant :: 'a Monotonicity)"
    by (simp_all add: Monotonicity_create_constant_def)
  then show ?thesis unfolding true_flags_def by (metis order_refl)
qed

lemma true_flags_clone [simp]: "true_flags to_f64 V (clone_without_range m) f = true_flags to_f64 V m f"
  by (simp add: true_flags_def clone_without_range_def)

lemma describes_follows:
  assumes "describes to_f64 V m f" "in_range to_f64 V \<rho>" "in_range to_f64 V \<sigma>"
  shows "is_monotonic m \<Longrightarrow> env_le \<rho> \<sigma> \<Longrightarrow> follows (is_positive m) (f \<rho>) (f \<sigma>)"
    "is_constant m \<Longrightarrow> f \<rho> = f \<sigma>"
  using assms unfolding describes_def true_flags_follows by blast+


section \<open>The contract of a function\<close>

text \<open>
  A function \<open>F\<close> on numbers, on the arguments that satisfy \<open>ok\<close>, and the rule that says what becomes
  of the monotonicity of its arguments.
\<close>

locale mono_contract =
  fixes to_f64 :: "'v to_f64" and V :: "'v variables" and rule :: "'v mono_rule"
    and F :: "real list \<Rightarrow> real" and ok :: "real list \<Rightarrow> bool"
  assumes rule_true: "ordered to_f64 V \<Longrightarrow> list_all2 (describes to_f64 V) ms fs \<Longrightarrow>
    (\<And>\<rho>. in_range to_f64 V \<rho> \<Longrightarrow> ok (map (\<lambda>f. f \<rho>) fs)) \<Longrightarrow> rule ms = Inr m \<Longrightarrow>
    true_flags to_f64 V m (\<lambda>\<rho>. F (map (\<lambda>f. f \<rho>) fs))"

lemma list_all2_two: "list_all2 P [a, b] fs \<Longrightarrow> \<exists>f g. fs = [f, g] \<and> P a f \<and> P b g"
  by (auto simp: list_all2_Cons1)

lemma true_flags_createI:
  assumes "\<And>\<rho> \<sigma>. mon \<Longrightarrow> in_range to_f64 V \<rho> \<Longrightarrow> in_range to_f64 V \<sigma> \<Longrightarrow> env_le \<rho> \<sigma> \<Longrightarrow> follows pos (f \<rho>) (f \<sigma>)"
    and "\<And>\<rho> \<sigma>. const \<Longrightarrow> in_range to_f64 V \<rho> \<Longrightarrow> in_range to_f64 V \<sigma> \<Longrightarrow> f \<rho> = f \<sigma>"
  shows "true_flags to_f64 V (Monotonicity_create mon pos const) f"
  unfolding true_flags_create using assms by blast

lemma describes_const:
  assumes "describes to_f64 V m f" "is_constant m" "in_range to_f64 V \<rho>" "in_range to_f64 V \<sigma>"
  shows "follows p (f \<rho>) (f \<sigma>)"
  using describes_follows(2)[OF assms(1,3,4,2)] by simp

lemma plus_rule:
  assumes d: "describes to_f64 V m f" "describes to_f64 V n g"
    and k: "ArithmeticPlusFunction_get_monotonicity [m, n] = Inr k"
  shows "true_flags to_f64 V k (\<lambda>\<rho>. f \<rho> + g \<rho>)"
proof -
  note fm = describes_follows(1)[OF d(1)] and gm = describes_follows(1)[OF d(2)]
  note fc = describes_const[OF d(1)] and gc = describes_const[OF d(2)]
  note fe = describes_follows(2)[OF d(1)] and ge = describes_follows(2)[OF d(2)]
  consider "k = Monotonicity_default" | "is_constant m" "k = Monotonicity_create (is_monotonic n) (is_positive n) (is_constant n)"
    | "is_constant n" "\<not> is_constant m" "k = Monotonicity_create (is_monotonic m) (is_positive m) (is_constant m)"
    | "is_monotonic m" "is_monotonic n" "is_positive m = is_positive n" "k = Monotonicity_create True (is_positive m) False"
    using k by (auto simp: ArithmeticPlusFunction_get_monotonicity_def split: if_splits)
  then show ?thesis
  proof cases
    case 2
    show ?thesis unfolding 2(2)
    proof (rule true_flags_createI)
      fix \<rho> \<sigma> assume r: "in_range to_f64 V \<rho>" "in_range to_f64 V \<sigma>"
      show "follows (is_positive n) (f \<rho> + g \<rho>) (f \<sigma> + g \<sigma>)" if "is_monotonic n" "env_le \<rho> \<sigma>"
        by (rule follows_add[OF fc[OF 2(1) r] gm[OF r that]])
      show "f \<rho> + g \<rho> = f \<sigma> + g \<sigma>" if "is_constant n" using fe[OF r 2(1)] ge[OF r that] by (rule arg_cong2)
    qed
  next
    case 3
    show ?thesis unfolding 3(3)
    proof (rule true_flags_createI)
      fix \<rho> \<sigma> assume r: "in_range to_f64 V \<rho>" "in_range to_f64 V \<sigma>"
      show "follows (is_positive m) (f \<rho> + g \<rho>) (f \<sigma> + g \<sigma>)" if "is_monotonic m" "env_le \<rho> \<sigma>"
        by (rule follows_add[OF fm[OF r that] gc[OF 3(1) r]])
      show "f \<rho> + g \<rho> = f \<sigma> + g \<sigma>" if "is_constant m" using 3(2) that by simp
    qed
  next
    case 4
    show ?thesis unfolding 4(4)
    proof (rule true_flags_createI)
      fix \<rho> \<sigma> assume r: "in_range to_f64 V \<rho>" "in_range to_f64 V \<sigma>" "env_le \<rho> \<sigma>"
      show "follows (is_positive m) (f \<rho> + g \<rho>) (f \<sigma> + g \<sigma>)"
        by (rule follows_add[OF fm[OF r(1,2) 4(1) r(3)] gm[OF r(1,2) 4(2) r(3), folded 4(3)]])
    qed simp
  qed simp
qed

lemma follows_diff: "follows p a b \<Longrightarrow> follows (\<not> p) c d \<Longrightarrow> follows p (a - c) (b - d)"
  by (simp add: follows_def split: if_splits)

lemma minus_rule:
  assumes d: "describes to_f64 V m f" "describes to_f64 V n g"
    and k: "ArithmeticMinusFunction_get_monotonicity [m, n] = Inr k"
  shows "true_flags to_f64 V k (\<lambda>\<rho>. f \<rho> - g \<rho>)"
proof -
  note fm = describes_follows(1)[OF d(1)] and gm = describes_follows(1)[OF d(2)]
  note fc = describes_const[OF d(1)] and gc = describes_const[OF d(2)]
  note fe = describes_follows(2)[OF d(1)] and ge = describes_follows(2)[OF d(2)]
  consider "k = Monotonicity_default"
    | "is_constant m" "k = Monotonicity_create (is_monotonic n \<or> is_constant n) (\<not> is_positive n) (is_constant n)"
    | "is_constant n" "\<not> is_constant m" "k = Monotonicity_create (is_monotonic m) (is_positive m) (is_constant m)"
    | "is_monotonic m" "is_monotonic n" "is_positive n = (\<not> is_positive m)" "k = Monotonicity_create True (is_positive m) False"
    using k by (auto simp: ArithmeticMinusFunction_get_monotonicity_def split: if_splits)
  then show ?thesis
  proof cases
    case 2
    show ?thesis unfolding 2(2)
    proof (rule true_flags_createI)
      fix \<rho> \<sigma> assume r: "in_range to_f64 V \<rho>" "in_range to_f64 V \<sigma>"
      show "follows (\<not> is_positive n) (f \<rho> - g \<rho>) (f \<sigma> - g \<sigma>)" if "is_monotonic n \<or> is_constant n" "env_le \<rho> \<sigma>"
        by (rule follows_diff[OF fc[OF 2(1) r]]) (use that gm[OF r] gc[OF _ r] in auto)
      show "f \<rho> - g \<rho> = f \<sigma> - g \<sigma>" if "is_constant n" using fe[OF r 2(1)] ge[OF r that] by (rule arg_cong2)
    qed
  next
    case 3
    show ?thesis unfolding 3(3)
    proof (rule true_flags_createI)
      fix \<rho> \<sigma> assume r: "in_range to_f64 V \<rho>" "in_range to_f64 V \<sigma>"
      show "follows (is_positive m) (f \<rho> - g \<rho>) (f \<sigma> - g \<sigma>)" if "is_monotonic m" "env_le \<rho> \<sigma>"
        by (rule follows_diff[OF fm[OF r that] gc[OF 3(1) r]])
      show "f \<rho> - g \<rho> = f \<sigma> - g \<sigma>" if "is_constant m" using 3(2) that by simp
    qed
  next
    case 4
    show ?thesis unfolding 4(4)
    proof (rule true_flags_createI)
      fix \<rho> \<sigma> assume r: "in_range to_f64 V \<rho>" "in_range to_f64 V \<sigma>" "env_le \<rho> \<sigma>"
      show "follows (is_positive m) (f \<rho> - g \<rho>) (f \<sigma> - g \<sigma>)"
        by (rule follows_diff[OF fm[OF r(1,2) 4(1) r(3)] gm[OF r(1,2) 4(2) r(3), unfolded 4(3)]])
    qed simp
  qed simp
qed

text \<open>
  The branches of the rule of products and quotients. A quotient is the product with the inverse of
  the divisor, which turns the direction of the divisor.
\<close>

definition second_direction :: "DataValueBinaryOperator \<Rightarrow> 'v Monotonicity \<Rightarrow> bool" where
  "second_direction op n = (if op = Div then \<not> is_positive n else is_positive n)"

lemma mul_div_branches:
  assumes op: "op = Mul \<or> op = Div" and k: "arithmetic_mul_div_monotonicity to_f64 op [m, n] = Inr k"
  obtains (default) "k = Monotonicity_default"
  | (const) "is_constant m" "is_constant n" "k = Monotonicity_create_constant"
  | (first_const) c d where "is_constant m" "compare_with_zero to_f64 m = Inr c" "c = 1 \<or> c = -1"
      "op = Mul \<or> compare_with_zero to_f64 n = Inr d \<and> d \<noteq> 0"
      "k = Monotonicity_create (is_monotonic n) (if c = 1 then second_direction op n else \<not> second_direction op n) False"
  | (second_const) c where "is_constant n" "compare_with_zero to_f64 n = Inr c" "c = 1 \<or> c = -1"
      "k = Monotonicity_create (is_monotonic m) (if c = 1 then is_positive m else \<not> is_positive m) False"
  | (both) c d mon pos where "is_monotonic m" "is_monotonic n"
      "compare_with_zero to_f64 m = Inr c" "compare_with_zero to_f64 n = Inr d" "c = 1 \<or> c = -1" "d = 1 \<or> d = -1"
      "k = Monotonicity_create mon pos False"
      "mon \<longrightarrow> pos = (if d = 1 then is_positive m else \<not> is_positive m)
         \<and> pos = (if c = 1 then second_direction op n else \<not> second_direction op n)"
proof (cases "is_constant m"; cases "is_constant n")
  assume "is_constant m" "is_constant n"
  then show thesis using k op by (intro const) (simp_all add: arithmetic_mul_div_monotonicity_def split: if_splits)
next
  assume "is_constant m" "\<not> is_constant n"
  then obtain c where c: "compare_with_zero to_f64 m = Inr c" "c = 1 \<or> c = -1"
    using k op by (auto simp: arithmetic_mul_div_monotonicity_def try_res_Inr_iff split: if_splits)
  let ?k = "Monotonicity_create (is_monotonic n) (if c = 1 then second_direction op n else \<not> second_direction op n) False"
  show thesis
  proof (cases "op = Mul")
    case True
    then have "k = ?k" using k c \<open>is_constant m\<close> \<open>\<not> is_constant n\<close>
      by (elim disjE) (simp_all add: arithmetic_mul_div_monotonicity_def second_direction_def)
    then show thesis using first_const[OF \<open>is_constant m\<close> c] True by blast
  next
    case False
    then obtain d where d: "compare_with_zero to_f64 n = Inr d"
      using k op c \<open>is_constant m\<close> \<open>\<not> is_constant n\<close>
      by (auto simp: arithmetic_mul_div_monotonicity_def try_res_Inr_iff split: if_splits)
    then have "k = (if d = 0 then Monotonicity_default else ?k)" using k c op False \<open>is_constant m\<close> \<open>\<not> is_constant n\<close>
      by (elim disjE; cases "d = 0") (simp_all add: arithmetic_mul_div_monotonicity_def second_direction_def)
    then show thesis using default first_const[OF \<open>is_constant m\<close> c, of d] d by (cases "d = 0") simp_all
  qed
next
  assume "\<not> is_constant m" "is_constant n"
  then obtain c where c: "compare_with_zero to_f64 n = Inr c" "c = 1 \<or> c = -1"
    using k op by (auto simp: arithmetic_mul_div_monotonicity_def try_res_Inr_iff split: if_splits)
  then have "k = Monotonicity_create (is_monotonic m) (if c = 1 then is_positive m else \<not> is_positive m) False"
    using k op \<open>\<not> is_constant m\<close> \<open>is_constant n\<close>
    by (elim disjE) (simp_all add: arithmetic_mul_div_monotonicity_def)
  then show thesis by (rule second_const[OF \<open>is_constant n\<close> c])
next
  assume n: "\<not> is_constant m" "\<not> is_constant n"
  show thesis
  proof (cases "is_monotonic m \<and> is_monotonic n")
    case False
    then show thesis using k op n by (intro default) (simp_all add: arithmetic_mul_div_monotonicity_def split: if_splits)
  next
    case True
    then obtain c d where cd: "compare_with_zero to_f64 m = Inr c" "compare_with_zero to_f64 n = Inr d"
      using k op n by (auto simp: arithmetic_mul_div_monotonicity_def try_res_Inr_iff split: if_splits)
    show thesis
    proof (cases "(c = 1 \<or> c = -1) \<and> (d = 1 \<or> d = -1)")
      case False
      then show thesis using k op n True cd
        by (intro default) (auto simp: arithmetic_mul_div_monotonicity_def split: if_splits)
    next
      case s: True
      let ?p = "if d = 1 then is_positive m else \<not> is_positive m"
      let ?q = "if c = 1 then second_direction op n else \<not> second_direction op n"
      have e: "k = Monotonicity_create (?p = ?q) (if ?p = ?q then ?p else c = -1) False"
        using s op k n True cd
        by (elim conjE disjE; cases "is_positive m"; cases "is_positive n")
          (simp_all add: arithmetic_mul_div_monotonicity_def second_direction_def)
      show thesis by (rule both[OF _ _ cd _ _ e]) (use s True in simp_all)
    qed
  qed
qed


lemma compare_sign:
  assumes "ordered to_f64 V" "describes to_f64 V m f" "compare_with_zero to_f64 m = Inr c" "in_range to_f64 V \<rho>"
    "c \<noteq> 0"
  shows "sign_of c (f \<rho>)"
  using compare_with_zero_true[OF assms(1-4)] assms(5) by (auto simp: sign_of_def)

text \<open>The second factor of a product, or the inverse of the divisor of a quotient.\<close>

definition second_factor :: "DataValueBinaryOperator \<Rightarrow> real \<Rightarrow> real" where
  "second_factor op x = (if op = Div then inverse x else x)"

lemma second_factor_sign:
  assumes "ordered to_f64 V" "describes to_f64 V n g" "compare_with_zero to_f64 n = Inr d" "in_range to_f64 V \<rho>"
    "d \<noteq> 0"
  shows "sign_of d (second_factor op (g \<rho>))"
  using compare_sign[OF assms] by (auto simp: second_factor_def sign_of_def split: if_splits)

lemma second_factor_follows:
  assumes o: "ordered to_f64 V" and g: "describes to_f64 V n g" "is_monotonic n"
    and r: "in_range to_f64 V \<rho>" "in_range to_f64 V \<sigma>" "env_le \<rho> \<sigma>"
    and z: "op = Div \<Longrightarrow> g \<rho> \<noteq> 0 \<and> g \<sigma> \<noteq> 0" and op: "op = Mul \<or> compare_with_zero to_f64 n = Inr d \<and> d \<noteq> 0"
  shows "follows (second_direction op n) (second_factor op (g \<rho>)) (second_factor op (g \<sigma>))"
proof (cases "op = Div")
  case True
  then have d: "compare_with_zero to_f64 n = Inr d" "d \<noteq> 0" using op by auto
  show ?thesis
    using follows_inverse(1)[OF compare_sign[OF o g(1) d(1) r(1) d(2)] compare_sign[OF o g(1) d(1) r(2) d(2)]]
      describes_follows(1)[OF g(1) r(1,2) g(2) r(3)] z[OF True] True
    by (simp add: second_direction_def second_factor_def)
next
  case False
  then show ?thesis using describes_follows(1)[OF g(1) r(1,2) g(2) r(3)]
    by (simp add: second_direction_def second_factor_def)
qed

lemma mul_div_rule:
  assumes o: "ordered to_f64 V" and d: "describes to_f64 V m f" "describes to_f64 V n g"
    and op: "op = Mul \<or> op = Div" and z: "\<And>\<rho>. op = Div \<Longrightarrow> in_range to_f64 V \<rho> \<Longrightarrow> g \<rho> \<noteq> 0"
    and k: "arithmetic_mul_div_monotonicity to_f64 op [m, n] = Inr k"
  shows "true_flags to_f64 V k (\<lambda>\<rho>. f \<rho> * second_factor op (g \<rho>))"
  using op k
proof (cases rule: mul_div_branches)
  case const
  then show ?thesis
    using describes_follows(2)[OF d(1)] describes_follows(2)[OF d(2)] unfolding const(3) true_flags_constant
    by metis
next
  case (first_const c e)
  have "c \<noteq> 0" using first_const(3) by auto
  show ?thesis unfolding first_const(5)
  proof (rule true_flags_createI)
    fix \<rho> \<sigma> assume "is_monotonic n" and r: "in_range to_f64 V \<rho>" "in_range to_f64 V \<sigma>" "env_le \<rho> \<sigma>"
    have q: "follows (second_direction op n) (second_factor op (g \<rho>)) (second_factor op (g \<sigma>))"
      using z r by (intro second_factor_follows[OF o d(2) \<open>is_monotonic n\<close> r _ first_const(4)]) simp
    show "follows (if c = 1 then second_direction op n else \<not> second_direction op n)
        (f \<rho> * second_factor op (g \<rho>)) (f \<sigma> * second_factor op (g \<sigma>))"
      using follows_scale[OF compare_sign[OF o d(1) first_const(2) r(1) \<open>c \<noteq> 0\<close>] q]
      unfolding describes_follows(2)[OF d(1) r(1,2) first_const(1)] .
  qed simp
next
  case (second_const c)
  have "c \<noteq> 0" using second_const(3) by auto
  show ?thesis unfolding second_const(4)
  proof (rule true_flags_createI)
    fix \<rho> \<sigma> assume "is_monotonic m" and r: "in_range to_f64 V \<rho>" "in_range to_f64 V \<sigma>" "env_le \<rho> \<sigma>"
    show "follows (if c = 1 then is_positive m else \<not> is_positive m)
        (f \<rho> * second_factor op (g \<rho>)) (f \<sigma> * second_factor op (g \<sigma>))"
      using follows_scale[OF second_factor_sign[OF o d(2) second_const(2) r(1) \<open>c \<noteq> 0\<close>]
          describes_follows(1)[OF d(1) r(1,2) \<open>is_monotonic m\<close> r(3)], of op]
      unfolding describes_follows(2)[OF d(2) r(1,2) second_const(1)] by (simp only: mult.commute)
  qed simp
next
  case (both c e mon pos)
  have ne: "c \<noteq> 0" "e \<noteq> 0" using both(5,6) by auto
  show ?thesis unfolding both(7)
  proof (rule true_flags_createI)
    fix \<rho> \<sigma> assume mon and r: "in_range to_f64 V \<rho>" "in_range to_f64 V \<sigma>" "env_le \<rho> \<sigma>"
    have q: "follows (second_direction op n) (second_factor op (g \<rho>)) (second_factor op (g \<sigma>))"
      using z r both(4) ne op by (intro second_factor_follows[OF o d(2) both(2) r, where d = e]) auto
    have pos: "pos = (if e = 1 then is_positive m else \<not> is_positive m)"
      "pos = (if c = 1 then second_direction op n else \<not> second_direction op n)"
      using both(8) \<open>mon\<close> by blast+
    show "follows pos (f \<rho> * second_factor op (g \<rho>)) (f \<sigma> * second_factor op (g \<sigma>))"
      using follows_mult[OF compare_sign[OF o d(1) both(3) r(1) ne(1)] compare_sign[OF o d(1) both(3) r(2) ne(1)]
          second_factor_sign[OF o d(2) both(4) r(1) ne(2)] second_factor_sign[OF o d(2) both(4) r(2) ne(2)]
          describes_follows(1)[OF d(1) r(1,2) both(1) r(3)] q trans[OF pos(1)[symmetric] pos(2)]]
      by (simp only: pos(1)[symmetric])
  qed simp
qed simp


lemma negate_rule:
  assumes d: "describes to_f64 V m f" and k: "ArithmeticNegateFunction_get_monotonicity [m] = Inr k"
  shows "true_flags to_f64 V k (\<lambda>\<rho>. - f \<rho>)"
proof -
  have k: "k = Monotonicity_create (is_monotonic m \<or> is_constant m) (\<not> is_positive m) (is_constant m)"
    using k by (simp add: ArithmeticNegateFunction_get_monotonicity_def)
  show ?thesis unfolding k
  proof (rule true_flags_createI)
    fix \<rho> \<sigma> assume r: "in_range to_f64 V \<rho>" "in_range to_f64 V \<sigma>"
    show "follows (\<not> is_positive m) (- f \<rho>) (- f \<sigma>)" if "is_monotonic m \<or> is_constant m" "env_le \<rho> \<sigma>"
      by (rule follows_minus) (use that describes_follows(1)[OF d r] describes_const[OF d _ r] in blast)
    show "- f \<rho> = - f \<sigma>" if "is_constant m" using describes_follows(2)[OF d r that] by (rule arg_cong)
  qed
qed

text \<open>Rules that keep the flags, of functions that keep the order.\<close>

lemma kept_flags:
  assumes "describes to_f64 V m f" "mono h"
  shows "true_flags to_f64 V m (\<lambda>\<rho>. h (f \<rho>))"
  unfolding true_flags_follows
  by (intro conjI impI allI follows_mono[OF assms(2)] arg_cong[of _ _ h])
    (use describes_follows[OF assms(1)] in blast)+

lemma abs_rule:
  assumes o: "ordered to_f64 V" and d: "describes to_f64 V m f" and k: "AbsFunction_get_monotonicity to_f64 [m] = Inr k"
  shows "true_flags to_f64 V k (\<lambda>\<rho>. \<bar>f \<rho>\<bar>)"
proof (cases "is_constant m")
  case True
  then have "k = m" using k by (simp add: AbsFunction_get_monotonicity_def)
  have "\<bar>f \<rho>\<bar> = \<bar>f \<sigma>\<bar>" if "in_range to_f64 V \<rho>" "in_range to_f64 V \<sigma>" for \<rho> \<sigma>
    using describes_follows(2)[OF d that True] by (rule arg_cong)
  then show ?thesis unfolding \<open>k = m\<close> true_flags_follows by (metis follows_refl)
next
  case False
  consider "k = Monotonicity_default"
    | c where "compare_with_zero to_f64 m = Inr c" "c = 1 \<or> c = -1"
        "k = Monotonicity_create True (if c = 1 then is_positive m else \<not> is_positive m) False"
    using k False by (auto simp: AbsFunction_get_monotonicity_def try_res_Inr_iff split: if_splits)
  then show ?thesis
  proof cases
    case (2 c)
    then have "is_monotonic m" "c \<noteq> 0" by (auto simp: compare_with_zero_def split: if_splits)
    show ?thesis unfolding 2(3)
    proof (rule true_flags_createI)
      fix \<rho> \<sigma> assume r: "in_range to_f64 V \<rho>" "in_range to_f64 V \<sigma>" "env_le \<rho> \<sigma>"
      show "follows (if c = 1 then is_positive m else \<not> is_positive m) \<bar>f \<rho>\<bar> \<bar>f \<sigma>\<bar>"
        using describes_follows(1)[OF d r(1,2) \<open>is_monotonic m\<close> r(3)] 2(2)
          compare_sign[OF o d 2(1) r(1) \<open>c \<noteq> 0\<close>] compare_sign[OF o d 2(1) r(2) \<open>c \<noteq> 0\<close>]
        by (auto simp: sign_of_def follows_def split: if_splits)
    qed simp
  qed simp
qed

lemma sign_rule:
  assumes d: "describes to_f64 V m f" and k: "SignFunction_get_monotonicity [m] = Inr k"
  shows "true_flags to_f64 V k (\<lambda>\<rho>. sgn (f \<rho>))"
proof (cases "is_constant m")
  case True
  then have "k = Monotonicity_create_constant" using k by (simp add: SignFunction_get_monotonicity_def)
  then show ?thesis
    by (simp only: true_flags_constant) (intro allI impI arg_cong[of _ _ sgn] describes_follows(2)[OF d _ _ True])
next
  case False
  have "mono (sgn :: real \<Rightarrow> real)" by (auto simp: mono_def sgn_real_def)
  moreover have "k = clone_without_range m \<or> k = Monotonicity_default"
    using k False by (auto simp: SignFunction_get_monotonicity_def split: if_splits)
  ultimately show ?thesis using kept_flags[OF d] by fastforce
qed


section \<open>The functions\<close>

text \<open>
  The rules by the names the functions are registered with, in lower case. A function that has no rule
  of its own has the one of the trait; the functions on dates, which have, are left out.
\<close>

definition arithmetic_rule :: "'v to_f64 \<Rightarrow> string \<Rightarrow> 'v mono_rule option" where
  "arithmetic_rule to_f64 op =
     (if op = ''negate'' then Some UnaryArithmeticFunction_get_monotonicity
      else if op \<in> {''+'', ''plus''} then Some (BinaryArithmeticFunction_get_monotonicity to_f64 Plus)
      else if op \<in> {''-'', ''minus''} then Some (BinaryArithmeticFunction_get_monotonicity to_f64 Minus)
      else if op \<in> {''*'', ''multiply''} then Some (BinaryArithmeticFunction_get_monotonicity to_f64 Mul)
      else if op \<in> {''/'', ''divide''} then Some (BinaryArithmeticFunction_get_monotonicity to_f64 Div)
      else if op = ''div'' then Some (BinaryArithmeticFunction_get_monotonicity to_f64 IntDiv)
      else if op \<in> {''%'', ''modulo'', ''mod''} then Some (BinaryArithmeticFunction_get_monotonicity to_f64 Modulo)
      else None)"

definition maths_rule :: "'v to_f64 \<Rightarrow> string \<Rightarrow> 'v mono_rule option" where
  "maths_rule to_f64 op =
     (if op = ''abs'' then Some (AbsFunction_get_monotonicity to_f64)
      else if op = ''sign'' then Some SignFunction_get_monotonicity
      else if op \<in> {''ceil'', ''ceiling''} then Some CeilFunction_get_monotonicity
      else if op = ''floor'' then Some FloorFunction_get_monotonicity
      else None)"

definition Function_get_monotonicity :: "'v mono_rule" where
  "Function_get_monotonicity args = Inr Monotonicity_default"

definition function_rule :: "'v to_f64 \<Rightarrow> string \<Rightarrow> 'v mono_rule" where
  "function_rule to_f64 op =
     (case arithmetic_rule to_f64 op of
        Some rule \<Rightarrow> rule
      | None \<Rightarrow> (case maths_rule to_f64 op of Some rule \<Rightarrow> rule | None \<Rightarrow> Function_get_monotonicity))"

lemmas function_rule_defs = function_rule_def arithmetic_rule_def maths_rule_def

text \<open>What the functions compute; \<open>G\<close> is what the others compute.\<close>

type_synonym fn_values = "string \<Rightarrow> real list \<Rightarrow> real"

definition function_value :: "fn_values \<Rightarrow> fn_values" where
  "function_value G op args =
     (case args of
        [a, b] \<Rightarrow>
          if op \<in> {''+'', ''plus''} then a + b
          else if op \<in> {''-'', ''minus''} then a - b
          else if op \<in> {''*'', ''multiply''} then a * b
          else if op \<in> {''/'', ''divide''} then a / b
          else G op args
      | [a] \<Rightarrow>
          if op = ''negate'' then - a
          else if op = ''abs'' then \<bar>a\<bar>
          else if op \<in> {''ceil'', ''ceiling''} then of_int (ceiling a)
          else if op = ''floor'' then of_int (floor a)
          else if op = ''sign'' then sgn a
          else G op args
      | _ \<Rightarrow> G op args)"

text \<open>The domain: nothing is divided by zero, and the factory checks the number of arguments of the others.\<close>

definition function_ok :: "string \<Rightarrow> real list \<Rightarrow> bool" where
  "function_ok op args =
     (if op \<in> {''/'', ''divide''} then length args = 2 \<longrightarrow> args ! 1 \<noteq> 0
      else op \<in> {''abs'', ''ceil'', ''ceiling'', ''floor'', ''sign''} \<longrightarrow> length args = 1)"


lemma list_all2_length_cases:
  assumes "list_all2 P ms fs" "length ms = 2"
  obtains m n f g where "ms = [m, n]" "fs = [f, g]" "P m f" "P n g"
  using assms by (auto simp: length_Suc_conv numeral_2_eq_2 list_all2_Cons1)

lemma list_all2_single:
  assumes "list_all2 P ms fs" "length ms = 1"
  obtains m f where "ms = [m]" "fs = [f]" "P m f"
  using assms by (auto simp: length_Suc_conv list_all2_Cons1)

lemma binary_rule:
  assumes o: "ordered to_f64 V" and d: "list_all2 (describes to_f64 V) ms fs"
    and z: "\<And>\<rho>. in_range to_f64 V \<rho> \<Longrightarrow> op = Div \<Longrightarrow> (fs ! 1) \<rho> \<noteq> 0"
    and k: "BinaryArithmeticFunction_get_monotonicity to_f64 op ms = Inr k" and op: "op \<in> {Plus, Minus, Mul, Div}"
  shows "length ms = 2"
    "op = Plus \<Longrightarrow> true_flags to_f64 V k (\<lambda>\<rho>. (fs ! 0) \<rho> + (fs ! 1) \<rho>)"
    "op = Minus \<Longrightarrow> true_flags to_f64 V k (\<lambda>\<rho>. (fs ! 0) \<rho> - (fs ! 1) \<rho>)"
    "op = Mul \<Longrightarrow> true_flags to_f64 V k (\<lambda>\<rho>. (fs ! 0) \<rho> * (fs ! 1) \<rho>)"
    "op = Div \<Longrightarrow> true_flags to_f64 V k (\<lambda>\<rho>. (fs ! 0) \<rho> / (fs ! 1) \<rho>)"
proof -
  show l: "length ms = 2" using k by (simp add: BinaryArithmeticFunction_get_monotonicity_def split: if_splits)
  obtain m n f g where e: "ms = [m, n]" "fs = [f, g]" and d: "describes to_f64 V m f" "describes to_f64 V n g"
    using list_all2_length_cases[OF d l] .
  note defs = BinaryArithmeticFunction_get_monotonicity_def ArithmeticMulFunction_get_monotonicity_def
    ArithmeticDivFunction_get_monotonicity_def
  show "true_flags to_f64 V k (\<lambda>\<rho>. (fs ! 0) \<rho> + (fs ! 1) \<rho>)" if "op = Plus"
    using plus_rule[OF d] k that e by (simp add: defs)
  show "true_flags to_f64 V k (\<lambda>\<rho>. (fs ! 0) \<rho> - (fs ! 1) \<rho>)" if "op = Minus"
    using minus_rule[OF d] k that e by (simp add: defs)
  show "true_flags to_f64 V k (\<lambda>\<rho>. (fs ! 0) \<rho> * (fs ! 1) \<rho>)" if "op = Mul"
    using mul_div_rule[OF o d, of Mul] k that e by (simp add: defs second_factor_def)
  show "true_flags to_f64 V k (\<lambda>\<rho>. (fs ! 0) \<rho> / (fs ! 1) \<rho>)" if "op = Div"
    using mul_div_rule[OF o d, of Div] z k that e by (simp add: defs second_factor_def divide_inverse)
qed

lemma binary_function_true:
  assumes o: "ordered to_f64 V" and d: "list_all2 (describes to_f64 V) ms fs"
    and ok: "\<And>\<rho>. in_range to_f64 V \<rho> \<Longrightarrow> function_ok op (map (\<lambda>f. f \<rho>) fs)"
    and k: "function_rule to_f64 op ms = Inr m"
    and op: "op \<in> {''+'', ''plus'', ''-'', ''minus'', ''*'', ''multiply'', ''/'', ''divide''}"
  shows "true_flags to_f64 V m (\<lambda>\<rho>. function_value G op (map (\<lambda>f. f \<rho>) fs))"
proof -
  define bop where "bop = (if op \<in> {''+'', ''plus''} then Plus else if op \<in> {''-'', ''minus''} then Minus
    else if op \<in> {''*'', ''multiply''} then Mul else Div)"
  have k: "BinaryArithmeticFunction_get_monotonicity to_f64 bop ms = Inr m"
    using op k by (elim insertE emptyE) (simp_all add: function_rule_defs bop_def)
  then have l: "length ms = 2"
    by (simp add: BinaryArithmeticFunction_get_monotonicity_def split: if_splits)
  obtain f g where e: "fs = [f, g]" using list_all2_length_cases[OF d l] by metis
  have "bop = Div \<Longrightarrow> op \<in> {''/'', ''divide''}"
    using op by (elim insertE emptyE) (simp_all add: bop_def)
  then have z: "(fs ! 1) \<rho> \<noteq> 0" if "in_range to_f64 V \<rho>" "bop = Div" for \<rho>
    using ok[OF that(1)] that(2) e by (simp add: function_ok_def)
  have "bop \<in> {Plus, Minus, Mul, Div}" by (simp add: bop_def)
  note rules = binary_rule(2-5)[OF o d z k this]
  consider "op \<in> {''+'', ''plus''}" | "op \<in> {''-'', ''minus''}" | "op \<in> {''*'', ''multiply''}" | "op \<in> {''/'', ''divide''}"
    using op by (elim insertE emptyE) simp_all
  then show ?thesis
  proof cases
    case 1
    then show ?thesis using rules(1) unfolding e by (elim insertE emptyE) (simp_all add: bop_def function_value_def)
  next
    case 2
    then show ?thesis using rules(2) unfolding e by (elim insertE emptyE) (simp_all add: bop_def function_value_def)
  next
    case 3
    then show ?thesis using rules(3) unfolding e by (elim insertE emptyE) (simp_all add: bop_def function_value_def)
  next
    case 4
    then show ?thesis using rules(4) unfolding e by (elim insertE emptyE) (simp_all add: bop_def function_value_def)
  qed
qed

lemma unary_function_true:
  assumes o: "ordered to_f64 V" and d: "list_all2 (describes to_f64 V) ms fs"
    and r: "in_range to_f64 V \<rho>\<^sub>0" and ok: "\<And>\<rho>. in_range to_f64 V \<rho> \<Longrightarrow> function_ok op (map (\<lambda>f. f \<rho>) fs)"
    and k: "function_rule to_f64 op ms = Inr k"
    and op: "op \<in> {''negate'', ''abs'', ''ceil'', ''ceiling'', ''floor'', ''sign''}"
  shows "true_flags to_f64 V k (\<lambda>\<rho>. function_value G op (map (\<lambda>f. f \<rho>) fs))"
proof -
  have "length fs = 1 \<or> op = ''negate''" using ok[OF r] op by (auto simp: function_ok_def)
  moreover have "length ms = 1" if "op = ''negate''"
    using k that by (simp add: function_rule_defs UnaryArithmeticFunction_get_monotonicity_def split: if_splits)
  ultimately have "length ms = 1" using list_all2_lengthD[OF d] by auto
  then obtain m f where e: "ms = [m]" "fs = [f]" and d: "describes to_f64 V m f" using list_all2_single[OF d] by metis
  have "mono (\<lambda>x :: real. of_int \<lfloor>x\<rfloor> :: real)" "mono (\<lambda>x :: real. of_int \<lceil>x\<rceil> :: real)"
    by (simp_all add: mono_def floor_mono ceiling_mono)
  then show ?thesis
    using op k negate_rule[OF d] abs_rule[OF o d] sign_rule[OF d] kept_flags[OF d] unfolding e
    by (auto simp: function_rule_defs function_value_def UnaryArithmeticFunction_get_monotonicity_def
        CeilFunction_get_monotonicity_def FloorFunction_get_monotonicity_def)
qed


lemma function_true:
  assumes o: "ordered to_f64 V" and d: "list_all2 (describes to_f64 V) ms fs"
    and ok: "\<And>\<rho>. in_range to_f64 V \<rho> \<Longrightarrow> function_ok op (map (\<lambda>f. f \<rho>) fs)"
    and k: "function_rule to_f64 op ms = Inr m"
  shows "true_flags to_f64 V m (\<lambda>\<rho>. function_value G op (map (\<lambda>f. f \<rho>) fs))"
proof (cases "\<exists>\<rho>. in_range to_f64 V \<rho>")
  case True
  then obtain \<rho> where r: "in_range to_f64 V \<rho>" by blast
  let ?A = "{''+'', ''plus'', ''-'', ''minus'', ''*'', ''multiply'', ''/'', ''divide''}"
  let ?B = "{''negate'', ''abs'', ''ceil'', ''ceiling'', ''floor'', ''sign''}"
  have "m = Monotonicity_default" if "op \<notin> ?A" "op \<notin> ?B" using k that
    by (simp add: function_rule_defs Function_get_monotonicity_def BinaryArithmeticFunction_get_monotonicity_def
        split: if_splits)
  then show ?thesis
    using binary_function_true[OF o d ok k] unary_function_true[OF o d r ok k] true_flags_default
    by (cases "op \<in> ?A"; cases "op \<in> ?B") (simp_all only: simp_thms)
next
  case False
  then show ?thesis by (simp add: true_flags_def)
qed

text \<open>The laws for the rules of the source.\<close>

interpretation fn: mono_contract to_f64 V "function_rule to_f64 op" "function_value G op" "function_ok op"
  for to_f64 :: "'v to_f64" and V op G
  by unfold_locales (rule function_true)

text \<open>The bounds of a function are its values at the bounds of its arguments.\<close>

definition bound_of :: "'v to_f64 \<Rightarrow> (real list \<Rightarrow> real) \<Rightarrow> 'v ColumnWithField option list \<Rightarrow> 'v ColumnWithField option \<Rightarrow> bool" where
  "bound_of to_f64 F args b = (\<forall>v. b = Some v \<longrightarrow> (\<exists>vs. args = map Some vs \<and> num to_f64 v = F (map (num to_f64) vs)))"

lemma list_all2_set2: "list_all2 P xs ys \<Longrightarrow> y \<in> set ys \<Longrightarrow> \<exists>x. P x y"
  by (induction rule: list_all2_induct) auto

lemma described_at_bounds:
  assumes "list_all2 (describes to_f64 V) ms fs" "in_range to_f64 V \<rho>"
  shows "map mono_left ms = map Some vs \<Longrightarrow> map (\<lambda>f. f (lower to_f64 V \<rho>)) fs = map (num to_f64) vs"
    "map mono_right ms = map Some vs \<Longrightarrow> map (\<lambda>f. f (upper to_f64 V \<rho>)) fs = map (num to_f64) vs"
  using assms
  by (induction arbitrary: vs rule: list_all2_induct) (auto simp: describes_def true_bounds_def Cons_eq_map_conv)

lemma true_flags_update: "true_flags to_f64 V (m\<lparr>mono_left := l, mono_right := r\<rparr>) f = true_flags to_f64 V m f"
  by (simp add: true_flags_def)

lemma describes_bounds:
  assumes d: "list_all2 (describes to_f64 V) ms fs" and m: "true_flags to_f64 V m (\<lambda>\<rho>. F (map (\<lambda>f. f \<rho>) fs))"
    and l: "bound_of to_f64 F (map mono_left ms) l" and r: "bound_of to_f64 F (map mono_right ms) r"
  shows "describes to_f64 V (m\<lparr>mono_left := l, mono_right := r\<rparr>) (\<lambda>\<rho>. F (map (\<lambda>f. f \<rho>) fs))"
  unfolding describes_def
proof (intro conjI)
  show "true_flags to_f64 V (m\<lparr>mono_left := l, mono_right := r\<rparr>) (\<lambda>\<rho>. F (map (\<lambda>f. f \<rho>) fs))"
    using m by (simp only: true_flags_update)
  show "true_bounds to_f64 V (m\<lparr>mono_left := l, mono_right := r\<rparr>) (\<lambda>\<rho>. F (map (\<lambda>f. f \<rho>) fs))"
    unfolding true_bounds_def
  proof (intro allI impI conjI)
    fix \<rho> v assume \<rho>: "in_range to_f64 V \<rho>"
    show "F (map (\<lambda>f. f (lower to_f64 V \<rho>)) fs) = num to_f64 v"
      if "mono_left (m\<lparr>mono_left := l, mono_right := r\<rparr>) = Some v"
      using l that described_at_bounds(1)[OF d \<rho>] unfolding bound_of_def by auto
    show "F (map (\<lambda>f. f (upper to_f64 V \<rho>)) fs) = num to_f64 v"
      if "mono_right (m\<lparr>mono_left := l, mono_right := r\<rparr>) = Some v"
      using r that described_at_bounds(2)[OF d \<rho>] unfolding bound_of_def by auto
  qed
  have "f \<rho> = f \<sigma>" if "f \<in> set fs" "\<forall>c \<in> dom V. \<rho> c = \<sigma> c" for f \<rho> \<sigma>
    using list_all2_set2[OF d] that unfolding describes_def local_def by blast
  then show "local V (\<lambda>\<rho>. F (map (\<lambda>f. f \<rho>) fs))"
    unfolding local_def by (intro allI impI arg_cong[of _ _ F] map_cong refl)
qed

context mono_contract
begin

lemma result_describes:
  assumes "ordered to_f64 V" "list_all2 (describes to_f64 V) ms fs"
    "\<And>\<rho>. in_range to_f64 V \<rho> \<Longrightarrow> ok (map (\<lambda>f. f \<rho>) fs)" "rule ms = Inr m"
    "bound_of to_f64 F (map mono_left ms) l" "bound_of to_f64 F (map mono_right ms) r"
  shows "describes to_f64 V (m\<lparr>mono_left := l, mono_right := r\<rparr>) (\<lambda>\<rho>. F (map (\<lambda>f. f \<rho>) fs))"
  using describes_bounds[OF assms(2) rule_true[OF assms(1-4)] assms(5,6)] .

end

end
