(* ===== verification/Monotonicity_Laws.thy ===== *)
theory Monotonicity_Laws
  imports Monotonicity_Rules
begin

text \<open>
  What the visitor says of an expression is true of its values: on the ranges of its columns the
  expression is monotonic, or constant, as said, and its values lie between the bounds. The walk over
  the expression keeps one result per visited child on the stack, each true of its child.
\<close>

section \<open>Expressions\<close>

lemma member_size: "c \<in> set es \<Longrightarrow> size c \<le> size_list size es"
  by (induction es) auto

lemma pushed_child_size: "c \<in> set (pushed_children e) \<Longrightarrow> size c < size e"
  by (cases e) (auto dest: member_size)

fun node_op :: "('d, 'p) Expression \<Rightarrow> string option" where
  "node_op (BinaryExpression _ op _) = Some op"
| "node_op (UnaryExpression op _) = Some op"
| "node_op (ScalarFunction op _) = Some op"
| "node_op _ = None"

function subexprs :: "('d, 'p) Expression \<Rightarrow> ('d, 'p) Expression list" where
  "subexprs e = e # concat (map subexprs (pushed_children e))"
  by pat_completeness auto
termination
  by (relation "measure size") (auto dest: pushed_child_size)

declare subexprs.simps [simp del]

text \<open>The value of an expression on one row, for the numbers of its columns; \<open>L\<close> gives those of literals.\<close>

function eval_expr :: "fn_values \<Rightarrow> (DataTypeImpl \<Rightarrow> 'd \<Rightarrow> real) \<Rightarrow> ('d, 'p) Expression \<Rightarrow> env \<Rightarrow> real" where
  "eval_expr G L e \<rho> =
     (case node_op e of
        Some op \<Rightarrow> function_value G op (map (\<lambda>c. eval_expr G L c \<rho>) (pushed_children e))
      | None \<Rightarrow> (case e of Column s \<Rightarrow> \<rho> s | Literal v _ t \<Rightarrow> L t v | _ \<Rightarrow> 0))"
  by pat_completeness auto
termination
  by (relation "measure (\<lambda>(_, _, e, _). size e)") (auto dest: pushed_child_size)

declare eval_expr.simps [simp del]

lemma eval_expr_leaf [simp]: "eval_expr G L (Column s) = (\<lambda>\<rho>. \<rho> s)" "eval_expr G L (Literal v n t) = (\<lambda>\<rho>. L t v)"
  by (simp_all add: fun_eq_iff eval_expr.simps[of G L])

lemma eval_expr_node:
  "node_op e = Some op \<Longrightarrow> eval_expr G L e \<rho> = function_value G op (map (\<lambda>c. eval_expr G L c \<rho>) (pushed_children e))"
  by (subst eval_expr.simps) (cases e; simp)

text \<open>
  What is relied on of the functions: the factory gives the functions with the rules above, which
  compute exactly on the numbers their columns stand for, and literals become columns of their number.
\<close>

definition exact_function :: "'v to_f64 \<Rightarrow> fn_values \<Rightarrow> 'v FunctionFactory \<Rightarrow> string \<Rightarrow> bool" where
  "exact_function to_f64 G instance op =
     (\<forall>types func. ff_get instance op types = Inr func \<longrightarrow>
        sf_get_monotonicity func = function_rule to_f64 op
      \<and> (\<forall>args col. sf_eval func args = Inr col \<longrightarrow>
           num to_f64 \<lparr>cf_column = col, cf_type = sf_return_type func\<rparr> = function_value G op (map (num to_f64) args)))"

definition exact_literals :: "'v to_f64 \<Rightarrow> (DataTypeImpl \<Rightarrow> 'd \<Rightarrow> real) \<Rightarrow> (DataTypeImpl \<Rightarrow> 'd \<Rightarrow> query_error + 'v) \<Rightarrow> bool" where
  "exact_literals to_f64 L create_constant_column =
     (\<forall>t d col. create_constant_column t d = Inr col \<longrightarrow> num to_f64 \<lparr>cf_column = col, cf_type = t\<rparr> = L t d)"

text \<open>An expression of such functions, inside their domains on the whole range.\<close>

definition sound_expr ::
  "'v to_f64 \<Rightarrow> 'v variables \<Rightarrow> fn_values \<Rightarrow> (DataTypeImpl \<Rightarrow> 'd \<Rightarrow> real) \<Rightarrow> 'v FunctionFactory \<Rightarrow> ('d, 'p) Expression \<Rightarrow> bool" where
  "sound_expr to_f64 V G L instance e =
     (\<forall>s \<in> set (subexprs e). \<forall>op. node_op s = Some op \<longrightarrow>
        exact_function to_f64 G instance op
      \<and> (\<forall>\<rho>. in_range to_f64 V \<rho> \<longrightarrow> function_ok op (map (\<lambda>c. eval_expr G L c \<rho>) (pushed_children s))))"

lemma sound_children:
  "sound_expr to_f64 V G L instance e \<Longrightarrow> c \<in> set (pushed_children e) \<Longrightarrow> sound_expr to_f64 V G L instance c"
  unfolding sound_expr_def by (subst (asm) subexprs.simps) auto

lemma sound_node:
  assumes "sound_expr to_f64 V G L instance e" "node_op e = Some op"
  shows "exact_function to_f64 G instance op"
    "in_range to_f64 V \<rho> \<Longrightarrow> function_ok op (map (\<lambda>c. eval_expr G L c \<rho>) (pushed_children e))"
proof -
  have "e \<in> set (subexprs e)" by (subst subexprs.simps) simp
  then show "exact_function to_f64 G instance op"
    "in_range to_f64 V \<rho> \<Longrightarrow> function_ok op (map (\<lambda>c. eval_expr G L c \<rho>) (pushed_children e))"
    using assms unfolding sound_expr_def by blast+
qed

text \<open>The precondition of a single point: both ends of every range are there and equal.\<close>

definition pinned :: "'v to_f64 \<Rightarrow> 'v variables \<Rightarrow> bool" where
  "pinned to_f64 V = (\<forall>c l r. V c = Some (l, r) \<longrightarrow> (\<exists>v w. l = Some v \<and> r = Some w \<and> num to_f64 v = num to_f64 w))"

lemma pinned_constant:
  assumes "pinned to_f64 V" "local V f"
  shows "true_flags to_f64 V Monotonicity_create_constant f"
  unfolding true_flags_constant
proof (intro allI impI)
  fix \<rho> \<sigma> assume r: "in_range to_f64 V \<rho>" "in_range to_f64 V \<sigma>"
  have "\<rho> c = \<sigma> c" if c: "c \<in> dom V" for c
  proof -
    obtain v w where "V c = Some (Some v, Some w)" "num to_f64 v = num to_f64 w"
      using c assms(1) unfolding pinned_def by fastforce
    then show ?thesis using r unfolding in_range_def by force
  qed
  then show "f \<rho> = f \<sigma>" using assms(2) unfolding local_def by blast
qed



section \<open>The visitor\<close>

lemma pop_args_append: "pop_args (length xs) (xs @ stack) = Inr (xs, stack)"
  by (induction xs) simp_all

lemma boundary_bound:
  assumes "try_calculate_boundary func (sf_return_type func) args = Inr b"
    and "\<And>vs col. sf_eval func vs = Inr col \<Longrightarrow>
      num to_f64 \<lparr>cf_column = col, cf_type = sf_return_type func\<rparr> = F (map (num to_f64) vs)"
  shows "bound_of to_f64 F args b"
proof (cases "list_ex Option.is_none args")
  case True
  then show ?thesis using assms(1) by (simp add: try_calculate_boundary_def bound_of_def)
next
  case False
  then have "args = map Some (map the args)"
    by (induction args) (auto simp: Option.is_none_def)
  moreover obtain col where "sf_eval func (map the args) = Inr col" "b = Some \<lparr>cf_column = col, cf_type = sf_return_type func\<rparr>"
    using assms(1) False by (auto simp: try_calculate_boundary_def try_res_Inr_iff)
  ultimately show ?thesis using assms(2)[of "map the args" col] unfolding bound_of_def by (metis option.inject)
qed

lemma if_Inl_iff: "(if b then Inl e else r) = Inr x \<longleftrightarrow> \<not> b \<and> r = Inr x"
  by simp

text \<open>What the visitor adds to its stack, and the functions it describes, the top first.\<close>

definition pushes ::
  "'v to_f64 \<Rightarrow> 'v variables \<Rightarrow> 'v ExpressionMonotonicityVisitor \<Rightarrow> (env \<Rightarrow> real) list \<Rightarrow> 'v ExpressionMonotonicityVisitor \<Rightarrow> bool" where
  "pushes to_f64 V s fs t =
     (\<exists>rs. t = s\<lparr>mv_stack := rs @ mv_stack s\<rparr> \<and> list_all2 (describes to_f64 V) (map snd rs) fs)"

lemma visit_function_parts:
  assumes "visit_function instance t op (length rs) = Inr u" "mv_stack t = rs @ stack"
  obtains func m l r where "ff_get instance op (map fst rs) = Inr func"
    "mv_single_point t \<Longrightarrow> m = Monotonicity_create_constant"
    "\<not> mv_single_point t \<Longrightarrow> sf_get_monotonicity func (map snd rs) = Inr m"
    "try_calculate_boundary func (sf_return_type func) (map mono_left (map snd rs)) = Inr l"
    "try_calculate_boundary func (sf_return_type func) (map mono_right (map snd rs)) = Inr r"
    "u = t\<lparr>mv_stack := (sf_return_type func, m\<lparr>mono_left := l, mono_right := r\<rparr>) # stack\<rparr>"
proof -
  let ?rule = "\<lambda>func. if \<not> mv_single_point t then sf_get_monotonicity func (map snd rs)
    else try_res (ff_is_deterministic instance op) (\<lambda>d. Inr (if d then Monotonicity_create_constant else Monotonicity_default))"
  have "\<exists>func. ff_get instance op (map fst rs) = Inr func \<and> (\<exists>m. ?rule func = Inr m
      \<and> (is_monotonic m \<or> is_constant m)
      \<and> (\<exists>l. try_calculate_boundary func (sf_return_type func) (map mono_left (map snd rs)) = Inr l
      \<and> (\<exists>r. try_calculate_boundary func (sf_return_type func) (map mono_right (map snd rs)) = Inr r
      \<and> t\<lparr>mv_stack := (sf_return_type func, m\<lparr>mono_left := l, mono_right := r\<rparr>) # stack\<rparr> = u)))"
    using assms(1) unfolding visit_function_def assms(2) pop_args_append
    by (simp only: try_res_simps prod.case Let_def try_res_Inr_iff if_Inl_iff sum.inject de_Morgan_conj not_not)
  then obtain func m l r where f: "ff_get instance op (map fst rs) = Inr func" and m: "?rule func = Inr m"
    and k: "is_monotonic m \<or> is_constant m"
    and rest: "try_calculate_boundary func (sf_return_type func) (map mono_left (map snd rs)) = Inr l"
    "try_calculate_boundary func (sf_return_type func) (map mono_right (map snd rs)) = Inr r"
    "t\<lparr>mv_stack := (sf_return_type func, m\<lparr>mono_left := l, mono_right := r\<rparr>) # stack\<rparr> = u"
    by (elim exE conjE)
  have "m = Monotonicity_create_constant" if "mv_single_point t"
    using m k that by (auto simp: try_res_Inr_iff Monotonicity_default_def split: if_splits)
  moreover have "sf_get_monotonicity func (map snd rs) = Inr m" if "\<not> mv_single_point t" using m that by simp
  ultimately show thesis by (rule that[OF f _ _ rest(1,2) rest(3)[symmetric]])
qed

lemma visit_function_true:
  assumes o: "ordered to_f64 V" and x: "exact_function to_f64 G instance op" and p: "mv_single_point s \<Longrightarrow> pinned to_f64 V"
    and t: "pushes to_f64 V s fs t" and u: "visit_function instance t op (length fs) = Inr u"
    and ok: "\<And>\<rho>. in_range to_f64 V \<rho> \<Longrightarrow> function_ok op (map (\<lambda>f. f \<rho>) fs)"
  shows "pushes to_f64 V s [\<lambda>\<rho>. function_value G op (map (\<lambda>f. f \<rho>) fs)] u"
proof -
  obtain rs where t: "t = s\<lparr>mv_stack := rs @ mv_stack s\<rparr>" and d: "list_all2 (describes to_f64 V) (map snd rs) fs"
    using t unfolding pushes_def by blast
  have "length fs = length rs" using list_all2_lengthD[OF d] by simp
  then have u: "visit_function instance t op (length rs) = Inr u" and st: "mv_stack t = rs @ mv_stack s" using u t by simp_all
  obtain func m l r where f: "ff_get instance op (map fst rs) = Inr func"
    "mv_single_point t \<Longrightarrow> m = Monotonicity_create_constant"
    "\<not> mv_single_point t \<Longrightarrow> sf_get_monotonicity func (map snd rs) = Inr m"
    and l: "try_calculate_boundary func (sf_return_type func) (map mono_left (map snd rs)) = Inr l"
    and r: "try_calculate_boundary func (sf_return_type func) (map mono_right (map snd rs)) = Inr r"
    and e: "u = t\<lparr>mv_stack := (sf_return_type func, m\<lparr>mono_left := l, mono_right := r\<rparr>) # mv_stack s\<rparr>"
    using visit_function_parts[OF u st] by blast
  have x: "sf_get_monotonicity func = function_rule to_f64 op"
    "\<And>args col. sf_eval func args = Inr col \<Longrightarrow>
       num to_f64 \<lparr>cf_column = col, cf_type = sf_return_type func\<rparr> = function_value G op (map (num to_f64) args)"
    using x f(1) unfolding exact_function_def by blast+
  note b = boundary_bound[where F = "function_value G op", OF l x(2)] boundary_bound[where F = "function_value G op", OF r x(2)]
  have "describes to_f64 V (m\<lparr>mono_left := l, mono_right := r\<rparr>) (\<lambda>\<rho>. function_value G op (map (\<lambda>f. f \<rho>) fs))"
  proof (cases "mv_single_point s")
    case True
    have "local V (\<lambda>\<rho>. function_value G op (map (\<lambda>f. f \<rho>) fs))"
      using describes_bounds[OF d true_flags_default b] unfolding describes_def by blast
    then show ?thesis using describes_bounds[OF d _ b, of m] pinned_constant[OF p[OF True]] f(2) True t by simp
  next
    case False
    then show ?thesis using fn.result_describes[OF o d ok _ b] f(3) x(1) t by simp
  qed
  then show ?thesis unfolding pushes_def by (intro exI[of _ "[(sf_return_type func, m\<lparr>mono_left := l, mono_right := r\<rparr>)]"]) (simp add: e t)
qed


lemma post_visit_node:
  "node_op e = Some op \<Longrightarrow>
     mono_post_visit instance ccc s e = visit_function instance s op (length (pushed_children e))"
  by (cases e) (simp_all add: mono_post_visit_def numeral_2_eq_2)

lemma pushes_one:
  "t = s\<lparr>mv_stack := (a, m) # mv_stack s\<rparr> \<Longrightarrow> describes to_f64 V m f \<Longrightarrow> pushes to_f64 V s [f] t"
  unfolding pushes_def by (intro exI[of _ "[(a, m)]"]) simp

lemma column_describes:
  "V c = Some (l, r) \<Longrightarrow>
     describes to_f64 V \<lparr>is_monotonic = True, is_positive = True, is_constant = False, mono_left = l, mono_right = r\<rparr> (\<lambda>\<rho>. \<rho> c)"
  by (auto simp: describes_def true_flags_def true_bounds_def local_def env_le_def lower_def upper_def)

lemma literal_describes:
  "num to_f64 v = x \<Longrightarrow>
     describes to_f64 V \<lparr>is_monotonic = True, is_positive = True, is_constant = True, mono_left = Some v, mono_right = Some v\<rparr> (\<lambda>\<rho>. x)"
  by (simp add: describes_def true_flags_def true_bounds_def local_def)

text \<open>A leaf pushes what describes it.\<close>

lemma post_visit_leaf:
  assumes "node_op e = None" "mono_post_visit instance ccc s e = Inr t" "exact_literals to_f64 L ccc"
  shows "pushes to_f64 (mv_variables s) s [eval_expr G L e] t"
proof (cases e)
  case (Column c)
  then obtain l r a where v: "mv_variables s c = Some (l, r)" and
    t: "t = s\<lparr>mv_stack := (a, \<lparr>is_monotonic = True, is_positive = True, is_constant = False, mono_left = l, mono_right = r\<rparr>) # mv_stack s\<rparr>"
    using assms(2) by (auto simp: mono_post_visit_def try_res_Inr_iff split: option.splits)
  show ?thesis using pushes_one[OF t column_describes[of "mv_variables s", OF v]] by (simp add: Column)
next
  case (Literal d n a)
  then obtain col where col: "ccc a d = Inr col" and
    t: "t = s\<lparr>mv_stack := (a, \<lparr>is_monotonic = True, is_positive = True, is_constant = True,
      mono_left = Some \<lparr>cf_column = col, cf_type = a\<rparr>, mono_right = Some \<lparr>cf_column = col, cf_type = a\<rparr>\<rparr>) # mv_stack s\<rparr>"
    using assms(2) by (auto simp: mono_post_visit_def try_res_Inr_iff Let_def)
  have "num to_f64 \<lparr>cf_column = col, cf_type = a\<rparr> = L a d" using assms(3) col by (simp add: exact_literals_def)
  from pushes_one[OF t literal_describes[OF this]] show ?thesis by (simp add: Literal)
qed (use assms in \<open>simp_all add: mono_post_visit_def\<close>)

lemma pushes_fields: "pushes to_f64 V s fs t \<Longrightarrow> mv_variables t = mv_variables s \<and> mv_single_point t = mv_single_point s"
  by (auto simp: pushes_def)

lemma pushes_trans: "pushes to_f64 V s fs t \<Longrightarrow> pushes to_f64 V t gs u \<Longrightarrow> pushes to_f64 V s (gs @ fs) u"
proof -
  assume "pushes to_f64 V s fs t" "pushes to_f64 V t gs u"
  then obtain rs qs where "t = s\<lparr>mv_stack := rs @ mv_stack s\<rparr>" "list_all2 (describes to_f64 V) (map snd rs) fs"
    "u = t\<lparr>mv_stack := qs @ mv_stack t\<rparr>" "list_all2 (describes to_f64 V) (map snd qs) gs"
    unfolding pushes_def by blast
  then show ?thesis unfolding pushes_def by (intro exI[of _ "qs @ rs"]) (simp add: list_all2_appendI)
qed

text \<open>The invariant of the walk: an expression pushes one result, which describes its values.\<close>

lemma walk_pushes:
  assumes o: "ordered to_f64 V" and L: "exact_literals to_f64 L ccc"
  shows "walk pre post e s = Inr t \<Longrightarrow> pre = mono_pre_visit \<Longrightarrow> post = mono_post_visit instance ccc \<Longrightarrow>
      mv_variables s = V \<Longrightarrow> (mv_single_point s \<Longrightarrow> pinned to_f64 V) \<Longrightarrow>
      sound_expr to_f64 V G L instance e \<Longrightarrow> pushes to_f64 V s [eval_expr G L e] t"
    and "walk_all pre post es s = Inr u \<Longrightarrow> pre = mono_pre_visit \<Longrightarrow> post = mono_post_visit instance ccc \<Longrightarrow>
      mv_variables s = V \<Longrightarrow> (mv_single_point s \<Longrightarrow> pinned to_f64 V) \<Longrightarrow>
      (\<And>c. c \<in> set es \<Longrightarrow> sound_expr to_f64 V G L instance c) \<Longrightarrow> pushes to_f64 V s (map (eval_expr G L) (rev es)) u"
proof (induction pre post e s and pre post es s arbitrary: t and u rule: walk_walk_all.induct)
  case (1 pre post e s)
  have pre: "pre s e = Inr (Continue s)" using "1.prems"(2) by (simp add: mono_pre_visit_def)
  obtain u where u: "walk_all pre post (rev (pushed_children e)) s = Inr u" and t: "post u e = Inr t"
    using "1.prems"(1) unfolding walk.simps[of pre post e s] pre by (auto simp: try_res_Inr_iff)
  have "pushes to_f64 V s (map (eval_expr G L) (rev (rev (pushed_children e)))) u"
    by (rule "1.IH"[OF pre refl u "1.prems"(2-5)]) (use sound_children[OF "1.prems"(6)] in simp_all)
  then have c: "pushes to_f64 V s (map (eval_expr G L) (pushed_children e)) u" by simp
  show ?case
  proof (cases "node_op e")
    case None
    then have "pushed_children e = [] \<or> (\<forall>s. post s e = Inl UnknownException)"
      using "1.prems"(3) by (cases e) (simp_all add: mono_post_visit_def)
    then have "u = s" using c t by (auto simp: pushes_def)
    then show ?thesis using post_visit_leaf[OF None _ L, where s = s and t = t and G = G] t "1.prems"(3,4) by simp
  next
    case (Some op)
    have "visit_function instance u op (length (map (eval_expr G L) (pushed_children e))) = Inr t"
      using t "1.prems"(3) by (simp add: post_visit_node[OF Some])
    from visit_function_true[OF o sound_node(1)[OF "1.prems"(6) Some] "1.prems"(5) c this]
      sound_node(2)[OF "1.prems"(6) Some] eval_expr_node[OF Some, of G L]
    show ?thesis by (simp add: comp_def fun_eq_iff[of "eval_expr G L e"])
  qed
next
  case (2 pre post s)
  then show ?case by (auto simp: pushes_def)
next
  case (3 pre post e es s)
  obtain t where t: "walk pre post e s = Inr t" and u: "walk_all pre post es t = Inr u"
    using "3.prems"(1) by (auto simp: try_res_Inr_iff)
  have p: "pushes to_f64 V s [eval_expr G L e] t" by (rule "3.IH"(1)[OF t "3.prems"(2-5)]) (use "3.prems"(6) in simp_all)
  have "pushes to_f64 V t (map (eval_expr G L) (rev es)) u"
    by (rule "3.IH"(2)[OF t u "3.prems"(2,3)]) (use pushes_fields[OF p] "3.prems"(4-6) in simp_all)
  from pushes_trans[OF p this] show ?case by simp
qed


lemma check_expression_describes:
  assumes "ordered to_f64 V" "exact_literals to_f64 L ccc" "sound_expr to_f64 V G L instance e"
    and "single_point \<Longrightarrow> pinned to_f64 V" and c: "check_expression instance ccc schema e V single_point = Inr m"
  shows "m = Monotonicity_default \<or> describes to_f64 V m (eval_expr G L e)"
proof -
  define s where "s = ExpressionMonotonicityVisitor_create schema V single_point"
  consider (failed) "m = Monotonicity_default" | (visited) t where "walk mono_pre_visit (mono_post_visit instance ccc) e s = Inr t" "finalize t = Inr m"
  proof (cases "walk mono_pre_visit (mono_post_visit instance ccc) e s")
    case (Inl err)
    then show thesis
      using c failed unfolding check_expression_def visit_walk Let_def s_def[symmetric] by (simp split: if_splits)
  next
    case (Inr t)
    then show thesis
      using c failed visited[OF Inr] unfolding check_expression_def visit_walk Let_def s_def[symmetric]
      by (cases "finalize t") simp_all
  qed
  then show ?thesis
  proof cases
    case (visited t)
    have "mv_variables s = V" "mv_stack s = []" "mv_single_point s \<Longrightarrow> pinned to_f64 V"
      using assms(4) by (simp_all add: s_def ExpressionMonotonicityVisitor_create_def)
    note st = this(2) and p = walk_pushes(1)[OF assms(1,2) visited(1) refl refl this(1,3) assms(3)]
    obtain rs where "mv_stack t = rs" "list_all2 (describes to_f64 V) (map snd rs) [eval_expr G L e]"
      using p st unfolding pushes_def by auto
    then show ?thesis using visited(2) by (auto simp: finalize_def list_all2_Cons2)
  qed simp
qed

text \<open>
  C15: What \<open>check_expression\<close> says is true. Let the range of every column be given by its ends (left at
  most right; both there and equal when a single point is asked for), and let the functions of the
  expression compute exactly what they stand for, dividing by zero nowhere on the range. Then an
  expression said to be monotonic is so on the whole range, in the direction said; one said to be
  constant has one value; and the values lie between the ends given with the answer, so that the
  least of them is at the left end of a positive and at the right end of a negative one.
\<close>

theorem check_expression_true:
  assumes "ordered to_f64 variables" "single_point \<Longrightarrow> pinned to_f64 variables"
    "exact_literals to_f64 L create_constant_column" "sound_expr to_f64 variables G L instance e"
    "check_expression instance create_constant_column schema e variables single_point = Inr m"
    "in_range to_f64 variables \<rho>" "in_range to_f64 variables \<sigma>"
  shows "(is_monotonic m \<and> env_le \<rho> \<sigma> \<longrightarrow>
      (if is_positive m then eval_expr G L e \<rho> \<le> eval_expr G L e \<sigma> else eval_expr G L e \<sigma> \<le> eval_expr G L e \<rho>))
   \<and> (is_constant m \<longrightarrow> eval_expr G L e \<rho> = eval_expr G L e \<sigma>)
   \<and> (\<forall>l. is_monotonic m \<and> mono_left m = Some l \<longrightarrow>
      (if is_positive m then num to_f64 l \<le> eval_expr G L e \<rho> else eval_expr G L e \<rho> \<le> num to_f64 l))
   \<and> (\<forall>r. is_monotonic m \<and> mono_right m = Some r \<longrightarrow>
      (if is_positive m then eval_expr G L e \<rho> \<le> num to_f64 r else num to_f64 r \<le> eval_expr G L e \<rho>))"
  using check_expression_describes[OF assms(1,3,4,2,5)]
proof
  assume "m = Monotonicity_default"
  then show ?thesis by (simp add: Monotonicity_default_def)
next
  assume d: "describes to_f64 variables m (eval_expr G L e)"
  show ?thesis
    using describes_follows[OF d assms(6,7)] described_bounds[OF assms(1) d _ assms(6)]
    unfolding follows_def by (intro conjI allI impI) simp_all
qed


text \<open>A factory of exact functions on real numbers, where the number of a column is its value.\<close>

definition real_f64 :: "real to_f64" where
  "real_f64 v = Inr (cf_column v)"

definition real_factory :: "real FunctionFactory" where
  "real_factory =
     \<lparr>ff_get = (\<lambda>op types. Inr \<lparr>sf_return_type = Float64,
        sf_eval = (\<lambda>args. Inr (function_value (\<lambda>_ _. 0) op (map cf_column args))),
        sf_get_monotonicity = function_rule real_f64 op\<rparr>),
      ff_is_deterministic = (\<lambda>op. Inr True)\<rparr>"

lemma real_f64_num [simp]: "num real_f64 v = cf_column v"
  by (simp add: num_def real_f64_def)

lemma real_factory_exact: "exact_function real_f64 (\<lambda>_ _. 0) real_factory op"
proof -
  have "num real_f64 = (cf_column :: real ColumnWithField \<Rightarrow> real)" by (rule ext) simp
  then show ?thesis by (simp add: exact_function_def real_factory_def)
qed

text \<open>\<open>12 / (a * a)\<close> for \<open>a\<close> from 1 to 6.\<close>

definition ratio :: "(real, unit) Expression" where
  "ratio = BinaryExpression (Literal 12 None Float64) ''/'' (BinaryExpression (Column ''a'') ''*'' (Column ''a''))"

definition ratio_range :: "real variables" where
  "ratio_range = [''a'' \<mapsto> (Some \<lparr>cf_column = 1, cf_type = Float64\<rparr>, Some \<lparr>cf_column = 6, cf_type = Float64\<rparr>)]"

lemma ratio_range_iff: "in_range real_f64 ratio_range \<rho> \<longleftrightarrow> 1 \<le> \<rho> ''a'' \<and> \<rho> ''a'' \<le> 6"
  by (auto simp: in_range_def ratio_range_def)

lemma ratio_ordered: "ordered real_f64 ratio_range"
  by (simp add: ordered_def ratio_range_def)

lemma ratio_sound: "sound_expr real_f64 ratio_range (\<lambda>_ _. 0) (\<lambda>_ x. x) real_factory ratio"
  unfolding sound_expr_def ratio_def
  by (auto simp: subexprs.simps eval_expr.simps real_factory_exact ratio_range_iff function_ok_def function_value_def)

lemma ratio_checked:
  "check_expression real_factory (\<lambda>_. Inr) \<lparr>ds_fields = [DataField_new ''a'' Float64], ds_metadata = ks_empty\<rparr> ratio ratio_range False
   = Inr \<lparr>is_monotonic = True, is_positive = False, is_constant = False,
       mono_left = Some \<lparr>cf_column = 12, cf_type = Float64\<rparr>, mono_right = Some \<lparr>cf_column = 1 / 3, cf_type = Float64\<rparr>\<rparr>"
  by (simp add: check_expression_def visit_def ratio_def ratio_range_def ExpressionMonotonicityVisitor_create_def
      mono_pre_visit_def mono_post_visit_def visit_function_def try_calculate_boundary_def real_factory_def function_rule_defs
      BinaryArithmeticFunction_get_monotonicity_def ArithmeticMulFunction_get_monotonicity_def
      ArithmeticDivFunction_get_monotonicity_def arithmetic_mul_div_monotonicity_def compare_with_zero_def real_f64_def
      Monotonicity_create_def function_value_def finalize_def DataField_new_def Option.is_none_def Let_def numeral_2_eq_2)

theorem check_expression_true_witness:
  "let v = (\<lambda>x. eval_expr (\<lambda>_ _. 0) (\<lambda>_ x. x) ratio (\<lambda>_. x)) in v 3 \<le> v 2 \<and> v 2 \<le> 12 \<and> 1 / 3 \<le> v 2"
  using check_expression_true[OF ratio_ordered _ _ ratio_sound ratio_checked, of "\<lambda>_. 2" "\<lambda>_. 3"]
  by (simp add: ratio_range_iff env_le_def exact_literals_def Let_def)


section \<open>Sorting by a column\<close>

lemma described_column:
  assumes d: "describes to_f64 [c \<mapsto> (l, r)] m f" "is_monotonic m"
    and r: "in_range to_f64 [c \<mapsto> (l, r)] \<rho>" "in_range to_f64 [c \<mapsto> (l, r)] \<sigma>" and le: "\<rho> c \<le> \<sigma> c"
  shows "follows (is_positive m) (f \<rho>) (f \<sigma>)"
proof -
  have "in_range to_f64 [c \<mapsto> (l, r)] (\<rho>(c := \<sigma> c))" "env_le \<rho> (\<rho>(c := \<sigma> c))"
    using r(2) le by (auto simp: in_range_def env_le_def split: if_splits)
  from describes_follows(1)[OF d(1) r(1) this(1) d(2) this(2)]
  have "follows (is_positive m) (f \<rho>) (f (\<rho>(c := \<sigma> c)))" .
  moreover have "\<forall>c' \<in> dom [c \<mapsto> (l, r)]. (\<rho>(c := \<sigma> c)) c' = \<sigma> c'" by simp
  then have "f (\<rho>(c := \<sigma> c)) = f \<sigma>" using d(1) unfolding describes_def local_def by blast
  ultimately show ?thesis by simp
qed


lemma ratio_sorted:
  "extract_sort_column real_factory (\<lambda>_. Inr) \<lparr>ds_fields = [DataField_new ''a'' Float64], ds_metadata = ks_empty\<rparr>
     (Sort Wildcard True False ratio) (Some \<lparr>cf_column = 1, cf_type = Float64\<rparr>) (Some \<lparr>cf_column = 6, cf_type = Float64\<rparr>) ''a''
   = Inr (Sort (Column ''a'') False False ratio)"
  using ratio_checked unfolding ratio_range_def by (simp add: extract_sort_column_def)


end
