(* ===== verification/Range_Map.thy ===== *)
theory Range_Map
  imports Key_Space
begin

text \<open>
  A map from ranges to values that is searched by a point (\<open>common/base/src/rangemap\<close>). Its keys are
  ordered by the end of the range first, so that a search starts at the first range that ends after
  the point. The map of the standard library is the ordered map of theory \<open>Key_Space\<close>.
\<close>

section \<open>Keys\<close>

datatype 't Range = Range (range_start: 't) (range_end: 't)

datatype ('t, 'k) RangeMapKey = RangeMapKey (rmk_range: "'t Range") (rmk_key: 'k)

datatype Ordering = Less | Equal | Greater

definition cmp :: "'a::linorder \<Rightarrow> 'a \<Rightarrow> Ordering" where
  "cmp a b = (if a < b then Less else if a = b then Equal else Greater)"

definition RangeMapKey_cmp :: "('t::linorder, 'k::linorder) RangeMapKey \<Rightarrow> ('t, 'k) RangeMapKey \<Rightarrow> Ordering" where
  "RangeMapKey_cmp self other =
     (let ret = cmp (range_end (rmk_range self)) (range_end (rmk_range other)) in
      if ret \<noteq> Equal then ret
      else let ret = cmp (range_start (rmk_range self)) (range_start (rmk_range other)) in
      if ret \<noteq> Equal then ret
      else cmp (rmk_key self) (rmk_key other))"

instantiation RangeMapKey :: (linorder, linorder) linorder
begin

definition less_eq_RangeMapKey :: "('a, 'b) RangeMapKey \<Rightarrow> ('a, 'b) RangeMapKey \<Rightarrow> bool" where
  "a \<le> b \<longleftrightarrow> RangeMapKey_cmp a b \<noteq> Greater"

definition less_RangeMapKey :: "('a, 'b) RangeMapKey \<Rightarrow> ('a, 'b) RangeMapKey \<Rightarrow> bool" where
  "a < b \<longleftrightarrow> RangeMapKey_cmp a b = Less"

instance
proof
  fix x y z :: "('a, 'b) RangeMapKey"
  note defs = less_eq_RangeMapKey_def less_RangeMapKey_def RangeMapKey_cmp_def cmp_def Let_def
  show "x < y \<longleftrightarrow> x \<le> y \<and> \<not> y \<le> x" "x \<le> x" "x \<le> y \<or> y \<le> x"
    unfolding defs by auto
  show "x \<le> y \<Longrightarrow> y \<le> z \<Longrightarrow> x \<le> z" unfolding defs by (auto split: if_splits)
  show "x \<le> y \<Longrightarrow> y \<le> x \<Longrightarrow> x = y"
    unfolding defs by (cases x; cases y; cases "rmk_range x"; cases "rmk_range y") (auto split: if_splits)
qed

end

lemma RangeMapKey_le:
  "a \<le> b \<longleftrightarrow> range_end (rmk_range a) < range_end (rmk_range b)
     \<or> range_end (rmk_range a) = range_end (rmk_range b)
       \<and> (range_start (rmk_range a) < range_start (rmk_range b)
          \<or> range_start (rmk_range a) = range_start (rmk_range b) \<and> rmk_key a \<le> rmk_key b)"
  by (auto simp: less_eq_RangeMapKey_def RangeMapKey_cmp_def cmp_def Let_def)


section \<open>Operations\<close>

record ('t, 'k, 'v) RangeMap =
  rm_map :: "(('t, 'k) RangeMapKey, 'v) kspace"

definition RangeMap_new :: "('t, 'k, 'v) RangeMap" where
  "RangeMap_new = \<lparr>rm_map = ks_empty\<rparr>"

text \<open>The assertion of \<open>insert\<close> is the value \<open>None\<close>.\<close>

definition RangeMap_insert ::
  "'t::linorder Range \<Rightarrow> 'k::linorder \<Rightarrow> 'v \<Rightarrow> ('t, 'k, 'v) RangeMap \<Rightarrow> ('t, 'k, 'v) RangeMap option" where
  "RangeMap_insert r key val self =
     (if range_start r \<le> range_end r
      then Some (self\<lparr>rm_map := ks_put (RangeMapKey r key) val (rm_map self)\<rparr>)
      else None)"

text \<open>\<open>dflt\<close> is \<open>K::default()\<close>.\<close>

definition get_by_point ::
  "'k::linorder \<Rightarrow> 't::linorder \<Rightarrow> ('t, 'k, 'v) RangeMap \<Rightarrow> (('t, 'k) RangeMapKey \<times> 'v) list" where
  "get_by_point dflt point self =
     (let range_key = RangeMapKey (Range point point) dflt in
      filter (\<lambda>e. range_start (rmk_range (fst e)) \<le> point)
        (ks_range (Included range_key, Unbounded) (rm_map self)))"

definition remove_by_key ::
  "('t::linorder, 'k::linorder) RangeMapKey \<Rightarrow> ('t, 'k, 'v) RangeMap \<Rightarrow> ('t, 'k, 'v) RangeMap" where
  "remove_by_key key self = self\<lparr>rm_map := ks_del key (rm_map self)\<rparr>"

definition RangeMap_remove ::
  "'t::linorder Range \<Rightarrow> 'k::linorder \<Rightarrow> ('t, 'k, 'v) RangeMap \<Rightarrow> ('t, 'k, 'v) RangeMap" where
  "RangeMap_remove r k self = self\<lparr>rm_map := ks_del (RangeMapKey r k) (rm_map self)\<rparr>"


section \<open>The contract of a map of ranges\<close>

text \<open>
  What a client relies on: the entries are those put and not deleted, each once, and a search gives
  those that cover the point. For a client that keeps at most one entry of an owner: what becomes of it.
\<close>

locale range_index =
  fixes wf :: "'m \<Rightarrow> bool" and entries :: "'m \<Rightarrow> ('k \<times> 'v) list" and put :: "'k \<Rightarrow> 'v \<Rightarrow> 'm \<Rightarrow> 'm"
    and del :: "'k \<Rightarrow> 'm \<Rightarrow> 'm" and by_point :: "'p \<Rightarrow> 'm \<Rightarrow> ('k \<times> 'v) list" and covers :: "'p \<Rightarrow> 'k \<Rightarrow> bool"
  assumes wf_put: "wf m \<Longrightarrow> wf (put k v m)" and wf_del: "wf m \<Longrightarrow> wf (del k m)"
    and entries_distinct: "wf m \<Longrightarrow> distinct (entries m)"
    and entries_put: "wf m \<Longrightarrow> k \<notin> fst ` set (entries m) \<Longrightarrow>
      \<exists>xs ys. entries m = xs @ ys \<and> entries (put k v m) = xs @ (k, v) # ys"
    and entries_del: "entries (del k m) = filter (\<lambda>e. fst e \<noteq> k) (entries m)"
    and by_point_entries: "by_point p m = filter (\<lambda>e. covers p (fst e)) (entries m)"
begin

definition owned :: "('v \<Rightarrow> bool) \<Rightarrow> 'm \<Rightarrow> ('k \<times> 'v) list" where
  "owned own m = filter (\<lambda>e. own (snd e)) (entries m)"

lemma owned_put_other: "wf m \<Longrightarrow> k \<notin> fst ` set (entries m) \<Longrightarrow> \<not> own v \<Longrightarrow> owned own (put k v m) = owned own m"
  using entries_put[of m k v] unfolding owned_def by fastforce

lemma owned_put: "wf m \<Longrightarrow> k \<notin> fst ` set (entries m) \<Longrightarrow> own v \<Longrightarrow> owned own m = [] \<Longrightarrow> owned own (put k v m) = [(k, v)]"
  using entries_put[of m k v] unfolding owned_def by fastforce

lemma owned_del: "k \<notin> fst ` set (owned own m) \<Longrightarrow> owned own (del k m) = owned own m"
  unfolding owned_def entries_del filter_filter by (rule filter_cong) auto

lemma owned_by_point: "filter (\<lambda>e. own (snd e)) (by_point p m) = filter (\<lambda>e. covers p (fst e)) (owned own m)"
  unfolding owned_def by_point_entries filter_filter by (rule filter_cong) auto

end


section \<open>The map of ranges implements it\<close>

text \<open>
  A range covers the points from its start up to before its end; an empty range covers its start, if
  its key is at least the default one the search is made with.
\<close>

definition range_covers :: "'k::linorder \<Rightarrow> 't::linorder \<Rightarrow> ('t, 'k) RangeMapKey \<Rightarrow> bool" where
  "range_covers dflt p k =
     (range_start (rmk_range k) \<le> p
      \<and> (p < range_end (rmk_range k)
         \<or> range_end (rmk_range k) = p \<and> range_start (rmk_range k) = p \<and> dflt \<le> rmk_key k))"

lemma get_by_point_covers: "get_by_point dflt p m = filter (\<lambda>e. range_covers dflt p (fst e)) (rm_map m)"
  unfolding get_by_point_def ks_range_def Let_def filter_filter
  by (rule filter_cong) (auto simp: in_range_def range_covers_def RangeMapKey_le)

lemma ks_put_split:
  "ks_wf m \<Longrightarrow> k \<notin> fst ` set m \<Longrightarrow> \<exists>xs ys. m = xs @ ys \<and> ks_put k v m = xs @ (k, v) # ys"
proof (induction m)
  case (Cons e m)
  obtain k' v' where e: "e = (k', v')" by (cases e)
  show ?case
  proof (cases "k < k'")
    case True
    then have "e # m = [] @ e # m \<and> ks_put k v (e # m) = [] @ (k, v) # e # m" by (simp add: e)
    then show ?thesis by blast
  next
    case False
    then obtain xs ys where "m = xs @ ys" "ks_put k v m = xs @ (k, v) # ys"
      using Cons by (auto simp: e ks_wf_Cons)
    then have "e # m = (e # xs) @ ys \<and> ks_put k v (e # m) = (e # xs) @ (k, v) # ys"
      using False Cons.prems(2) by (auto simp: e)
    then show ?thesis by blast
  qed
qed simp

lemma ks_wf_distinct_entries: "ks_wf m \<Longrightarrow> distinct m"
  using ks_wf_distinct distinct_map by blast

interpretation rm: range_index "\<lambda>m. ks_wf (rm_map m)" rm_map
  "\<lambda>k v m. m\<lparr>rm_map := ks_put k v (rm_map m)\<rparr>" remove_by_key "get_by_point dflt" "range_covers dflt"
  for dflt :: "'k::linorder"
  by unfold_locales
    (auto simp: remove_by_key_def ks_del_def get_by_point_covers ks_put_split ks_wf_distinct_entries)

text \<open>
  The examples in the comments of the source, computed. The ranges are half open: only the last of
  [1, 5), [2, 4) and [2, 6) covers 5. Of two keys, the one whose range ends first is the smaller one.
\<close>

lemma get_by_point_documented:
  "Option.bind (RangeMap_insert (Range 1 5) 1 () RangeMap_new) (\<lambda>m.
   Option.bind (RangeMap_insert (Range 2 4) 2 () m) (\<lambda>m.
   map_option (\<lambda>m. (map fst (get_by_point 0 1 m), map fst (get_by_point 0 2 m), map fst (get_by_point 0 5 m)))
     (RangeMap_insert (Range 2 6) (3 :: int) () m)))
   = Some ([RangeMapKey (Range 1 5) 1], [RangeMapKey (Range 2 4) 2, RangeMapKey (Range 1 5) 1, RangeMapKey (Range 2 6) 3],
       [RangeMapKey (Range 2 (6 :: int)) 3])"
  by code_simp

lemma RangeMapKey_order_documented: "RangeMapKey (Range 5 1) 3 < RangeMapKey (Range 2 (3 :: int)) (5 :: int)"
  by code_simp

end
