(* ===== verification/Watcher.thy ===== *)
theory Watcher
  imports State_Machine Range_Map
begin

text \<open>
  Watching keys of the meta service (\<open>metasrv/src/watcher\<close>): the manager takes the events of one queue
  in their order, registers the streams of clients in a map of ranges and passes the changes the state
  machine tells its subscriber to the streams whose range covers the key. The sending half of a
  client's channel is of any type \<open>'tx\<close>; tokio's channels are an argument, \<open>send\<close>, on a state \<open>'c\<close>.
\<close>

section \<open>Messages and streams\<close>

datatype FilterType = FilterAll | FilterUpdate | FilterDelete

record WatchRequest =
  wr_key :: string
  wr_key_end :: "string option"
  wr_filter_type :: FilterType

record Event =
  ev_key :: string
  ev_current :: "PbSeqV option"
  ev_prev :: "PbSeqV option"

record WatchResponse =
  wr_event :: "Event option"

type_synonym WatcherId = int

record 'tx WatcherStream =
  ws_id :: WatcherId
  ws_filter_type :: FilterType
  ws_tx :: 'tx
  ws_key :: string
  ws_key_end :: string

definition WatcherStream_new :: "WatcherId \<Rightarrow> FilterType \<Rightarrow> 'tx \<Rightarrow> string \<Rightarrow> string \<Rightarrow> 'tx WatcherStream" where
  "WatcherStream_new i filter_type tx key key_end =
     \<lparr>ws_id = i, ws_filter_type = filter_type, ws_tx = tx, ws_key = key, ws_key_end = key_end\<rparr>"

text \<open>Sending tells whether the message is in the channel: it fails if the receiver is closed.\<close>

type_synonym ('c, 'tx) send = "'c \<Rightarrow> 'tx \<Rightarrow> WatchResponse \<Rightarrow> bool \<times> 'c"

definition WatcherStream_send :: "('c, 'tx) send \<Rightarrow> 'tx WatcherStream \<Rightarrow> WatchResponse \<Rightarrow> 'c \<Rightarrow> bool \<times> 'c" where
  "WatcherStream_send send self resp c = send c (ws_tx self) resp"

record StateMachineKvData =
  kd_key :: string
  kd_prev :: "bytes SeqV option"
  kd_current :: "bytes SeqV option"

datatype 'tx WatcherEvent =
    CreateWatcherEvent WatchRequest 'tx
  | StateMachineKvDataEvent StateMachineKvData

text \<open>What the subscriber puts into the queue for a change the state machine tells it.\<close>

definition subscriber_kv_changed :: "kv_event \<Rightarrow> 'tx WatcherEvent" where
  "subscriber_kv_changed e =
     (case e of (k, prev, current) \<Rightarrow> StateMachineKvDataEvent \<lparr>kd_key = k, kd_prev = prev, kd_current = current\<rparr>)"


section \<open>The manager\<close>

record 'tx WatcherManagerCore =
  watcher_range_map :: "(string, WatcherId, 'tx WatcherStream) RangeMap"
  current_watcher_id :: WatcherId

definition WatcherManager_create :: "'tx WatcherManagerCore" where
  "WatcherManager_create = \<lparr>watcher_range_map = RangeMap_new, current_watcher_id = 1\<rparr>"

definition get_range_key :: "string \<Rightarrow> string option \<Rightarrow> bool + string Range" where
  "get_range_key key key_end =
     (case key_end of
        Some key_end \<Rightarrow> if key > key_end then Inl False else Inr (Range key (key_end @ [CHR 0x00]))
      | None \<Rightarrow> Inr (Range key key))"

text \<open>A failed assertion is the value \<open>None\<close>.\<close>

definition create_watcher_stream :: "WatchRequest \<Rightarrow> 'tx \<Rightarrow> 'tx WatcherManagerCore \<Rightarrow> 'tx WatcherManagerCore option" where
  "create_watcher_stream create tx self =
     (case get_range_key (wr_key create) (wr_key_end create) of
        Inl _ \<Rightarrow> Some self
      | Inr r \<Rightarrow>
          let watcher_id = current_watcher_id self + 1;
              watcher_stream = WatcherStream_new watcher_id (wr_filter_type create) tx (range_start r) (range_end r)
          in map_option (\<lambda>m. self\<lparr>watcher_range_map := m, current_watcher_id := watcher_id\<rparr>)
               (RangeMap_insert r watcher_id watcher_stream (watcher_range_map self)))"

definition close_stream :: "(string, WatcherId) RangeMapKey \<Rightarrow> 'tx WatcherManagerCore \<Rightarrow> 'tx WatcherManagerCore" where
  "close_stream key self = self\<lparr>watcher_range_map := remove_by_key key (watcher_range_map self)\<rparr>"

definition kv_response :: "StateMachineKvData \<Rightarrow> WatchResponse" where
  "kv_response kv =
     \<lparr>wr_event = Some \<lparr>ev_key = kd_key kv, ev_current = map_option PbSeqV_from (kd_current kv),
        ev_prev = map_option PbSeqV_from (kd_prev kv)\<rparr>\<rparr>"

definition filtered_out :: "FilterType \<Rightarrow> StateMachineKvData \<Rightarrow> bool" where
  "filtered_out filter_type kv =
     (let is_delete_event = (kd_current kv = None) in
      filter_type = FilterDelete \<and> \<not> is_delete_event \<or> filter_type = FilterUpdate \<and> is_delete_event)"

text \<open>The loop over the streams found: the keys of those to close are collected.\<close>

fun notify_streams ::
  "('c, 'tx) send \<Rightarrow> StateMachineKvData \<Rightarrow> ((string, WatcherId) RangeMapKey \<times> 'tx WatcherStream) list \<Rightarrow> 'c
     \<Rightarrow> ((string, WatcherId) RangeMapKey list \<times> 'c) option" where
  "notify_streams send kv [] c = Some ([], c)"
| "notify_streams send kv ((range_key, stream) # found) c =
     (if filtered_out (ws_filter_type stream) kv then notify_streams send kv found c
      else
        let watcher_id = rmk_key range_key in
        if ws_id stream \<noteq> watcher_id then None
        else
          let (sent, c) = WatcherStream_send send stream (kv_response kv) c in
          map_option
            (\<lambda>(remove_range_keys, c).
               (if sent then remove_range_keys
                else RangeMapKey (Range (ws_key stream) (ws_key_end stream)) watcher_id # remove_range_keys, c))
            (notify_streams send kv found c))"

definition notify_event ::
  "('c, 'tx) send \<Rightarrow> StateMachineKvData \<Rightarrow> 'tx WatcherManagerCore \<Rightarrow> 'c \<Rightarrow> ('tx WatcherManagerCore \<times> 'c) option" where
  "notify_event send kv self c =
     (let found = get_by_point 0 (kd_key kv) (watcher_range_map self) in
      if found = [] then Some (self, c)
      else map_option (\<lambda>(remove_range_keys, c). (fold close_stream remove_range_keys self, c))
             (notify_streams send kv found c))"

text \<open>The main loop takes the events in their order until the queue is closed.\<close>

fun watcher_manager_main ::
  "('c, 'tx) send \<Rightarrow> 'tx WatcherEvent list \<Rightarrow> 'tx WatcherManagerCore \<Rightarrow> 'c \<Rightarrow> ('tx WatcherManagerCore \<times> 'c) option" where
  "watcher_manager_main send [] self c = Some (self, c)"
| "watcher_manager_main send (event # events) self c =
     (case event of
        CreateWatcherEvent req tx \<Rightarrow>
          Option.bind (create_watcher_stream req tx self) (\<lambda>self. watcher_manager_main send events self c)
      | StateMachineKvDataEvent kv \<Rightarrow>
          Option.bind (notify_event send kv self c) (\<lambda>(self, c). watcher_manager_main send events self c))"

end
