(* ===== verification/Watcher_Laws.thy ===== *)
theory Watcher_Laws
  imports Watcher
begin

text \<open>
  What a client that watches receives: every change of a key in its range that its filter lets pass,
  made after it was registered, once and in the order of the changes, and nothing else. The manager
  never fails one of its assertions.
\<close>

section \<open>Channels\<close>

text \<open>
  What is relied on of a channel: sending succeeds unless the receiver is closed, and then the message
  is the last one put into this channel and into no other. \<open>inbox\<close> are the messages put into a channel
  so far. When and by whom a receiver is closed is left open.
\<close>

definition mpsc :: "('c, 'tx) send \<Rightarrow> ('c \<Rightarrow> 'tx \<Rightarrow> WatchResponse list) \<Rightarrow> ('c \<Rightarrow> 'tx \<Rightarrow> bool) \<Rightarrow> bool" where
  "mpsc send inbox closed =
     (\<forall>c tx r. fst (send c tx r) = (\<not> closed c tx)
        \<and> (\<forall>tx'. inbox (snd (send c tx r)) tx' =
              (if tx' = tx \<and> \<not> closed c tx then inbox c tx' @ [r] else inbox c tx')))"

lemma mpsc_send:
  assumes "mpsc send inbox closed"
  obtains c' where "send c tx r = (\<not> closed c tx, c')"
    "\<And>tx'. inbox c' tx' = (if tx' = tx \<and> \<not> closed c tx then inbox c tx' @ [r] else inbox c tx')"
proof
  show "send c tx r = (\<not> closed c tx, snd (send c tx r))" using assms by (simp add: mpsc_def prod_eq_iff)
  show "inbox (snd (send c tx r)) tx' = (if tx' = tx \<and> \<not> closed c tx then inbox c tx' @ [r] else inbox c tx')" for tx'
    using assms by (simp add: mpsc_def)
qed


section \<open>The invariant of the manager\<close>

definition stream_key :: "'tx WatcherStream \<Rightarrow> (string, WatcherId) RangeMapKey" where
  "stream_key st = RangeMapKey (Range (ws_key st) (ws_key_end st)) (ws_id st)"

definition core_inv :: "'tx WatcherManagerCore \<Rightarrow> bool" where
  "core_inv core =
     (ks_wf (rm_map (watcher_range_map core)) \<and> 1 \<le> current_watcher_id core
      \<and> (\<forall>(k, st) \<in> set (rm_map (watcher_range_map core)).
           k = stream_key st \<and> 1 < ws_id st \<and> ws_id st \<le> current_watcher_id core))"

text \<open>The streams of one client.\<close>

definition streams_of :: "'tx \<Rightarrow> 'tx WatcherManagerCore \<Rightarrow> ((string, WatcherId) RangeMapKey \<times> 'tx WatcherStream) list" where
  "streams_of tx core = rm.owned (\<lambda>st. ws_tx st = tx) (watcher_range_map core)"

lemma core_inv_create: "core_inv WatcherManager_create" "streams_of tx WatcherManager_create = []"
  by (simp_all add: core_inv_def streams_of_def rm.owned_def WatcherManager_create_def RangeMap_new_def ks_empty_def)

lemma core_inv_fresh: "core_inv core \<Longrightarrow> RangeMapKey r (current_watcher_id core + 1) \<notin> fst ` set (rm_map (watcher_range_map core))"
  by (force simp: core_inv_def stream_key_def)

lemma core_inv_close: "core_inv core \<Longrightarrow> core_inv (close_stream k core)"
  by (auto simp: core_inv_def close_stream_def remove_by_key_def ks_del_def)

lemma streams_of_close: "k \<notin> fst ` set (streams_of tx core) \<Longrightarrow> streams_of tx (close_stream k core) = streams_of tx core"
  by (simp add: streams_of_def close_stream_def rm.owned_del)

lemma close_streams:
  "core_inv core \<Longrightarrow> set ks \<inter> fst ` set (streams_of tx core) = {} \<Longrightarrow>
     core_inv (fold close_stream ks core) \<and> streams_of tx (fold close_stream ks core) = streams_of tx core"
  by (induction ks arbitrary: core) (simp_all add: core_inv_close streams_of_close)


section \<open>Registration\<close>

text \<open>The stream a request registers, if its range is not refused.\<close>

definition registered ::
  "WatchRequest \<Rightarrow> 'tx \<Rightarrow> WatcherId \<Rightarrow> ((string, WatcherId) RangeMapKey \<times> 'tx WatcherStream) list" where
  "registered req tx i =
     (case get_range_key (wr_key req) (wr_key_end req) of
        Inl _ \<Rightarrow> []
      | Inr r \<Rightarrow> [(RangeMapKey r i, WatcherStream_new i (wr_filter_type req) tx (range_start r) (range_end r))])"

lemma less_append_zero: "k < e @ [CHR 0x00] \<longleftrightarrow> k \<le> (e :: string)"
proof (induction k arbitrary: e)
  case Nil
  then show ?case by (cases e) simp_all
next
  case (Cons a k)
  have "\<not> a < CHR 0x00" by (simp add: less_char_def)
  then show ?case using Cons by (cases e) auto
qed

lemma get_range_key_ordered: "get_range_key key key_end = Inr r \<Longrightarrow> range_start r \<le> range_end r"
  using less_append_zero[of key] by (auto simp: get_range_key_def split: option.splits if_splits intro: less_imp_le)

lemma create_watcher_stream_registers:
  assumes "core_inv core"
  obtains core' where "create_watcher_stream req tx' core = Some core'" "core_inv core'"
    "tx' \<noteq> tx \<Longrightarrow> streams_of tx core' = streams_of tx core"
    "tx' = tx \<Longrightarrow> streams_of tx core = [] \<Longrightarrow> \<exists>i > 1. streams_of tx core' = registered req tx i"
proof (cases "get_range_key (wr_key req) (wr_key_end req)")
  case (Inl b)
  have "registered req tx 2 = []" using Inl by (simp add: registered_def)
  then have "streams_of tx core = [] \<Longrightarrow> \<exists>i > 1. streams_of tx core = registered req tx i" by (intro exI[of _ 2]) simp
  then show thesis using that[of core] Inl assms by (simp add: create_watcher_stream_def)
next
  case (Inr r)
  define i where "i = current_watcher_id core + 1"
  define st where "st = WatcherStream_new i (wr_filter_type req) tx' (range_start r) (range_end r)"
  define m where "m = (watcher_range_map core)\<lparr>rm_map := ks_put (RangeMapKey r i) st (rm_map (watcher_range_map core))\<rparr>"
  define core' where "core' = core\<lparr>watcher_range_map := m, current_watcher_id := i\<rparr>"
  have c: "create_watcher_stream req tx' core = Some core'"
    using get_range_key_ordered[OF Inr]
    by (simp add: create_watcher_stream_def Inr Let_def RangeMap_insert_def core'_def m_def st_def i_def)
  note fresh = core_inv_fresh[OF assms, of r, folded i_def]
  have st: "RangeMapKey r i = stream_key st" "ws_id st = i" "ws_tx st = tx'"
    by (cases r; simp add: st_def WatcherStream_new_def stream_key_def)+
  have "1 < i" using assms by (simp add: core_inv_def i_def)
  have w: "ks_wf (rm_map (watcher_range_map core))" using assms by (simp add: core_inv_def)
  have "core_inv core'"
    using assms set_ks_put[of "RangeMapKey r i" st "rm_map (watcher_range_map core)"] st \<open>1 < i\<close> ks_wf_put[OF w]
    by (fastforce simp: core_inv_def core'_def m_def i_def)
  moreover have "streams_of tx core' = streams_of tx core" if "tx' \<noteq> tx"
    using rm.owned_put_other[OF w fresh, of "\<lambda>st. ws_tx st = tx"] that st(3) by (simp add: streams_of_def core'_def m_def)
  moreover have "streams_of tx core' = registered req tx i" if "tx' = tx" "streams_of tx core = []"
    using rm.owned_put[OF w fresh, of "\<lambda>st. ws_tx st = tx"] that st(3)
    by (simp add: streams_of_def core'_def m_def registered_def Inr st_def)
  ultimately show thesis using that[OF c] \<open>1 < i\<close> by blast
qed


section \<open>Notification\<close>

text \<open>The streams of a client that get a message for a change.\<close>

definition notified ::
  "StateMachineKvData \<Rightarrow> ((string, WatcherId) RangeMapKey \<times> 'tx WatcherStream) list
     \<Rightarrow> ((string, WatcherId) RangeMapKey \<times> 'tx WatcherStream) list" where
  "notified kv es = filter (\<lambda>e. range_covers 0 (kd_key kv) (fst e) \<and> \<not> filtered_out (ws_filter_type (snd e)) kv) es"

lemma notify_streams_delivers:
  assumes "mpsc send inbox closed" "\<And>c. \<not> closed c tx" "\<forall>(k, st) \<in> set es. k = stream_key st"
  shows "\<exists>ks c'. notify_streams send kv es c = Some (ks, c')
     \<and> (\<forall>k \<in> set ks. \<exists>st. (k, st) \<in> set es \<and> ws_tx st \<noteq> tx)
     \<and> inbox c' tx = inbox c tx @ map (\<lambda>_. kv_response kv)
         (filter (\<lambda>e. ws_tx (snd e) = tx \<and> \<not> filtered_out (ws_filter_type (snd e)) kv) es)"
  using assms(3)
proof (induction es arbitrary: c)
  case (Cons e es)
  obtain k st where e: "e = (k, st)" by (cases e)
  have k: "rmk_key k = ws_id st" "k = stream_key st" using Cons.prems by (simp_all add: e stream_key_def)
  have IH: "\<exists>ks c'. notify_streams send kv es c = Some (ks, c')
     \<and> (\<forall>k \<in> set ks. \<exists>st. (k, st) \<in> set es \<and> ws_tx st \<noteq> tx)
     \<and> inbox c' tx = inbox c tx @ map (\<lambda>_. kv_response kv)
         (filter (\<lambda>e. ws_tx (snd e) = tx \<and> \<not> filtered_out (ws_filter_type (snd e)) kv) es)" for c
    using Cons by simp
  show ?case
  proof (cases "filtered_out (ws_filter_type st) kv")
    case True
    then show ?thesis using IH[of c] by (simp add: e) blast
  next
    case False
    obtain d where d: "send c (ws_tx st) (kv_response kv) = (\<not> closed c (ws_tx st), d)"
      "inbox d tx = (if tx = ws_tx st \<and> \<not> closed c (ws_tx st) then inbox c tx @ [kv_response kv] else inbox c tx)"
      using mpsc_send[OF assms(1)] by metis
    obtain ks c' where r: "notify_streams send kv es d = Some (ks, c')"
      "(\<forall>k \<in> set ks. \<exists>st. (k, st) \<in> set es \<and> ws_tx st \<noteq> tx)"
      "inbox c' tx = inbox d tx @ map (\<lambda>_. kv_response kv)
         (filter (\<lambda>e. ws_tx (snd e) = tx \<and> \<not> filtered_out (ws_filter_type (snd e)) kv) es)"
      using IH[of d] by blast
    have "notify_streams send kv (e # es) c = Some (if closed c (ws_tx st) then k # ks else ks, c')"
      using False d(1) r(1) k by (simp add: e Let_def WatcherStream_send_def stream_key_def)
    moreover have "\<forall>k \<in> set (if closed c (ws_tx st) then k # ks else ks). \<exists>st. (k, st) \<in> set (e # es) \<and> ws_tx st \<noteq> tx"
      using r(2) assms(2)[of c] by (auto simp: e)
    moreover have "inbox c' tx = inbox c tx @ map (\<lambda>_. kv_response kv)
        (filter (\<lambda>e. ws_tx (snd e) = tx \<and> \<not> filtered_out (ws_filter_type (snd e)) kv) (e # es))"
      using False r(3) d(2) assms(2)[of c] by (auto simp: e)
    ultimately show ?thesis by blast
  qed
qed simp

lemma notify_event_delivers:
  assumes m: "mpsc send inbox closed" "\<And>c. \<not> closed c tx" and inv: "core_inv core"
  obtains core' c' where "notify_event send kv core c = Some (core', c')" "core_inv core'"
    "streams_of tx core' = streams_of tx core"
    "inbox c' tx = inbox c tx @ map (\<lambda>_. kv_response kv) (notified kv (streams_of tx core))"
proof -
  let ?found = "get_by_point 0 (kd_key kv) (watcher_range_map core)"
  have sub: "set ?found \<subseteq> set (rm_map (watcher_range_map core))" by (auto simp: get_by_point_covers)
  then have "\<forall>(k, st) \<in> set ?found. k = stream_key st" using inv by (auto simp: core_inv_def)
  from notify_streams_delivers[OF m this, of kv c] obtain ks c' where
    r: "notify_streams send kv ?found c = Some (ks, c')" "\<forall>k \<in> set ks. \<exists>st. (k, st) \<in> set ?found \<and> ws_tx st \<noteq> tx"
    "inbox c' tx = inbox c tx @ map (\<lambda>_. kv_response kv)
       (filter (\<lambda>e. ws_tx (snd e) = tx \<and> \<not> filtered_out (ws_filter_type (snd e)) kv) ?found)" by blast
  have "filter (\<lambda>e. ws_tx (snd e) = tx \<and> \<not> filtered_out (ws_filter_type (snd e)) kv) ?found = notified kv (streams_of tx core)"
    unfolding notified_def streams_of_def rm.owned_def get_by_point_covers filter_filter by (rule filter_cong) auto
  note n = r(3)[unfolded this]
  have "distinct (map fst (rm_map (watcher_range_map core)))" using inv ks_wf_distinct by (auto simp: core_inv_def)
  then have "set ks \<inter> fst ` set (streams_of tx core) = {}"
    using r(2) sub by (fastforce simp: streams_of_def rm.owned_def dest: eq_key_imp_eq_value)
  note close = close_streams[OF inv this]
  show thesis
  proof (cases "?found = []")
    case True
    then show thesis using that[of core c] inv n r(1) by (simp add: notify_event_def)
  next
    case False
    then show thesis using that[of "fold close_stream ks core" c'] close n r(1) by (simp add: notify_event_def Let_def)
  qed
qed


section \<open>Delivery\<close>

fun clients :: "'tx WatcherEvent list \<Rightarrow> 'tx set" where
  "clients [] = {}"
| "clients (CreateWatcherEvent _ tx # evs) = insert tx (clients evs)"
| "clients (StateMachineKvDataEvent _ # evs) = clients evs"

fun kv_changes :: "'tx WatcherEvent list \<Rightarrow> StateMachineKvData list" where
  "kv_changes [] = []"
| "kv_changes (CreateWatcherEvent _ _ # evs) = kv_changes evs"
| "kv_changes (StateMachineKvDataEvent kv # evs) = kv # kv_changes evs"

lemma main_delivers:
  assumes m: "mpsc send inbox closed" "\<And>c. \<not> closed c tx"
  shows "core_inv core \<Longrightarrow> tx \<notin> clients evs \<Longrightarrow>
     \<exists>core' c'. watcher_manager_main send evs core c = Some (core', c') \<and> core_inv core'
       \<and> streams_of tx core' = streams_of tx core
       \<and> inbox c' tx = inbox c tx @ concat (map (\<lambda>kv. map (\<lambda>_. kv_response kv) (notified kv (streams_of tx core))) (kv_changes evs))"
proof (induction evs arbitrary: core c rule: clients.induct)
  case (2 req tx' evs)
  obtain core' where c: "create_watcher_stream req tx' core = Some core'" "core_inv core'" "streams_of tx core' = streams_of tx core"
    using create_watcher_stream_registers[OF "2.prems"(1), of req tx' tx] "2.prems"(2) by auto
  show ?case using "2.IH"[OF c(2), of c] "2.prems"(2) c by simp
next
  case (3 kv evs)
  obtain core' c' where n: "notify_event send kv core c = Some (core', c')" "core_inv core'"
    "streams_of tx core' = streams_of tx core"
    "inbox c' tx = inbox c tx @ map (\<lambda>_. kv_response kv) (notified kv (streams_of tx core))"
    using notify_event_delivers[OF m "3.prems"(1)] by blast
  show ?case using "3.IH"[OF n(2), of c'] "3.prems"(2) n by simp
qed simp

lemma main_append:
  "watcher_manager_main send (evs @ evs') core c =
     Option.bind (watcher_manager_main send evs core c) (\<lambda>(core, c). watcher_manager_main send evs' core c)"
  by (induction send evs core c rule: watcher_manager_main.induct)
    (auto split: WatcherEvent.splits simp: Option.bind_eq_Some_conv intro!: bind_option_cong)

text \<open>What a request asks for: \<open>[key, key_end]\<close> with both ends, or one key.\<close>

definition watches :: "WatchRequest \<Rightarrow> StateMachineKvData \<Rightarrow> bool" where
  "watches req kv =
     ((case wr_key_end req of
         None \<Rightarrow> kd_key kv = wr_key req
       | Some key_end \<Rightarrow> wr_key req \<le> kd_key kv \<and> kd_key kv \<le> key_end)
      \<and> (case wr_filter_type req of
           FilterAll \<Rightarrow> True | FilterUpdate \<Rightarrow> kd_current kv \<noteq> None | FilterDelete \<Rightarrow> kd_current kv = None))"

lemma notified_registered:
  assumes "1 < i"
  shows "notified kv (registered req tx i) = (if watches req kv then registered req tx i else [])"
proof -
  have "key_end @ [CHR 0x00] = k \<Longrightarrow> k \<le> key_end \<Longrightarrow> False" for key_end k :: string
    using less_append_zero[of k key_end] by auto
  then show ?thesis using assms
    by (auto simp: notified_def registered_def get_range_key_def watches_def range_covers_def filtered_out_def
        WatcherStream_new_def less_append_zero split: option.splits FilterType.splits)
qed


lemma notified_registered_once:
  assumes "1 < i"
  shows "map (\<lambda>_. kv_response kv) (notified kv (registered req tx i)) = (if watches req kv then [kv_response kv] else [])"
proof -
  have "length (registered req tx i) = 1" if "watches req kv"
    using that by (auto simp: registered_def get_range_key_def watches_def split: option.splits)
  then show ?thesis by (auto simp: notified_registered[OF assms] length_Suc_conv)
qed


text \<open>Channels that no one closes but those of clients 2 and up.\<close>

definition list_send :: "((nat \<Rightarrow> WatchResponse list), nat) send" where
  "list_send c tx r = (if 2 \<le> tx then (False, c) else (True, c(tx := c tx @ [r])))"

lemma list_send_mpsc: "mpsc list_send (\<lambda>c. c) (\<lambda>_ tx. 2 \<le> tx)"
  by (simp add: mpsc_def list_send_def)

text \<open>
  Client 1 watches the deletions of \<open>b\<close> to \<open>d\<close>; client 2, whose receiver is closed, watches everything
  from \<open>a\<close> to \<open>z\<close>. Keys \<open>a\<close>, \<open>d\<close> and \<open>db\<close> are deleted and \<open>c\<close> is written.
\<close>

definition kv_data :: "string \<Rightarrow> bytes SeqV option \<Rightarrow> StateMachineKvData" where
  "kv_data k current = \<lparr>kd_key = k, kd_prev = None, kd_current = current\<rparr>"


end
