(* ===== verification/Spec2Isabelle.thy ===== *)
theory Spec2Isabelle
  imports State_Machine_Laws Sled_Instance Schema_Identity Disk_Cache_Laws Merge_Laws Monotonicity_Laws
    Watcher_Laws
begin

text \<open>
  A verification of parts of Databend. Databend has two services: the meta service (\<open>src/metasrv\<close>, on
  the crates \<open>src/common/meta\<close>) keeps databases, tables and other records in a state machine that is
  replicated by raft, and the query service (\<open>src/query\<close>) plans and runs SQL on columns. Modelled are
  the meta service from its store up to the schema layer and its watchers, the caches of files, and
  three pure parts of the query engine: types and coercion, arithmetic, and monotonicity.

  \<^bold>\<open>The parts and how they interact.\<close>
  A client of the schema layer reads records and sends transactions to a \<open>KVApi\<close>. The state machine
  implements \<open>KVApi\<close>: it applies log entries, one after the other, to its key spaces, and tells a
  subscriber of changes. The key spaces are stored in one sled tree, as bytes with a prefix. The
  subscriber puts the changes into the queue of the watcher manager, which passes them to the streams
  of the clients whose range covers the key. Records of the schema layer are protobuf messages. The
  disk cache keeps its files in the order of an LRU cache. The analysis of monotonicity walks over an
  expression with the visitor and asks each function for its rule.

  \<^bold>\<open>Theories, and the code they model.\<close>
  \<^item> \<open>Meta_Prelude\<close>: machine types, results with errors (\<open>try_res\<close> is \<open>?\<close>), named collections of facts.
  \<^item> \<open>Meta_Types\<close>: \<open>common/meta/types\<close>, field by field. \<open>Utf8\<close>: which bytes are a string.
  \<^item> \<open>Key_Space\<close>: one key space as an ordered map. \<open>Sled_Store\<close>: \<open>sled_tree.rs\<close> and
    \<open>sled_key_space.rs\<close> on bytes; sled is an argument with the laws \<open>sled_laws\<close>.
    \<open>Sled_Store_Laws\<close>: reads, writes and transactions of a typed key space are those of the ordered
    map, key spaces do not disturb each other, a failed transaction changes nothing.
    \<open>Sled_Instance\<close>: the laws can hold.
  \<^item> \<open>State_Machine\<close>: \<open>sm.rs\<close> of \<open>raft-store\<close>; the state is a record of key spaces, \<open>sm_apply\<close> one
    log entry. \<open>State_Machine_Inv\<close>: sequence numbers grow and identify records.
    \<open>State_Machine_Laws\<close>: conditional writes, transactions, deduplication, agreement of replicas.
  \<^item> \<open>KV_Api\<close>: \<open>kv_api.rs\<close> as the locale \<open>KVApi\<close>, interpreted on the state machine
    (\<open>sm_kv_api_impl.rs\<close>).
  \<^item> \<open>Schema_Keys\<close>, \<open>Schema_Keys_Laws\<close>: \<open>kv_api_key.rs\<close>, \<open>schema_api_keys.rs\<close> and their round trips.
    \<open>Schema_Types\<close>: databases, tables, schemas, data types. \<open>Proto_Conv\<close>, \<open>Proto_Conv_Laws\<close>:
    \<open>common/proto-conv\<close>, lossless but for the \<open>Null\<close> type.
  \<^item> \<open>Schema_Api\<close>: \<open>schema_api_impl.rs\<close>, every operation over any \<open>KVApi\<close>. \<open>Schema_Inv\<close>: names and ids
    are linked one to one. \<open>Schema_Catalog\<close>: the abstract catalogue each operation implements.
    \<open>Schema_Concurrency\<close>, \<open>Schema_Laws\<close>: the links hold under any interleaving of clients.
    \<open>Schema_Identity\<close>: what renames, versions and drops keep. \<open>Schema_Instance\<close>: a codec for witnesses.
  \<^item> \<open>Range_Map\<close>: \<open>common/base/src/rangemap\<close> with the locale \<open>range_index\<close>. \<open>Watcher\<close>,
    \<open>Watcher_Laws\<close>: \<open>metasrv/src/watcher\<close>; a client gets every change it asked for, once, in order.
  \<^item> \<open>Lru_Cache\<close>, \<open>Lru_Cache_Laws\<close>, \<open>Disk_Cache\<close>, \<open>Disk_Cache_Laws\<close>: \<open>common/cache\<close>; the locale
    \<open>countable_meter\<close>, the bound on the size, agreement of cache and disk.
  \<^item> \<open>Type_Coercion\<close>, \<open>Merge_Laws\<close>: \<open>common/datavalues/src/types\<close> and the generator of the table of
    result types in \<open>common/codegen\<close>. \<open>Arithmetic\<close>, \<open>Arithmetic_Laws\<close>:
    \<open>common/functions/src/scalars/arithmetics\<close>; results have the declared type and are exact where it
    is wide enough.
  \<^item> \<open>Expression_Visitor\<close>: \<open>plan_expression.rs\<close>, \<open>plan_expression_visitor.rs\<close>. \<open>Monotonicity\<close>:
    \<open>plan_expression_monotonicity.rs\<close> and the rules of the functions. \<open>Monotonicity_Rules\<close>: the
    contract of a rule, locale \<open>mono_contract\<close>, for every modelled function. \<open>Monotonicity_Laws\<close>: the
    answers are true of the values, and a sort by a column can replace a sort by an expression.

  \<^bold>\<open>Bounds, fuel and parameters.\<close>
  Loops whose end is not structural are functions with a measure (\<open>visit_loop\<close>, \<open>walk\<close>, \<open>merge_types\<close>).
  The retry loops of the schema layer are one step per turn with fuel for the number of turns: alone,
  the first turn is enough; among other clients a turn can fail any number of times, and the
  properties of interleavings speak of any sequence of turns. The eviction loop of the LRU cache is a
  partial function in the option type, and \<open>None\<close> is a loop that does not end. Machine integers are
  words where they wrap or are compared (\<open>u64\<close>); watcher ids, \<open>i64\<close> in the code, are unbounded. Code of
  other packages is an argument: sled, prost, chrono, ritelinked, walkdir, tokio's channels, floating
  point operations, the cast of a column to a number. What is relied on is a named hypothesis of each
  property, and each witness satisfies it. A panic is a value, \<open>Panic\<close> or \<open>None\<close>.

  \<^bold>\<open>Not modelled.\<close>
  The raft log, snapshots and the network (openraft, tonic); clients of the meta service; management of
  users, roles, clusters, stages and functions (serde); the protobuf form of users and stages; columns
  as arrow arrays; scalar functions other than arithmetic, and the monotonicity of functions on dates;
  aggregate functions; the SQL parser and plans; sessions, interpreters, optimizers, pipelines and
  storages, the range filter included; configuration, metrics and tracing. These are I/O, glue around
  other packages, or evaluators over column formats of arrow2. The analysis of monotonicity is shown
  true for exact functions on the numbers of columns: rounding and the wrap-around of 64-bit integers
  are outside of that statement.
\<close>

end
